(* ===== verification/Prelude.thy ===== *)
theory Prelude
  imports Main "HOL-Library.Sublist" "HOL-Library.Word" "HOL-Library.List_Lexorder"
    "HOL-Library.Char_ord" "HOL-Library.Product_Lexorder"
begin

text \<open>
  The vocabulary every component shares.
  Go strings are byte strings and are modelled by \<^typ>\<open>string\<close>; the order of
  \<open>List_Lexorder\<close> over \<open>Char_ord\<close> is Go's bytewise \<open><\<close>.
  The functions of Go's \<open>strings\<close>, \<open>bufio\<close>, \<open>encoding/hex\<close> and \<open>time\<close> packages that the
  program calls are defined here, executably.
  An \<open>error\<close> value is a \<open>goerr\<close>, a fallible call returns \<open>goerr + 'a\<close>.
  Go leaves the order of a \<open>range\<close> over a map open: code that ranges over a map takes an
  enumeration \<open>ord\<close> of the key set as an argument, and theorems quantify over every
  \<open>ord\<close> that satisfies \<open>range_order\<close>.
  The collections \<open>go_strings\<close> and \<open>go_maps\<close> carry the rewrite rules of the two groups.
\<close>

named_theorems go_strings \<open>rules for the modelled string functions\<close>
named_theorems go_maps \<open>rules for maps and their iteration order\<close>

section \<open>Errors, results, HTTP status codes, time\<close>

datatype goerr =
    ApiErr int string      \<comment> \<open>an \<open>api.Error\<close> with its HTTP status\<close>
  | ErrKeyNotFound         \<comment> \<open>\<open>badger.ErrKeyNotFound\<close>\<close>
  | GoErr string           \<comment> \<open>any other error value\<close>
  | GoPanic string         \<comment> \<open>a run-time panic\<close>

type_synonym 'a result = "goerr + 'a"
type_synonym uint64 = "64 word"
type_synonym gotime = int

abbreviation StatusOK :: int where "StatusOK \<equiv> 200"
abbreviation StatusTemporaryRedirect :: int where "StatusTemporaryRedirect \<equiv> 307"
abbreviation StatusBadRequest :: int where "StatusBadRequest \<equiv> 400"
abbreviation StatusUnauthorized :: int where "StatusUnauthorized \<equiv> 401"
abbreviation StatusNotFound :: int where "StatusNotFound \<equiv> 404"
abbreviation StatusConflict :: int where "StatusConflict \<equiv> 409"
abbreviation StatusGone :: int where "StatusGone \<equiv> 410"
abbreviation StatusInternalServerError :: int where "StatusInternalServerError \<equiv> 500"
abbreviation StatusServiceUnavailable :: int where "StatusServiceUnavailable \<equiv> 503"

text \<open>
  A \<open>time.Time\<close> is the number of nanoseconds since the Unix epoch. The zero
  \<open>time.Time\<close> is the first of January of the year 1.
\<close>

definition zero_time :: gotime where
  "zero_time = -62135596800000000000"

definition time_Unix :: "gotime \<Rightarrow> int" where
  "time_Unix t = t div 1000000000"

text \<open>\<open>time.Duration(n) * time.Second\<close> is computed in 64-bit two's complement and wraps.\<close>

definition seconds :: "uint64 \<Rightarrow> int" where
  "seconds n = sint (n * 1000000000)"

section \<open>Strings\<close>

definition TrimPrefix :: "string \<Rightarrow> string \<Rightarrow> string" where
  "TrimPrefix s p = (if prefix p s then drop (length p) s else s)"

definition TrimRight :: "string \<Rightarrow> char \<Rightarrow> string" where
  "TrimRight s c = rev (dropWhile (\<lambda>x. x = c) (rev s))"

fun Split :: "char \<Rightarrow> string \<Rightarrow> string list" where
  "Split c [] = [[]]"
| "Split c (x # xs) =
     (if x = c then [] # Split c xs
      else (case Split c xs of [] \<Rightarrow> [[x]] | w # ws \<Rightarrow> (x # w) # ws))"

fun Join :: "char \<Rightarrow> string list \<Rightarrow> string" where
  "Join c [] = []"
| "Join c [w] = w"
| "Join c (w # ws) = w @ c # Join c ws"

text \<open>ASCII case mapping; bytes outside \<open>A..Z\<close> are left alone.\<close>

definition lower_char :: "char \<Rightarrow> char" where
  "lower_char c =
     (if (65::nat) \<le> of_char c \<and> of_char c \<le> (90::nat) then char_of (of_char c + (32::nat))
      else c)"

definition ToLower :: "string \<Rightarrow> string" where
  "ToLower s = map lower_char s"

definition EqualFold :: "string \<Rightarrow> string \<Rightarrow> bool" where
  "EqualFold s t \<longleftrightarrow> ToLower s = ToLower t"

text \<open>
  The UTF-8 encodings of the code points for which \<open>unicode.IsSpace\<close> holds, and
  \<open>strings.TrimSpace\<close>, which removes them from both ends.
\<close>

definition space_runes :: "string list" where
  "space_runes =
     [[CHR 0x09], [CHR 0x0A], [CHR 0x0B], [CHR 0x0C], [CHR 0x0D], [CHR 0x20],
      [CHR 0xC2, CHR 0x85], [CHR 0xC2, CHR 0xA0], [CHR 0xE1, CHR 0x9A, CHR 0x80],
      [CHR 0xE2, CHR 0x80, CHR 0x80], [CHR 0xE2, CHR 0x80, CHR 0x81],
      [CHR 0xE2, CHR 0x80, CHR 0x82], [CHR 0xE2, CHR 0x80, CHR 0x83],
      [CHR 0xE2, CHR 0x80, CHR 0x84], [CHR 0xE2, CHR 0x80, CHR 0x85],
      [CHR 0xE2, CHR 0x80, CHR 0x86], [CHR 0xE2, CHR 0x80, CHR 0x87],
      [CHR 0xE2, CHR 0x80, CHR 0x88], [CHR 0xE2, CHR 0x80, CHR 0x89],
      [CHR 0xE2, CHR 0x80, CHR 0x8A], [CHR 0xE2, CHR 0x80, CHR 0xA8],
      [CHR 0xE2, CHR 0x80, CHR 0xA9], [CHR 0xE2, CHR 0x80, CHR 0xAF],
      [CHR 0xE2, CHR 0x81, CHR 0x9F], [CHR 0xE3, CHR 0x80, CHR 0x80]]"

function trim_by :: "string list \<Rightarrow> string \<Rightarrow> string" where
  "trim_by ws s =
     (case find (\<lambda>w. w \<noteq> [] \<and> prefix w s) ws of
        None \<Rightarrow> s
      | Some w \<Rightarrow> trim_by ws (drop (length w) s))"
  by pat_completeness auto
termination
  by (relation "measure (\<lambda>(ws, s). length s)")
    (auto simp: find_Some_iff prefix_def)

declare trim_by.simps [simp del]

definition TrimSpace :: "string \<Rightarrow> string" where
  "TrimSpace s = rev (trim_by (map rev space_runes) (rev (trim_by space_runes s)))"

text \<open>\<open>bufio.ScanLines\<close>: lines end at a newline, one trailing carriage return is dropped.\<close>

definition dropCR :: "string \<Rightarrow> string" where
  "dropCR s = (if s \<noteq> [] \<and> last s = CHR 0x0D then butlast s else s)"

definition raw_lines :: "string \<Rightarrow> string list" where
  "raw_lines s = (let ls = Split (CHR 0x0A) s in if last ls = [] then butlast ls else ls)"

fun digits :: "nat \<Rightarrow> string" where
  "digits n = (if n < 10 then [char_of (48 + n)] else digits (n div 10) @ [char_of (48 + n mod 10)])"

declare digits.simps [simp del]

definition itoa :: "int \<Rightarrow> string" where
  "itoa i = (if i < 0 then ''-'' @ digits (nat (- i)) else digits (nat i))"

text \<open>\<open>err.Error()\<close>; for an \<open>api.Error\<close> it is \<open>code:message\<close>.\<close>

definition Error_string :: "goerr \<Rightarrow> string" where
  "Error_string e = (case e of
     ApiErr c m \<Rightarrow> itoa c @ '':'' @ m
   | ErrKeyNotFound \<Rightarrow> ''Key not found''
   | GoErr m \<Rightarrow> m
   | GoPanic m \<Rightarrow> m)"

definition hex_digit :: "nat \<Rightarrow> char" where
  "hex_digit n = ''0123456789abcdef'' ! n"

definition hex_EncodeToString :: "string \<Rightarrow> string" where
  "hex_EncodeToString s =
     concat (map (\<lambda>c. [hex_digit (of_char c div 16), hex_digit (of_char c mod 16)]) s)"

section \<open>Maps and iteration order\<close>

definition range_order :: "('k set \<Rightarrow> 'k list) \<Rightarrow> bool" where
  "range_order ord \<longleftrightarrow> (\<forall>A. finite A \<longrightarrow> distinct (ord A) \<and> set (ord A) = A)"

text \<open>The enumeration a witness uses: ascending order of the keys.\<close>

abbreviation ascending :: "string set \<Rightarrow> string list" where
  "ascending \<equiv> sorted_list_of_set"

section \<open>Lemmas\<close>

subsection \<open>Splitting and joining\<close>

lemma Split_not_Nil [simp]: "Split c s \<noteq> []"
  by (induction s) (auto split: list.splits)

lemma Split_no_sep [go_strings]: "c \<notin> set s \<Longrightarrow> Split c s = [s]"
  by (induction s) auto

lemma Split_sep [go_strings]: "c \<notin> set s \<Longrightarrow> Split c (s @ c # t) = s # Split c t"
  by (induction s) auto

lemma Join_Cons: "ws \<noteq> [] \<Longrightarrow> Join c (w # ws) = w @ c # Join c ws"
  by (cases ws) auto

lemma Join_Split [simp]: "Join c (Split c s) = s"
proof (induction s)
  case (Cons x xs)
  show ?case
  proof (cases "x = c")
    case True
    with Cons show ?thesis by (simp add: Join_Cons)
  next
    case False
    obtain w ws where w: "Split c xs = w # ws" by (cases "Split c xs") auto
    with Cons False show ?thesis by (cases ws) auto
  qed
qed simp

lemma Split_pieces: "w \<in> set (Split c s) \<Longrightarrow> c \<notin> set w"
  by (induction s arbitrary: w) (auto split: list.splits if_splits)

lemma Split_terminated: "c \<notin> set s \<Longrightarrow> Split c (s @ [c]) = [s, []]"
  using Split_sep [of c s "[]"] by simp

subsection \<open>Prefixes\<close>

lemma TrimPrefix_append [simp, go_strings]: "TrimPrefix (p @ s) p = s"
  by (simp add: TrimPrefix_def)

lemma TrimPrefix_Nil [simp]: "TrimPrefix s [] = s"
  by (simp add: TrimPrefix_def)

lemma prefix_TrimPrefix: "prefix p s \<Longrightarrow> s = p @ TrimPrefix s p"
  by (auto simp: TrimPrefix_def prefix_def)

subsection \<open>Trimming\<close>

lemma trim_by_stop:
  assumes "\<And>w. w \<in> set ws \<Longrightarrow> w \<noteq> [] \<Longrightarrow> \<not> prefix w s"
  shows "trim_by ws s = s"
proof -
  have "find (\<lambda>w. w \<noteq> [] \<and> prefix w s) ws = None"
    using assms by (auto simp: find_None_iff)
  then show ?thesis by (simp add: trim_by.simps [of ws s])
qed

definition printable :: "char \<Rightarrow> bool" where
  "printable c \<longleftrightarrow> (33::nat) \<le> of_char c \<and> of_char c \<le> (126::nat)"

lemma space_runes_bytes:
  "list_all (\<lambda>w. w \<noteq> [] \<and> \<not> printable (hd w) \<and> \<not> printable (last w)) space_runes"
  by (simp add: space_runes_def printable_def)

lemma TrimSpace_printable [go_strings]:
  assumes "s \<noteq> []" and "printable (hd s)" and "printable (last s)"
  shows "TrimSpace s = s"
proof -
  have runes: "\<not> printable (hd w) \<and> \<not> printable (last w)" if "w \<in> set space_runes" for w
    using space_runes_bytes that by (auto simp: list_all_iff)
  have left: "trim_by space_runes s = s"
  proof (rule trim_by_stop)
    fix w assume "w \<in> set space_runes" "w \<noteq> []"
    with runes [of w] assms(2) show "\<not> prefix w s" by (cases w) (auto simp: prefix_def)
  qed
  have "trim_by (map rev space_runes) (rev s) = rev s"
  proof (rule trim_by_stop)
    fix w assume "w \<in> set (map rev space_runes)" "w \<noteq> []"
    then obtain v where v: "v \<in> set space_runes" "w = rev v" "v \<noteq> []" by auto
    then have "\<not> printable (hd w)" using runes [of v] by (simp add: hd_rev)
    moreover have "hd (rev s) = last s" using assms(1) by (simp add: hd_rev)
    ultimately show "\<not> prefix w (rev s)"
      using assms(3) v by (cases w) (auto simp: prefix_def)
  qed
  with left show ?thesis by (simp add: TrimSpace_def)
qed

subsection \<open>Hexadecimal text\<close>

lemma hex_digit_inj: "m < 16 \<Longrightarrow> n < 16 \<Longrightarrow> hex_digit m = hex_digit n \<longleftrightarrow> m = n"
proof -
  have "distinct ''0123456789abcdef''" by simp
  then show "m < 16 \<Longrightarrow> n < 16 \<Longrightarrow> ?thesis"
    unfolding hex_digit_def by (subst nth_eq_iff_index_eq) simp_all
qed

lemma length_hex [simp]: "length (hex_EncodeToString s) = 2 * length s"
  by (induction s) (auto simp: hex_EncodeToString_def)

lemma hex_EncodeToString_inj [simp]:
  "hex_EncodeToString s = hex_EncodeToString t \<longleftrightarrow> s = t"
proof
  show "hex_EncodeToString s = hex_EncodeToString t \<Longrightarrow> s = t"
  proof (induction s arbitrary: t)
    case Nil
    then have "length (hex_EncodeToString t) = 0" by (simp add: hex_EncodeToString_def)
    then show ?case by simp
  next
    case (Cons x xs)
    then obtain y ys where t: "t = y # ys"
      by (cases t) (auto simp: hex_EncodeToString_def)
    from Cons.prems t have tl: "hex_EncodeToString xs = hex_EncodeToString ys"
      and hi: "hex_digit (of_char x div 16) = hex_digit (of_char y div 16)"
      and lo: "hex_digit (of_char x mod 16) = hex_digit (of_char y mod 16)"
      by (auto simp: hex_EncodeToString_def)
    have bx: "(of_char x :: nat) div 16 < 16" "(of_char y :: nat) div 16 < 16"
      by (simp_all add: div_less_iff_less_mult)
    from hi lo bx have "(of_char x :: nat) div 16 = of_char y div 16"
      and "(of_char x :: nat) mod 16 = of_char y mod 16"
      by (simp_all add: hex_digit_inj)
    then have "(of_char x :: nat) = of_char y" by (metis div_mult_mod_eq)
    then have "x = y" by simp
    with Cons.IH [OF tl] t show ?case by simp
  qed
qed simp

subsection \<open>Iteration order\<close>

lemma range_orderD [go_maps]:
  assumes "range_order ord" and "finite A"
  shows "distinct (ord A)" and "set (ord A) = A"
  using assms by (auto simp: range_order_def)

lemma range_order_ascending [simp, go_maps]: "range_order ascending"
  by (simp add: range_order_def)

lemma range_order_length:
  "range_order ord \<Longrightarrow> finite A \<Longrightarrow> length (ord A) = card A"
  by (metis distinct_card range_orderD)

subsection \<open>Time\<close>

text \<open>A lifetime of up to 292 years is multiplied without overflow.\<close>

lemma seconds_small:
  assumes "unat n \<le> 9223372036"
  shows "seconds n = int (unat n) * 1000000000"
proof -
  have le: "int (unat n) * 1000000000 \<le> 9223372036000000000" using assms by linarith
  then have "uint (n * 1000000000 :: uint64) = uint n * 1000000000"
    by (subst uint_mult_lem [THEN iffD1]) simp_all
  then have u: "uint (n * 1000000000 :: uint64) = int (unat n) * 1000000000" by simp
  have "sint (n * 1000000000 :: uint64) = signed_take_bit 63 (uint (n * 1000000000 :: uint64))"
    by (simp add: sint_uint)
  also have "\<dots> = uint (n * 1000000000 :: uint64)"
  proof (rule signed_take_bit_int_eq_self)
    have "- (2 ^ 63) \<le> (0::int)" by simp
    also have "0 \<le> uint (n * 1000000000 :: uint64)" by simp
    finally show "- (2 ^ 63) \<le> uint (n * 1000000000 :: uint64)" .
    show "uint (n * 1000000000 :: uint64) < 2 ^ 63" using u le by simp
  qed
  finally have "sint (n * 1000000000 :: uint64) = uint (n * 1000000000 :: uint64)" .
  with u show ?thesis by (simp add: seconds_def)
qed

end
