(* ===== verification/ApiTypes.thy ===== *)
theory ApiTypes
  imports Prelude
begin

text \<open>
  The data that crosses component boundaries: \<open>PeerNode\<close> of \<open>pkg/core/api.go\<close> and the request
  and response structs of \<open>api/client_mesh.go\<close> and \<open>api/client_admin.go\<close>. Field names are the
  source's, with a prefix for the struct because record fields are global names.
  A \<open>reply\<close> is the object a handler encodes into its response.
\<close>

record PeerNode =
  pn_ID :: string
  pn_Name :: string
  pn_LogicalTime :: uint64
  pn_LastUpdate :: gotime

type_synonym Node = PeerNode

definition NewPeerNode :: "string \<Rightarrow> string \<Rightarrow> PeerNode" where
  "NewPeerNode i n = \<lparr>pn_ID = i, pn_Name = n, pn_LogicalTime = 0, pn_LastUpdate = zero_time\<rparr>"

definition PeerNode_String :: "PeerNode \<Rightarrow> string" where
  "PeerNode_String p = pn_ID p @ ''/'' @ pn_Name p"

record RegisterNodeRequest =
  rr_Node :: Node
  rr_Token :: string
  rr_LogicalTime :: uint64
  rr_LastUpdate :: gotime

record GetRelayResponse =
  gr_ID :: string
  gr_MultiAddress :: "string list"
  gr_LastUpdate :: gotime
  gr_LogicalTime :: uint64

record NodeLoginRequest =
  nl_NodeID :: string
  nl_MeshId :: string
  nl_MeshSecret :: string

record NodeLoginResponse =
  nr_Token :: string
  nr_NodeID :: string
  nr_Expires :: int

record CreateInviteRequest =
  ci_Name :: string
  ci_LifetimeSec :: uint64
  ci_OneTime :: bool
  ci_MeshId :: string

record CreateInviteResponse =
  cr_InviteId :: string
  cr_InviteLink :: string

record InviteInfo =
  ii_InviteId :: string
  ii_InviteLink :: string
  ii_Name :: string
  ii_OneTime :: bool
  ii_Expires :: int
  ii_MeshId :: string

record AdminNode =
  an_ID :: string
  an_Name :: string
  an_MeshId :: string
  an_AddedAt :: gotime
  an_InvitedAs :: string

record RedeemInviteResponse =
  ri_MeshId :: string
  ri_MeshSecret :: string
  ri_MeshServer :: string

text \<open>
  The registration \<open>apiNodeUnregister\<close> replies with is a \<open>NodeReference\<close> of \<open>pkg/admin/server.go\<close>.
\<close>

record NodeReference =
  ref_Node :: Node
  ref_Token :: string
  ref_LastPing :: gotime

datatype reply =
    ReplyNode Node
  | ReplyRegister RegisterNodeRequest
  | ReplyReference NodeReference
  | ReplyNodes "Node list"
  | ReplyRelay GetRelayResponse
  | ReplyLogin NodeLoginResponse
  | ReplyInvite CreateInviteResponse
  | ReplyRedeem RedeemInviteResponse
  | ReplyInvites "InviteInfo list"
  | ReplyAdminNodes "AdminNode list"
  | ReplyDeleted string

section \<open>The interface of a mesh\<close>

text \<open>
  \<open>MeshServiceProvider\<close> of \<open>pkg/core/api.go\<close>, as the proxy uses it when it is created: it asks for the node and installs its two
  handlers. The last two functions say which handlers are in place.
\<close>

locale mesh_provider =
  fixes node :: "'m \<Rightarrow> Node"
    and with_handler :: "'hd \<Rightarrow> 'm \<Rightarrow> 'm"
    and with_update :: "'ud \<Rightarrow> 'm \<Rightarrow> 'm"
    and handler :: "'m \<Rightarrow> 'hd option"
    and on_update :: "'m \<Rightarrow> 'ud option"
  assumes handler_set: "handler (with_handler h m) = Some h"
    and handler_kept: "handler (with_update u m) = handler m"
    and update_set: "on_update (with_update u m) = Some u"
    and update_kept: "on_update (with_handler h m) = on_update m"
    and node_kept: "node (with_handler h m) = node m" "node (with_update u m) = node m"
begin

lemma attached:
  "handler (with_update u (with_handler h m)) = Some h" "on_update (with_update u (with_handler h m)) = Some u"
  "node (with_update u (with_handler h m)) = node m"
  by (simp_all add: handler_set handler_kept update_set node_kept)

text \<open>A second proxy on the same service replaces the first one.\<close>

lemma replaced:
  "handler (with_update u' (with_handler h' (with_update u (with_handler h m)))) = Some h'"
  "on_update (with_update u' (with_handler h' (with_update u (with_handler h m)))) = Some u'"
  by (simp_all add: attached)

end

end
