(* ===== verification/ModelRouter.thy ===== *)
theory ModelRouter
  imports ApiTypes "HOL-Library.AList" "HOL-Library.Multiset"
begin

text \<open>
  The model table of a node: \<open>pkg/proxy/modeldex/route.go\<close> and \<open>router.go\<close>.
  A \<open>ModelRoute\<close> is copied by value, but its field \<open>peers\<close> is a Go map, a reference that the copies
  share; so the router carries an explicit heap of peer maps and a route holds an index into it
  (\<open>None\<close> is the nil map). Dictionaries are association lists without repeated keys; every
  \<open>for range\<close> loop goes over \<open>ord m\<close>, an unspecified permutation of the entries of \<open>m\<close>.
  What the Ollama client (a package outside the repository) and the HTTP calls return is an
  argument of the fetch functions.
\<close>

section \<open>Configuration of providers (\<open>pkg/core/config.go\<close>)\<close>

record ModelConfig =
  mc_Model :: string
  mc_Private :: bool
  mc_Capabilities :: "string list"
  mc_Tools :: "string list"

record Provider =
  pv_ID :: string
  pv_Type :: string
  pv_BaseURL :: string
  pv_Token :: string
  pv_Private :: bool
  pv_Discovery :: string
  pv_Models :: "ModelConfig list"

section \<open>Routes\<close>

type_synonym peers = "(string \<times> Node) list"
type_synonym heap = "peers list"

record LocalRoute =
  lr_BaseURL :: string
  lr_Token :: string

record ModelProvider =
  mp_Private :: bool
  mp_Provider :: string
  mp_BaseURL :: string
  mp_Token :: string

record ModelRoute =
  mr_Name :: string
  mr_Model :: string
  mr_Capabilities :: "string list"
  mr_ContextLength :: int
  mr_Owner :: string
  mr_ModifiedAt :: gotime
  mr_providers :: "ModelProvider list"
  mr_peers :: "nat option"

text \<open>The map a reference points to; reading the nil map reads as empty.\<close>

definition peers_of :: "heap \<Rightarrow> ModelRoute \<Rightarrow> peers" where
  "peers_of h r = (case mr_peers r of None \<Rightarrow> [] | Some p \<Rightarrow> h ! p)"

definition IsLocal :: "ModelRoute \<Rightarrow> bool" where
  "IsLocal r \<longleftrightarrow> length (mr_providers r) \<noteq> 0"

definition IsPrivate :: "ModelRoute \<Rightarrow> bool" where
  "IsPrivate r \<longleftrightarrow> list_ex mp_Private (mr_providers r)"

definition GetMeshPeerRoute :: "(peers \<Rightarrow> peers) \<Rightarrow> heap \<Rightarrow> ModelRoute \<Rightarrow> Node option" where
  "GetMeshPeerRoute ord h r =
     (case ord (peers_of h r) of [] \<Rightarrow> None | (i, n) # rest \<Rightarrow> map_of (peers_of h r) i)"

definition GetLocalRoute :: "ModelRoute \<Rightarrow> LocalRoute option" where
  "GetLocalRoute r =
     (case mr_providers r of
        [] \<Rightarrow> None
      | p # ps \<Rightarrow> Some \<lparr>lr_BaseURL = mp_BaseURL p, lr_Token = mp_Token p\<rparr>)"

definition AddPeer :: "heap \<Rightarrow> ModelRoute \<Rightarrow> Node \<Rightarrow> heap \<times> ModelRoute" where
  "AddPeer h r peer =
     (let (h1, r1, p) = (case mr_peers r of
                           None \<Rightarrow> (h @ [[]], r\<lparr>mr_peers := Some (length h)\<rparr>, length h)
                         | Some p \<Rightarrow> (h, r, p))
      in (h1[p := AList.update (pn_ID peer) peer (h1 ! p)], r1))"

definition RemovePeer_route :: "heap \<Rightarrow> ModelRoute \<Rightarrow> Node \<Rightarrow> heap" where
  "RemovePeer_route h r peer =
     (case mr_peers r of None \<Rightarrow> h | Some p \<Rightarrow> h[p := AList.delete (pn_ID peer) (h ! p)])"

definition IsAvailable :: "heap \<Rightarrow> ModelRoute \<Rightarrow> bool" where
  "IsAvailable h r \<longleftrightarrow> length (peers_of h r) \<noteq> 0 \<or> length (mr_providers r) \<noteq> 0"

definition GetPeers :: "(peers \<Rightarrow> peers) \<Rightarrow> heap \<Rightarrow> ModelRoute \<Rightarrow> Node list" where
  "GetPeers ord h r = map (\<lambda>(i, n). the (map_of (peers_of h r) i)) (ord (peers_of h r))"

definition MakeRoute :: "heap \<Rightarrow> string \<Rightarrow> string \<Rightarrow> string list \<Rightarrow> heap \<times> ModelRoute" where
  "MakeRoute h name model capabilities =
     (h @ [[]],
      \<lparr>mr_Name = name, mr_Model = model, mr_Capabilities = capabilities, mr_ContextLength = 0, mr_Owner = [],
       mr_ModifiedAt = zero_time, mr_providers = [], mr_peers = Some (length h)\<rparr>)"

section \<open>The router\<close>

type_synonym routes_map = "(string \<times> ModelRoute) list"

record ModelRouter =
  rt_node :: Node
  rt_providers :: "Provider list"
  rt_MeshModels :: routes_map
  rt_heap :: heap

definition NewModelDiscovery :: "Node \<Rightarrow> Provider list \<Rightarrow> ModelRouter" where
  "NewModelDiscovery node providers =
     \<lparr>rt_node = node, rt_providers = providers, rt_MeshModels = [], rt_heap = []\<rparr>"

definition ListExportedModels :: "(routes_map \<Rightarrow> routes_map) \<Rightarrow> ModelRouter \<Rightarrow> ModelRoute list" where
  "ListExportedModels ord e =
     filter (\<lambda>model. IsLocal model \<and> \<not> IsPrivate model)
       (map (\<lambda>(name, r). the (map_of (rt_MeshModels e) name)) (ord (rt_MeshModels e)))"

definition ListMeshModels :: "(routes_map \<Rightarrow> routes_map) \<Rightarrow> ModelRouter \<Rightarrow> ModelRoute list" where
  "ListMeshModels ord e = map snd (ord (rt_MeshModels e))"

definition ListModels :: "(routes_map \<Rightarrow> routes_map) \<Rightarrow> ModelRouter \<Rightarrow> string list" where
  "ListModels ord e = map (\<lambda>(name, m). mr_Name m) (ord (rt_MeshModels e))"

definition GetModelRoute :: "ModelRouter \<Rightarrow> string \<Rightarrow> ModelRoute option" where
  "GetModelRoute e model = map_of (rt_MeshModels e) model"

text \<open>One turn of the loop of \<open>AddPeerModels\<close>. The route is looked up under the id of the node.\<close>

definition add_peer_model :: "Node \<Rightarrow> routes_map \<Rightarrow> string \<Rightarrow> ModelRouter \<Rightarrow> ModelRouter" where
  "add_peer_model node models name e =
     (let route = (case map_of (rt_MeshModels e) (pn_ID node) of
                     Some r \<Rightarrow> r
                   | None \<Rightarrow> the (map_of models name));
          (h, route') = AddPeer (rt_heap e) route node
      in e\<lparr>rt_heap := h, rt_MeshModels := AList.update name route' (rt_MeshModels e)\<rparr>)"

definition AddPeerModels :: "(routes_map \<Rightarrow> routes_map) \<Rightarrow> Node \<Rightarrow> routes_map \<Rightarrow> ModelRouter \<Rightarrow> ModelRouter" where
  "AddPeerModels ord node models e = fold (\<lambda>(name, r). add_peer_model node models name) (ord models) e"

definition RemovePeer :: "(routes_map \<Rightarrow> routes_map) \<Rightarrow> Node \<Rightarrow> ModelRouter \<Rightarrow> ModelRouter" where
  "RemovePeer ord node e =
     fold (\<lambda>(name, model) e. e\<lparr>rt_heap := RemovePeer_route (rt_heap e) model node\<rparr>) (ord (rt_MeshModels e)) e"

section \<open>Fetching the models of the configured providers\<close>

definition provider_entry :: "bool \<Rightarrow> Provider \<Rightarrow> ModelProvider" where
  "provider_entry private pv =
     \<lparr>mp_Private = private, mp_Provider = pv_Type pv, mp_BaseURL = pv_BaseURL pv, mp_Token = pv_Token pv\<rparr>"

definition whitelist_entry ::
  "gotime \<Rightarrow> Provider \<Rightarrow> ModelConfig \<Rightarrow> heap \<times> routes_map \<Rightarrow> heap \<times> routes_map" where
  "whitelist_entry now pv m st =
     (let (h, table) = st;
          (h1, route) = (case map_of table (mc_Model m) of
                           Some r \<Rightarrow> (h, r)
                         | None \<Rightarrow> MakeRoute h (mc_Model m) (mc_Model m) (mc_Capabilities m));
          route' = route\<lparr>mr_ModifiedAt := now, mr_Owner := [],
                         mr_providers := mr_providers route @ [provider_entry (mc_Private m) pv]\<rparr>
      in (h1, AList.update (mc_Model m) route' table))"

definition modelsFromWhitelist :: "gotime \<Rightarrow> Provider \<Rightarrow> heap \<Rightarrow> heap \<times> routes_map" where
  "modelsFromWhitelist now pv h = fold (whitelist_entry now pv) (pv_Models pv) (h, [])"

text \<open>What \<open>GET /api/tags\<close> and \<open>GET /api/ps\<close> report of a model.\<close>

record OllamaModel =
  om_Name :: string
  om_Model :: string
  om_ContextLength :: int
  om_Capabilities :: "string list"

definition ollama_running ::
  "gotime \<Rightarrow> Provider \<Rightarrow> OllamaModel \<Rightarrow> heap \<times> routes_map \<Rightarrow> heap \<times> routes_map" where
  "ollama_running now pv m st =
     (let (h, table) = st;
          (h1, route) = (case map_of table (om_Model m) of
                           Some r \<Rightarrow> (h, r)
                         | None \<Rightarrow> MakeRoute h (om_Model m) (om_Model m) []);
          route' = route\<lparr>mr_providers := mr_providers route @ [provider_entry (pv_Private pv) pv],
                         mr_Owner := ''ollama'', mr_ModifiedAt := now, mr_ContextLength := om_ContextLength m\<rparr>
      in (h1, AList.update (om_Model m) route' table))"

text \<open>The last loop: a model without properties is dropped, the others are completed from them.\<close>

definition ollama_complete ::
  "(string \<times> OllamaModel) list \<Rightarrow> string \<Rightarrow> routes_map \<Rightarrow> routes_map" where
  "ollama_complete properties k models =
     (case map_of properties k of
        None \<Rightarrow> AList.delete k models
      | Some p \<Rightarrow>
          (let m = the (map_of models k);
               m1 = (if mr_ContextLength m = 0 then m\<lparr>mr_ContextLength := om_ContextLength p\<rparr> else m)
           in AList.update k (m1\<lparr>mr_Capabilities := mr_Capabilities m1 @ om_Capabilities p\<rparr>) models))"

definition ollamaFetchModels ::
  "(routes_map \<Rightarrow> routes_map) \<Rightarrow> gotime \<Rightarrow> goerr option \<Rightarrow> OllamaModel list result \<Rightarrow> OllamaModel list result \<Rightarrow>
   Provider \<Rightarrow> heap \<Rightarrow> heap \<times> routes_map result" where
  "ollamaFetchModels ord now url_err tags ps pv h =
     (case url_err of
        Some e \<Rightarrow> (h, Inl e)
      | None \<Rightarrow>
          (case tags of
             Inl e \<Rightarrow> (h, Inl (GoErr (''failed to list running models: '' @ Error_string e)))
           | Inr listed \<Rightarrow>
               (let properties = fold (\<lambda>m. AList.update (om_Name m) m) listed [];
                    finish = (\<lambda>(h1, models).
                      (h1, Inr (fold (\<lambda>(k, r). ollama_complete properties k) (ord models) models)))
                in if pv_Discovery pv = ''whitelist'' then finish (modelsFromWhitelist now pv h)
                   else (case ps of
                           Inl e \<Rightarrow> (h, Inl (GoErr (''failed to list running models: '' @ Error_string e)))
                         | Inr running \<Rightarrow> finish (fold (ollama_running now pv) running (h, []))))))"

record OpenaiModel =
  oa_ID :: string
  oa_Object :: string
  oa_Created :: int
  oa_OwnedBy :: string
  oa_ContextLength :: int
  oa_LongContextThreshold :: int

record OpenaiModelList =
  ol_Object :: string
  ol_Data :: "OpenaiModel list"

definition openai_model ::
  "Provider \<Rightarrow> routes_map \<Rightarrow> OpenaiModel \<Rightarrow> heap \<times> routes_map \<Rightarrow> heap \<times> routes_map" where
  "openai_model pv whitelist m st =
     (let (h, models) = st in
      (case map_of whitelist (oa_ID m) of
         None \<Rightarrow> st
       | Some w \<Rightarrow>
           (let (h1, route) =
                  (case map_of models (oa_ID m) of
                     Some r \<Rightarrow> (h, r)
                   | None \<Rightarrow>
                       (let (h1, r) = MakeRoute h (oa_ID m) (oa_ID m) []
                        in (h1, r\<lparr>mr_ContextLength := oa_ContextLength m, mr_Capabilities := mr_Capabilities w\<rparr>)));
                route' = route\<lparr>mr_providers := mr_providers route @ [provider_entry (pv_Private pv) pv],
                               mr_Owner := oa_OwnedBy m, mr_ModifiedAt := oa_Created m * 1000000000\<rparr>
            in (h1, AList.update (oa_ID m) route' models))))"

definition openaiFetchModels ::
  "gotime \<Rightarrow> OpenaiModelList result \<Rightarrow> Provider \<Rightarrow> heap \<Rightarrow> heap \<times> routes_map result" where
  "openaiFetchModels now resp pv h =
     (let (h1, whitelist) = (if pv_Discovery pv = ''whitelist'' then modelsFromWhitelist now pv h else (h, []))
      in (case resp of
            Inl e \<Rightarrow> (h1, Inl e)
          | Inr l \<Rightarrow>
              (let (h2, models) = fold (openai_model pv whitelist) (ol_Data l) (h1, []) in (h2, Inr models))))"

definition testFetchModels :: "gotime \<Rightarrow> Provider \<Rightarrow> heap \<Rightarrow> heap \<times> routes_map result" where
  "testFetchModels now pv h = (let (h1, models) = modelsFromWhitelist now pv h in (h1, Inr models))"

text \<open>What the world answers while one provider is scanned.\<close>

record fetch_env =
  fe_now :: gotime
  fe_url :: "goerr option"
  fe_tags :: "OllamaModel list result"
  fe_ps :: "OllamaModel list result"
  fe_openai :: "OpenaiModelList result"

definition fetch ::
  "(routes_map \<Rightarrow> routes_map) \<Rightarrow> fetch_env \<Rightarrow> Provider \<Rightarrow> heap \<Rightarrow> (heap \<times> routes_map result) option" where
  "fetch ord w pv h =
     (if pv_Type pv = ''ollama'' then
        Some (ollamaFetchModels ord (fe_now w) (fe_url w) (fe_tags w) (fe_ps w) pv h)
      else if pv_Type pv = ''openai'' then Some (openaiFetchModels (fe_now w) (fe_openai w) pv h)
      else if pv_Type pv = ''test'' then Some (testFetchModels (fe_now w) pv h)
      else None)"

definition refresh_provider ::
  "(routes_map \<Rightarrow> routes_map) \<Rightarrow> (Provider \<Rightarrow> fetch_env) \<Rightarrow> Provider \<Rightarrow> ModelRouter \<Rightarrow> ModelRouter" where
  "refresh_provider ord env pv e =
     (case fetch ord (env pv) pv (rt_heap e) of
        None \<Rightarrow> e
      | Some (h, Inl err) \<Rightarrow> e\<lparr>rt_heap := h\<rparr>
      | Some (h, Inr routes) \<Rightarrow> AddPeerModels ord (rt_node e) routes (e\<lparr>rt_heap := h\<rparr>))"

definition Refresh :: "(routes_map \<Rightarrow> routes_map) \<Rightarrow> (Provider \<Rightarrow> fetch_env) \<Rightarrow> ModelRouter \<Rightarrow> ModelRouter" where
  "Refresh ord env e = fold (refresh_provider ord env) (rt_providers e) e"

end
