(* ===== verification/MapOrder.thy ===== *)
theory MapOrder
  imports Prelude "HOL-Library.AList" "HOL-Library.Multiset"
begin

text \<open>
  Dictionaries as association lists: a \<open>for range\<close> loop visits the entries of the list in the order
  \<open>ord\<close> gives them, any permutation (\<open>is_iter\<close>).
\<close>

definition is_iter :: "('a list \<Rightarrow> 'a list) \<Rightarrow> bool" where
  "is_iter ord \<longleftrightarrow> (\<forall>xs. mset (ord xs) = mset xs)"

lemma is_iter_set: "is_iter ord \<Longrightarrow> set (ord xs) = set xs"
  unfolding is_iter_def by (metis set_mset_mset)

lemma is_iter_length: "is_iter ord \<Longrightarrow> length (ord xs) = length xs"
  unfolding is_iter_def by (metis size_mset)

lemma is_iter_distinct: "is_iter ord \<Longrightarrow> distinct (map fst (ord xs)) \<longleftrightarrow> distinct (map fst xs)"
  unfolding is_iter_def by (metis mset_map distinct_count_atmost_1 set_mset_mset)

lemma is_iter_Nil [simp]: "is_iter ord \<Longrightarrow> ord xs = [] \<longleftrightarrow> xs = []"
  using is_iter_length by (metis length_0_conv)

lemma is_iter_id: "is_iter (\<lambda>xs. xs)"
  by (simp add: is_iter_def)

end
