(* ===== verification/MeshHelpers.thy ===== *)
theory MeshHelpers
  imports MapOrder NetHttp
begin

text \<open>
  \<open>pkg/mesh/helpers.go\<close>, \<open>stream_conn.go\<close> and the accessors of \<open>relay.go\<close>: addresses, keys and connections.
  The library libp2p is the record \<open>libp2p\<close> (parsing of multiaddresses and peer ids) and the record \<open>host\<close>; a peer id and
  a multiaddress are given by their printed form. \<open>log.Fatalf\<close> ends the process and is a
  \<open>GoPanic\<close>.
\<close>

section \<open>Data\<close>

record AddrInfo =
  ai_ID :: string
  ai_Addrs :: "string list"

record libp2p =
  lp_AddrInfoFromString :: "string \<Rightarrow> AddrInfo result"
  lp_Decode :: "string \<Rightarrow> string result"
  lp_NewMultiaddr :: "string \<Rightarrow> string result"
  lp_HasCircuit :: "string \<Rightarrow> bool"
  lp_Quote :: "string \<Rightarrow> string"

record conn =
  cn_RemotePeer :: string
  cn_LocalPeer :: string
  cn_RemoteMultiaddr :: string
  cn_LocalMultiaddr :: string
  cn_Direction :: string
  cn_Limited :: bool
  cn_Security :: string
  cn_Transport :: string
  cn_Streams :: "string list"

definition OllamaProtocol :: string where
  "OllamaProtocol = ''/ollama/0.0.1''"

text \<open>
  A libp2p host: its functions on a state of the network of type \<open>'h\<close>. What a dial may use is in its \<open>dial_ctx\<close>, and
  a deadline of a context that passed is an error the dial returns. Only a swarm has a dial backoff that can be
  cleared.
\<close>

record dial_ctx =
  cx_ForceDirect :: bool
  cx_AllowLimited :: bool

definition background :: dial_ctx where
  "background = \<lparr>cx_ForceDirect = False, cx_AllowLimited = False\<rparr>"

record Stream =
  st_conn :: conn
  st_protocol :: string

record 'h host =
  h_ID :: string
  h_Addrs :: "'h \<Rightarrow> string list"
  h_PeerAddrs :: "'h \<Rightarrow> string \<Rightarrow> string list"             \<comment> \<open>\<open>Peerstore().Addrs\<close>\<close>
  h_AddAddrs :: "string \<Rightarrow> string list \<Rightarrow> 'h \<Rightarrow> 'h"        \<comment> \<open>\<open>Peerstore().AddAddrs\<close>\<close>
  h_ConnsToPeer :: "'h \<Rightarrow> string \<Rightarrow> conn list"
  h_Conns :: "'h \<Rightarrow> conn list"
  h_Connect :: "dial_ctx \<Rightarrow> AddrInfo \<Rightarrow> 'h \<Rightarrow> goerr option \<times> 'h"
  h_NewStream :: "dial_ctx \<Rightarrow> string \<Rightarrow> string \<Rightarrow> 'h \<Rightarrow> Stream result \<times> 'h"
  h_Protocols :: "'h \<Rightarrow> string list"
  h_SetStreamHandler :: "string \<Rightarrow> 'h \<Rightarrow> 'h"
  h_ClearBackoff :: "(string \<Rightarrow> 'h \<Rightarrow> 'h) option"
  h_Close :: "'h \<Rightarrow> goerr option \<times> 'h"

section \<open>Stream connections\<close>

record addr =
  addr_net :: string
  addr_s :: string

definition addr_Network :: "addr \<Rightarrow> string" where
  "addr_Network a = addr_net a"

definition addr_String :: "addr \<Rightarrow> string" where
  "addr_String a = addr_s a"

definition streamConn_LocalAddr :: "conn \<Rightarrow> addr" where
  "streamConn_LocalAddr c = \<lparr>addr_net = ''libp2p'', addr_s = cn_LocalPeer c\<rparr>"

definition streamConn_RemoteAddr :: "conn \<Rightarrow> addr" where
  "streamConn_RemoteAddr c = \<lparr>addr_net = ''libp2p'', addr_s = cn_RemotePeer c\<rparr>"

section \<open>Addresses\<close>

definition CircuitAddr :: "libp2p \<Rightarrow> AddrInfo \<Rightarrow> string \<Rightarrow> string result" where
  "CircuitAddr L relayInfo dest =
     (case ai_Addrs relayInfo of
        [] \<Rightarrow> Inl (GoPanic ''index out of range'')
      | a # _ \<Rightarrow> lp_NewMultiaddr L (a @ ''/p2p/'' @ ai_ID relayInfo @ ''/p2p-circuit/p2p/'' @ dest))"

definition ParseAddrInfo :: "libp2p \<Rightarrow> string \<Rightarrow> AddrInfo result" where
  "ParseAddrInfo L s =
     (case lp_AddrInfoFromString L s of
        Inr ai \<Rightarrow> Inr ai
      | Inl err \<Rightarrow>
          (case lp_Decode L s of
             Inl idErr \<Rightarrow> Inl (GoErr (''parse '' @ lp_Quote L s @ '': '' @ Error_string err
                              @ '' (also not a peer id: '' @ Error_string idErr @ '')''))
           | Inr i \<Rightarrow> Inr \<lparr>ai_ID = i, ai_Addrs = []\<rparr>))"

definition AddDestViaRelay :: "libp2p \<Rightarrow> 'h host \<Rightarrow> AddrInfo \<Rightarrow> string \<Rightarrow> 'h \<Rightarrow> string result \<times> 'h" where
  "AddDestViaRelay L H relayInfo dest h =
     (case ParseAddrInfo L dest of
        Inl err \<Rightarrow> (Inl (GoPanic (Error_string err)), h)
      | Inr destInfo \<Rightarrow>
          if list_ex (lp_HasCircuit L) (ai_Addrs destInfo)
          then (Inr (ai_ID destInfo), h_AddAddrs H (ai_ID destInfo) (ai_Addrs destInfo) h)
          else (case CircuitAddr L relayInfo (ai_ID destInfo) of
                  Inl err \<Rightarrow> (Inl (GoPanic (Error_string err)), h)
                | Inr circ \<Rightarrow> (Inr (ai_ID destInfo), h_AddAddrs H (ai_ID destInfo) [circ] h)))"

text \<open>The lines \<open>PrintAddrs\<close> prints.\<close>

definition PrintAddrs :: "string \<Rightarrow> 'h host \<Rightarrow> 'h \<Rightarrow> string list" where
  "PrintAddrs pre H h = pre # map (\<lambda>a. ''  '' @ a @ ''/p2p/'' @ h_ID H) (h_Addrs H h)"

text \<open>A \<open>Relay\<close> of \<open>relay.go\<close> is its host; its channel \<open>done\<close> is only sent to.\<close>

record 'h Relay =
  rl_host :: "'h host"

definition NewRelayOnHost :: "'h host \<Rightarrow> 'h Relay" where
  "NewRelayOnHost H = \<lparr>rl_host = H\<rparr>"

definition Relay_ID :: "'h Relay \<Rightarrow> string" where
  "Relay_ID r = h_ID (rl_host r)"

definition GetAddresses :: "'h Relay \<Rightarrow> 'h \<Rightarrow> string list" where
  "GetAddresses r h = map (\<lambda>a. a @ ''/p2p/'' @ h_ID (rl_host r)) (h_Addrs (rl_host r) h)"

text \<open>\<open>PeerAddrInfoFromMulti\<close>: the map \<open>byID\<close>, and its entries in the order \<open>ord\<close> of the range loop.\<close>

fun by_id :: "libp2p \<Rightarrow> string list \<Rightarrow> (string \<times> string list) list \<Rightarrow> (string \<times> string list) list result" where
  "by_id L [] m = Inr m"
| "by_id L (s # ss) m =
     (case lp_AddrInfoFromString L s of
        Inl err \<Rightarrow> Inl (GoPanic (Error_string err))
      | Inr ai \<Rightarrow>
          (case map_of m (ai_ID ai) of
             Some addrs \<Rightarrow> by_id L ss (AList.update (ai_ID ai) (addrs @ ai_Addrs ai) m)
           | None \<Rightarrow> by_id L ss (AList.update (ai_ID ai) (ai_Addrs ai) m)))"

definition PeerAddrInfoFromMulti ::
  "libp2p \<Rightarrow> ((string \<times> string list) list \<Rightarrow> (string \<times> string list) list) \<Rightarrow> string list \<Rightarrow> AddrInfo list result" where
  "PeerAddrInfoFromMulti L ord addrList =
     (case by_id L addrList [] of
        Inl e \<Rightarrow> Inl e
      | Inr m \<Rightarrow> Inr (map (\<lambda>(i, addrs). \<lparr>ai_ID = i, ai_Addrs = addrs\<rparr>) (ord m)))"

text \<open>
  \<open>WaitForAddress\<close> polls the host's addresses; \<open>obs k\<close> are those seen in round \<open>k\<close>. It may never
  return.
\<close>

definition circuit_address :: "string list \<Rightarrow> string" where
  "circuit_address addrs = fold (\<lambda>a found. if suffix ''p2p-circuit'' a then a else found) addrs []"

partial_function (option) WaitForAddress :: "(nat \<Rightarrow> string list) \<Rightarrow> bool \<Rightarrow> nat \<Rightarrow> string option" where
  "WaitForAddress obs once k =
     (if circuit_address (obs k) \<noteq> [] then Some (circuit_address (obs k))
      else if once then Some []
      else WaitForAddress obs once (Suc k))"

section \<open>Keys\<close>

datatype read_result = ReadOk string | ReadNotExist | ReadFailed goerr

record 'k crypto =
  ck_Generate :: "string \<Rightarrow> 'k result"
  ck_Unmarshal :: "string \<Rightarrow> 'k result"
  ck_Marshal :: "'k \<Rightarrow> string result"
  ck_ID :: "'k \<Rightarrow> string result"

text \<open>
  \<open>file\<close> is what reading the key file gives, \<open>write\<close> the error of writing it. The result carries what
  was written.
\<close>

definition LoadOrCreateKey ::
  "'k crypto \<Rightarrow> string \<Rightarrow> read_result \<Rightarrow> (string \<Rightarrow> goerr option) \<Rightarrow> string \<Rightarrow> 'k result \<times> string option" where
  "LoadOrCreateKey C rnd key_file write path =
     (if path = [] then (ck_Generate C rnd, None)
      else (case key_file of
              ReadOk b \<Rightarrow> (ck_Unmarshal C b, None)
            | ReadFailed err \<Rightarrow> (Inl err, None)
            | ReadNotExist \<Rightarrow>
                (case ck_Generate C rnd of
                   Inl err \<Rightarrow> (Inl err, None)
                 | Inr priv \<Rightarrow>
                     (case ck_Marshal C priv of
                        Inl err \<Rightarrow> (Inl err, None)
                      | Inr b \<Rightarrow>
                          (case write b of Some err \<Rightarrow> (Inl err, None) | None \<Rightarrow> (Inr priv, Some b))))))"

definition NodeIDFromKey :: "'k crypto \<Rightarrow> 'k \<Rightarrow> string result" where
  "NodeIDFromKey C key = ck_ID C key"

section \<open>Requests and connections\<close>

definition IsSource :: "Header \<Rightarrow> bool" where
  "IsSource h \<longleftrightarrow> Header_Get ''X-Mesh'' h = ''true''"

definition ConnKind :: "libp2p \<Rightarrow> conn \<Rightarrow> string" where
  "ConnKind L c =
     (if lp_HasCircuit L (cn_RemoteMultiaddr c)
      then if cn_Limited c then ''relay/limited'' else ''relay/unlimited''
      else if cn_Limited c then ''limited'' else ''direct'')"

section \<open>Lemmas\<close>

text \<open>The addresses listed for a peer, in the order of the list.\<close>

definition listed_addrs :: "libp2p \<Rightarrow> string \<Rightarrow> string list \<Rightarrow> string list" where
  "listed_addrs L i ss =
     concat (map (\<lambda>s. case lp_AddrInfoFromString L s of Inr ai \<Rightarrow> if ai_ID ai = i then ai_Addrs ai else [] | Inl e \<Rightarrow> []) ss)"

definition listed_ids :: "libp2p \<Rightarrow> string list \<Rightarrow> string set" where
  "listed_ids L ss = {i. \<exists>s \<in> set ss. \<exists>ai. lp_AddrInfoFromString L s = Inr ai \<and> ai_ID ai = i}"

definition gathered :: "libp2p \<Rightarrow> string list \<Rightarrow> (string \<times> string list) list \<Rightarrow> string \<Rightarrow> string list option" where
  "gathered L ss m i =
     (case map_of m i of
        Some as \<Rightarrow> Some (as @ listed_addrs L i ss)
      | None \<Rightarrow> if i \<in> listed_ids L ss then Some (listed_addrs L i ss) else None)"

lemma by_id_ok:
  assumes "\<forall>s \<in> set ss. \<exists>ai. lp_AddrInfoFromString L s = Inr ai" and "distinct (map fst m)"
  shows "\<exists>m'. by_id L ss m = Inr m' \<and> distinct (map fst m') \<and> map_of m' = gathered L ss m"
  using assms
proof (induction ss arbitrary: m)
  case Nil
  then show ?case by (simp add: gathered_def fun_eq_iff listed_addrs_def listed_ids_def split: option.splits)
next
  case (Cons s ss)
  obtain ai where ai: "lp_AddrInfoFromString L s = Inr ai" using Cons.prems(1) by auto
  let ?i = "ai_ID ai"
  let ?m = "AList.update ?i ((case map_of m ?i of None \<Rightarrow> [] | Some as \<Rightarrow> as) @ ai_Addrs ai) m"
  have step: "by_id L (s # ss) m = by_id L ss ?m" using ai by (simp split: option.splits)
  have "\<forall>s \<in> set ss. \<exists>ai. lp_AddrInfoFromString L s = Inr ai" using Cons.prems(1) by simp
  then have ih: "\<exists>m'. by_id L ss ?m = Inr m' \<and> distinct (map fst m') \<and> map_of m' = gathered L ss ?m"
    using Cons.prems(2) by (intro Cons.IH distinct_update)
  have "listed_ids L (s # ss) = insert ?i (listed_ids L ss)" using ai by (auto simp: listed_ids_def)
  moreover have "listed_addrs L i (s # ss) = (if i = ?i then ai_Addrs ai else []) @ listed_addrs L i ss" for i
    using ai by (auto simp: listed_addrs_def)
  ultimately have "gathered L ss ?m = gathered L (s # ss) m"
    by (simp add: gathered_def fun_eq_iff update_conv' split: option.splits)
  then show ?case using step ih by simp
qed

lemma wait_steps:
  assumes "\<forall>j. k \<le> j \<and> j < n \<longrightarrow> circuit_address (obs j) = []" and "k \<le> n"
  shows "WaitForAddress obs False k = WaitForAddress obs False n"
  using assms(2,1)
proof (induction rule: dec_induct)
  case (step n)
  then have "circuit_address (obs n) = []" by simp
  then have "WaitForAddress obs False n = WaitForAddress obs False (Suc n)"
    by (subst WaitForAddress.simps) simp
  then show ?case using step by simp
qed simp

lemma wait_returned:
  assumes "WaitForAddress obs once k = Some a"
  shows "once \<or> (\<exists>n \<ge> k. circuit_address (obs n) = a \<and> a \<noteq> [])"
proof (rule WaitForAddress.raw_induct [OF _ assms, of "\<lambda>obs once k a. once \<or> (\<exists>n \<ge> k. circuit_address (obs n) = a \<and> a \<noteq> [])"])
  fix wait obs once k a
  assume ih: "\<And>obs once k a. wait obs once k = Some a \<Longrightarrow> once \<or> (\<exists>n \<ge> k. circuit_address (obs n) = a \<and> a \<noteq> [])"
    and eq: "(if circuit_address (obs k) \<noteq> [] then Some (circuit_address (obs k))
              else if once then Some [] else wait obs once (Suc k)) = Some a"
  show "once \<or> (\<exists>n \<ge> k. circuit_address (obs n) = a \<and> a \<noteq> [])"
  proof (cases "circuit_address (obs k) = [] \<and> \<not> once")
    case True
    then have "wait obs once (Suc k) = Some a" using eq by simp
    then obtain n where "n \<ge> Suc k" "circuit_address (obs n) = a" "a \<noteq> []" using ih True by blast
    then show ?thesis by (intro disjI2 exI [of _ n]) simp
  next
    case False
    then show ?thesis using eq by (cases once) auto
  qed
qed

lemma grouped_by_peer:
  assumes "\<forall>s \<in> set addrList. \<exists>ai. lp_AddrInfoFromString L s = Inr ai" and "is_iter ord"
  shows "\<exists>relays. PeerAddrInfoFromMulti L ord addrList = Inr relays \<and>
    distinct (map ai_ID relays) \<and> ai_ID ` set relays = listed_ids L addrList \<and>
    (\<forall>r \<in> set relays. ai_Addrs r = listed_addrs L (ai_ID r) addrList)"
proof -
  obtain m where m: "by_id L addrList [] = Inr m" "distinct (map fst m)" "map_of m = gathered L addrList []"
    using by_id_ok [OF assms(1), of "[]"] by auto
  have entry: "(i, as) \<in> set m \<longleftrightarrow> i \<in> listed_ids L addrList \<and> as = listed_addrs L i addrList" for i as
    using map_of_eq_Some_iff [OF m(2), of i as] m(3) by (auto simp: gathered_def split: if_splits)
  let ?r = "map (\<lambda>(i, addrs). \<lparr>ai_ID = i, ai_Addrs = addrs\<rparr>) (ord m)"
  have r: "\<lparr>ai_ID = i, ai_Addrs = as\<rparr> \<in> set ?r \<longleftrightarrow> (i, as) \<in> set m" for i as
    using is_iter_set [OF assms(2), of m] by force
  have rx: "(ai_ID x, ai_Addrs x) \<in> set m" if x: "x \<in> set ?r" for x
  proof -
    obtain y where "y \<in> set (ord m)" "x = \<lparr>ai_ID = fst y, ai_Addrs = snd y\<rparr>" using x by (auto simp: split_def)
    then show ?thesis unfolding is_iter_set [OF assms(2)] by simp
  qed
  have "map ai_ID ?r = map fst (ord m)" by (simp add: comp_def split_def)
  then have "distinct (map ai_ID ?r)" using is_iter_distinct [OF assms(2), of m] m(2) by (simp only:)
  moreover have "ai_Addrs x = listed_addrs L (ai_ID x) addrList" if "x \<in> set ?r" for x
    using rx [OF that] entry by simp
  moreover have "ai_ID ` set ?r = listed_ids L addrList"
  proof
    show "ai_ID ` set ?r \<subseteq> listed_ids L addrList"
    proof
      fix i assume "i \<in> ai_ID ` set ?r"
      then obtain x where x: "x \<in> set ?r" "i = ai_ID x" by blast
      then show "i \<in> listed_ids L addrList" using rx entry by simp
    qed
    show "listed_ids L addrList \<subseteq> ai_ID ` set ?r"
    proof
      fix i assume "i \<in> listed_ids L addrList"
      then have "\<lparr>ai_ID = i, ai_Addrs = listed_addrs L i addrList\<rparr> \<in> set ?r" using r entry by blast
      then show "i \<in> ai_ID ` set ?r" by (metis (no_types) AddrInfo.select_convs(1) imageI)
    qed
  qed
  ultimately show ?thesis using m(1) by (intro exI [of _ ?r]) (simp add: PeerAddrInfoFromMulti_def)
qed

section \<open>An example\<close>

definition ex_libp2p :: libp2p where
  "ex_libp2p = \<lparr>lp_AddrInfoFromString = (\<lambda>s. Inr \<lparr>ai_ID = ''r'', ai_Addrs = [s]\<rparr>), lp_Decode = Inr, lp_NewMultiaddr = Inr,
     lp_HasCircuit = (\<lambda>a. False), lp_Quote = (\<lambda>s. s)\<rparr>"

definition ex_crypto :: "string crypto" where
  "ex_crypto = \<lparr>ck_Generate = Inr, ck_Unmarshal = Inr, ck_Marshal = Inr, ck_ID = Inr\<rparr>"

section \<open>Properties\<close>

text \<open>
  The relays are the listed peers. If every address parses, \<open>PeerAddrInfoFromMulti\<close> does not panic; its result
  has one entry for each peer id that occurs in the list, in some order, with that peer's addresses
  in the order of the list.
\<close>

theorem relays_grouped_by_peer:
  assumes "\<forall>s \<in> set addrList. \<exists>ai. lp_AddrInfoFromString L s = Inr ai" and "is_iter ord"
  shows "\<exists>relays. PeerAddrInfoFromMulti L ord addrList = Inr relays \<and>
    distinct (map ai_ID relays) \<and> ai_ID ` set relays = listed_ids L addrList \<and>
    (\<forall>r \<in> set relays. ai_Addrs r = listed_addrs L (ai_ID r) addrList)"
  using assms by (rule grouped_by_peer)

theorem relays_grouped_by_peer_witness:
  "\<exists>relays. PeerAddrInfoFromMulti ex_libp2p (\<lambda>m. m) [''a'', ''b''] = Inr relays \<and> map ai_ID relays = [''r''] \<and>
     map ai_Addrs relays = [[''a'', ''b'']]"
proof -
  have "\<forall>s \<in> set [''a'', ''b'']. \<exists>ai. lp_AddrInfoFromString ex_libp2p s = Inr ai" by (simp add: ex_libp2p_def)
  moreover have "PeerAddrInfoFromMulti ex_libp2p (\<lambda>m. m) [''a'', ''b''] = Inr [\<lparr>ai_ID = ''r'', ai_Addrs = [''a'', ''b'']\<rparr>]"
    by code_simp
  ultimately show ?thesis using relays_grouped_by_peer [OF _ is_iter_id, of "[''a'', ''b'']" ex_libp2p] by simp
qed

text \<open>The scan of one round finds the last address that ends in p2p-circuit.\<close>

abbreviation circuits :: "string list \<Rightarrow> string list" where
  "circuits \<equiv> filter (suffix ''p2p-circuit'')"

lemma circuit_last: "circuit_address addrs = (if circuits addrs = [] then [] else last (circuits addrs))"
  by (induction addrs rule: rev_induct) (simp_all add: circuit_address_def)

lemma circuit_none: "circuit_address addrs = [] \<longleftrightarrow> circuits addrs = []"
proof (cases "circuits addrs = []")
  case False
  then have "last (circuits addrs) \<in> set (circuits addrs)" by (rule last_in_set)
  then have "last (circuits addrs) \<noteq> []" by (auto simp: suffix_def)
  then show ?thesis using False by (simp add: circuit_last)
qed (simp add: circuit_last)

lemma wait_first:
  assumes "k \<le> n" and "circuits (obs n) \<noteq> []"
  shows "\<exists>m \<ge> k. (\<forall>j. k \<le> j \<and> j < m \<longrightarrow> circuits (obs j) = []) \<and> circuits (obs m) \<noteq> [] \<and>
    WaitForAddress obs False k = Some (last (circuits (obs m)))"
proof -
  define m where "m = (LEAST n. k \<le> n \<and> circuits (obs n) \<noteq> [])"
  have "k \<le> m \<and> circuits (obs m) \<noteq> []" unfolding m_def by (rule LeastI [of _ n]) (use assms in blast)
  then have m: "k \<le> m" "circuits (obs m) \<noteq> []" by blast+
  have before: "\<forall>j. k \<le> j \<and> j < m \<longrightarrow> circuits (obs j) = []" unfolding m_def using not_less_Least by blast
  then have "WaitForAddress obs False k = WaitForAddress obs False m"
    using m(1) circuit_none by (intro wait_steps) simp_all
  also have "\<dots> = Some (last (circuits (obs m)))"
    using m(2) circuit_none [of "obs m"] circuit_last [of "obs m"] by (subst WaitForAddress.simps) simp
  finally show ?thesis using m before by blast
qed

text \<open>
  C39. What waiting for a circuit address yields. Asked to look once, \<open>WaitForAddress\<close> returns the last address of the
  round that ends in p2p-circuit, or the empty string. Otherwise it returns, from the first round that
  sees such addresses, the last of them; and it never returns, as on a node that is
  forced public, exactly if no round sees one, so that \<open>Connect\<close> does not start discovery.
\<close>

theorem wait_for_address_exact:
  "WaitForAddress obs True k =
     Some (if circuits (obs k) = [] then [] else last (circuits (obs k))) \<and>
   (WaitForAddress obs False k = Some a \<longleftrightarrow>
     (\<exists>n \<ge> k. (\<forall>j. k \<le> j \<and> j < n \<longrightarrow> circuits (obs j) = []) \<and>
        circuits (obs n) \<noteq> [] \<and> a = last (circuits (obs n)))) \<and>
   (WaitForAddress obs False k = None \<longleftrightarrow> (\<nexists>n. k \<le> n \<and> circuits (obs n) \<noteq> []))"
proof (intro conjI)
  show "WaitForAddress obs True k = Some (if circuits (obs k) = [] then [] else last (circuits (obs k)))"
    by (subst WaitForAddress.simps) (simp add: circuit_last)
  show "WaitForAddress obs False k = None \<longleftrightarrow> (\<nexists>n. k \<le> n \<and> circuits (obs n) \<noteq> [])"
  proof
    assume "WaitForAddress obs False k = None"
    then show "\<nexists>n. k \<le> n \<and> circuits (obs n) \<noteq> []" using wait_first [of k _ obs] by fastforce
  next
    assume "\<nexists>n. k \<le> n \<and> circuits (obs n) \<noteq> []"
    then show "WaitForAddress obs False k = None"
      using wait_returned [of obs False k] circuit_none by (cases "WaitForAddress obs False k") blast+
  qed
  show "WaitForAddress obs False k = Some a \<longleftrightarrow>
     (\<exists>n \<ge> k. (\<forall>j. k \<le> j \<and> j < n \<longrightarrow> circuits (obs j) = []) \<and>
        circuits (obs n) \<noteq> [] \<and> a = last (circuits (obs n)))"
  proof
    assume ret: "WaitForAddress obs False k = Some a"
    then obtain n where "k \<le> n" "circuits (obs n) \<noteq> []" using wait_returned [OF ret] circuit_none by blast
    from wait_first [of k n obs, OF this] show "\<exists>n \<ge> k. (\<forall>j. k \<le> j \<and> j < n \<longrightarrow> circuits (obs j) = []) \<and>
        circuits (obs n) \<noteq> [] \<and> a = last (circuits (obs n))" using ret by auto
  next
    assume "\<exists>n \<ge> k. (\<forall>j. k \<le> j \<and> j < n \<longrightarrow> circuits (obs j) = []) \<and>
        circuits (obs n) \<noteq> [] \<and> a = last (circuits (obs n))"
    then obtain n where n: "k \<le> n" "\<forall>j. k \<le> j \<and> j < n \<longrightarrow> circuits (obs j) = []" "circuits (obs n) \<noteq> []"
      "a = last (circuits (obs n))" by blast
    from wait_first [of k n obs, OF n(1,3)] obtain m where m: "k \<le> m" "\<forall>j. k \<le> j \<and> j < m \<longrightarrow> circuits (obs j) = []"
      "circuits (obs m) \<noteq> []" "WaitForAddress obs False k = Some (last (circuits (obs m)))" by blast
    have "m = n" using n m by (metis linorder_neqE_nat)
    then show "WaitForAddress obs False k = Some a" using m(4) n(4) by simp
  qed
qed

theorem wait_for_address_exact_witness:
  "WaitForAddress (\<lambda>n. if n < 2 then [''/ip4/10.0.0.1''] else [''/p2p/r/p2p-circuit'', ''/p2p/q/p2p-circuit'', ''/ip4/10.0.0.1'']) False 0 =
     Some ''/p2p/q/p2p-circuit''"
proof -
  let ?obs = "\<lambda>n :: nat. if n < 2 then [''/ip4/10.0.0.1''] else [''/p2p/r/p2p-circuit'', ''/p2p/q/p2p-circuit'', ''/ip4/10.0.0.1'']"
  have "circuits [''/ip4/10.0.0.1''] = []"
    "circuits [''/p2p/r/p2p-circuit'', ''/p2p/q/p2p-circuit'', ''/ip4/10.0.0.1''] = [''/p2p/r/p2p-circuit'', ''/p2p/q/p2p-circuit'']"
    by code_simp+
  then have "\<exists>n \<ge> 0. (\<forall>j. 0 \<le> j \<and> j < n \<longrightarrow> circuits (?obs j) = []) \<and>
      circuits (?obs n) \<noteq> [] \<and> ''/p2p/q/p2p-circuit'' = last (circuits (?obs n))"
    by (intro exI [of _ 2]) simp
  then show ?thesis using wait_for_address_exact [of ?obs 0 "''/p2p/q/p2p-circuit''"] by blast
qed

text \<open>
  A node keeps its identity. When the first start creates the key file, a later start that reads the
  file gets the same key, hence the same node id, and leaves the file alone.
\<close>

theorem node_identity_stable:
  assumes "LoadOrCreateKey C rnd ReadNotExist write path = (Inr key, Some b)"
    and "\<forall>k d. ck_Marshal C k = Inr d \<longrightarrow> ck_Unmarshal C d = Inr k"
  shows "LoadOrCreateKey C rnd' (ReadOk b) write' path = (Inr key, None)"
  using assms by (auto simp: LoadOrCreateKey_def split: if_splits sum.splits option.splits)

theorem node_identity_stable_witness:
  "LoadOrCreateKey ex_crypto ''x'' ReadNotExist (\<lambda>b. None) ''node.key'' = (Inr ''x'', Some ''x'') \<and>
   LoadOrCreateKey ex_crypto ''y'' (ReadOk ''x'') (\<lambda>b. None) ''node.key'' = (Inr ''x'', None)"
proof -
  have "LoadOrCreateKey ex_crypto ''x'' ReadNotExist (\<lambda>b. None) ''node.key'' = (Inr ''x'', Some ''x'')"
    by (simp add: LoadOrCreateKey_def ex_crypto_def)
  moreover have "\<forall>k d. ck_Marshal ex_crypto k = Inr d \<longrightarrow> ck_Unmarshal ex_crypto d = Inr k" by (simp add: ex_crypto_def)
  ultimately show ?thesis
    using node_identity_stable [of ex_crypto "''x''" "\<lambda>b. None" "''node.key''" "''x''" "''x''" "''y''" "\<lambda>b. None"] by blast
qed

end
