(* ===== verification/JsonKV.thy ===== *)
theory JsonKV
  imports Prelude
begin

text \<open>
  The key/value store of \<open>pkg/jsonkv/store.go\<close>.
  Badger is not part of the repository: a value of the record \<open>badger\<close> stands for it and is an
  argument of every operation of the store. \<open>badger_ok\<close> names what the store relies on (a read
  returns what was written, an iterator yields the keys in ascending byte order). Every
  badger call may also fail with an error, which the store hands on.
  \<open>encoding/json\<close> works by reflection on the type of the argument \<open>v any\<close>; a \<open>codec\<close> is
  \<open>Marshal\<close> and \<open>Unmarshal\<close> at one such type.
  The lemmas relate each operation to the finite map \<open>kvmap\<close> the store holds, show that
  \<open>ForEach\<close>, which seeks and then stops at the first key without the prefix, visits exactly
  the keys with the prefix, and give the contract \<open>kv_contract\<close> the clients of the store use.
\<close>

section \<open>Badger and the JSON codec\<close>

record ('db, 'd) badger =
  db_items :: "'db \<Rightarrow> (string \<times> 'd) list"
  txn_Get :: "'db \<Rightarrow> string \<Rightarrow> 'd result"
  txn_Set :: "'db \<Rightarrow> string \<Rightarrow> 'd \<Rightarrow> 'db result"
  txn_Delete :: "'db \<Rightarrow> string \<Rightarrow> 'db result"

definition badger_ok :: "('db, 'd) badger \<Rightarrow> bool" where
  "badger_ok B \<longleftrightarrow>
     (\<forall>db. sorted_wrt (<) (map fst (db_items B db))) \<and>
     (\<forall>db k d. txn_Get B db k = Inr d \<longrightarrow> map_of (db_items B db) k = Some d) \<and>
     (\<forall>db k. txn_Get B db k = Inl ErrKeyNotFound \<longrightarrow> map_of (db_items B db) k = None) \<and>
     (\<forall>db k d db'. txn_Set B db k d = Inr db' \<longrightarrow>
        map_of (db_items B db') = (map_of (db_items B db))(k \<mapsto> d)) \<and>
     (\<forall>db k db'. txn_Delete B db k = Inr db' \<longrightarrow>
        map_of (db_items B db') = (map_of (db_items B db))(k := None))"

record ('d, 'v) codec =
  Marshal :: "'v \<Rightarrow> 'd result"
  Unmarshal :: "'d \<Rightarrow> 'v result"

text \<open>What \<open>Marshal\<close> writes, \<open>Unmarshal\<close> reads; a value is faithful when it comes back unchanged.\<close>

definition codec_ok :: "('d, 'v) codec \<Rightarrow> bool" where
  "codec_ok c \<longleftrightarrow> (\<forall>v d. Marshal c v = Inr d \<longrightarrow> (\<exists>v'. Unmarshal c d = Inr v'))"

definition codec_faithful :: "('d, 'v) codec \<Rightarrow> 'v \<Rightarrow> bool" where
  "codec_faithful c v \<longleftrightarrow> (\<exists>d. Marshal c v = Inr d \<and> Unmarshal c d = Inr v)"

section \<open>The store\<close>

record 'db Store =
  store_db :: "'db option"

definition Open :: "'db result \<Rightarrow> 'db Store result" where
  "Open r = (case r of Inl e \<Rightarrow> Inl e | Inr db \<Rightarrow> Inr \<lparr>store_db = Some db\<rparr>)"

abbreviation nil_db :: goerr where
  "nil_db \<equiv> GoPanic ''nil pointer: badger.DB''"

definition Store_Get :: "('db, 'd) badger \<Rightarrow> ('d, 'v) codec \<Rightarrow> 'db Store \<Rightarrow> string \<Rightarrow> 'v result" where
  "Store_Get B c s key =
     (case store_db s of
        None \<Rightarrow> Inl nil_db
      | Some db \<Rightarrow>
          (case txn_Get B db key of
             Inl e \<Rightarrow> Inl e
           | Inr val \<Rightarrow> Unmarshal c val))"

definition Store_Put ::
  "('db, 'd) badger \<Rightarrow> ('d, 'v) codec \<Rightarrow> 'db Store \<Rightarrow> string \<Rightarrow> 'v \<Rightarrow> 'db Store result" where
  "Store_Put B c s key v =
     (case Marshal c v of
        Inl e \<Rightarrow> Inl e
      | Inr data \<Rightarrow>
          (case store_db s of
             None \<Rightarrow> Inl nil_db
           | Some db \<Rightarrow>
               (case txn_Set B db key data of
                  Inl e \<Rightarrow> Inl e
                | Inr db' \<Rightarrow> Inr (s\<lparr>store_db := Some db'\<rparr>))))"

definition Store_Delete :: "('db, 'd) badger \<Rightarrow> 'db Store \<Rightarrow> string \<Rightarrow> 'db Store result" where
  "Store_Delete B s key =
     (case store_db s of
        None \<Rightarrow> Inl nil_db
      | Some db \<Rightarrow>
          (case txn_Delete B db key of
             Inl e \<Rightarrow> Inl e
           | Inr db' \<Rightarrow> Inr (s\<lparr>store_db := Some db'\<rparr>)))"

text \<open>
  \<open>it.Seek(p); it.ValidForPrefix(p); it.Next()\<close>: the iterator starts at the first key that
  is not below the prefix and stops at the first key without it. The callback threads the
  variables it captures through the loop and stops it with an error.
\<close>

definition Seek :: "string \<Rightarrow> (string \<times> 'd) list \<Rightarrow> (string \<times> 'd) list" where
  "Seek p items = dropWhile (\<lambda>(k, d). k < p) items"

fun iterate ::
  "(string \<Rightarrow> 'd \<Rightarrow> 'a \<Rightarrow> 'a result) \<Rightarrow> string \<Rightarrow> (string \<times> 'd) list \<Rightarrow> 'a \<Rightarrow> 'a result" where
  "iterate fn p [] a = Inr a"
| "iterate fn p ((k, d) # rest) a =
     (if prefix p k
      then (case fn k d a of Inl e \<Rightarrow> Inl e | Inr a' \<Rightarrow> iterate fn p rest a')
      else Inr a)"

definition Store_ForEach ::
  "('db, 'd) badger \<Rightarrow> 'db Store \<Rightarrow> string \<Rightarrow> (string \<Rightarrow> 'd \<Rightarrow> 'a \<Rightarrow> 'a result) \<Rightarrow> 'a \<Rightarrow> 'a result" where
  "Store_ForEach B s p fn a =
     (case store_db s of
        None \<Rightarrow> Inl nil_db
      | Some db \<Rightarrow> iterate fn p (Seek p (db_items B db)) a)"

definition Store_Close :: "('db \<Rightarrow> goerr option) \<Rightarrow> 'db Store \<Rightarrow> goerr option \<times> 'db Store" where
  "Store_Close db_Close s =
     (case store_db s of
        None \<Rightarrow> (None, s)
      | Some db \<Rightarrow> (db_Close db, s\<lparr>store_db := None\<rparr>))"

section \<open>The map a store holds\<close>

definition kvmap :: "('db, 'd) badger \<Rightarrow> 'db Store \<Rightarrow> (string \<rightharpoonup> 'd)" where
  "kvmap B s = (case store_db s of None \<Rightarrow> Map.empty | Some db \<Rightarrow> map_of (db_items B db))"

definition kvitems :: "('db, 'd) badger \<Rightarrow> 'db Store \<Rightarrow> (string \<times> 'd) list" where
  "kvitems B s = (case store_db s of None \<Rightarrow> [] | Some db \<Rightarrow> db_items B db)"

text \<open>A loop over items that a callback may stop with an error.\<close>

fun fold_items :: "(string \<Rightarrow> 'd \<Rightarrow> 'a \<Rightarrow> 'a result) \<Rightarrow> (string \<times> 'd) list \<Rightarrow> 'a \<Rightarrow> 'a result" where
  "fold_items fn [] a = Inr a"
| "fold_items fn ((k, d) # rest) a =
     (case fn k d a of Inl e \<Rightarrow> Inl e | Inr a' \<Rightarrow> fold_items fn rest a')"

abbreviation with_prefix :: "string \<Rightarrow> (string \<times> 'd) list \<Rightarrow> (string \<times> 'd) list" where
  "with_prefix p \<equiv> filter (\<lambda>(k, d). prefix p k)"

section \<open>Lemmas\<close>

subsection \<open>Keys with a common prefix are contiguous in byte order\<close>

lemma prefix_le: "prefix p (k::string) \<Longrightarrow> p \<le> k"
proof (induction p arbitrary: k)
  case (Cons x xs)
  then show ?case by (cases k) auto
qed simp

lemma prefix_interval:
  assumes "p \<le> k" and "\<not> prefix p k" and "k < (k'::string)"
  shows "\<not> prefix p k'"
  using assms
proof (induction p arbitrary: k k')
  case (Cons x xs)
  from Cons.prems obtain y ys where k: "k = y # ys" by (cases k) auto
  from Cons.prems k obtain z zs where k': "k' = z # zs" by (cases k') auto
  from Cons.prems k k' show ?case
    by (cases "x = y") (auto dest: Cons.IH)
qed simp

lemma iterate_takeWhile:
  "iterate fn p items a = fold_items fn (takeWhile (\<lambda>(k, d). prefix p k) items) a"
  by (induction fn p items a rule: iterate.induct) (auto split: sum.splits)

lemma takeWhile_prefix:
  assumes "sorted_wrt (<) (map fst items)" and "\<forall>(k, d) \<in> set items. p \<le> k"
  shows "takeWhile (\<lambda>(k, d). prefix p k) items = with_prefix p items"
  using assms
proof (induction items)
  case (Cons kd items)
  obtain k d where kd: "kd = (k, d)" by (cases kd)
  show ?case
  proof (cases "prefix p k")
    case True
    with Cons kd show ?thesis by auto
  next
    case False
    have "\<not> prefix p (fst x)" if "x \<in> set items" for x
    proof (rule prefix_interval)
      show "p \<le> k" and "\<not> prefix p k" using Cons.prems kd False by auto
      show "k < fst x" using that Cons.prems kd by auto
    qed
    then have "with_prefix p items = []" by (auto simp: filter_empty_conv)
    with False kd show ?thesis by simp
  qed
qed simp

lemma Seek_prefix:
  assumes "sorted_wrt (<) (map fst items)"
  shows "takeWhile (\<lambda>(k, d). prefix p k) (Seek p items) = with_prefix p items"
  using assms
proof (induction items)
  case (Cons kd items)
  obtain k d where kd: "kd = (k, d)" by (cases kd)
  show ?case
  proof (cases "k < p")
    case True
    then have "\<not> prefix p k" using prefix_le leD by blast
    with Cons True kd show ?thesis by (simp add: Seek_def)
  next
    case False
    have "\<forall>(k', d') \<in> set (kd # items). p \<le> k'" using False Cons.prems kd by force
    with Cons.prems have "takeWhile (\<lambda>(k, d). prefix p k) (kd # items) = with_prefix p (kd # items)"
      by (rule takeWhile_prefix)
    with False kd show ?thesis by (simp add: Seek_def)
  qed
qed (simp add: Seek_def)

lemma kvmap_items: "kvmap B s = map_of (kvitems B s)"
  by (simp add: kvmap_def kvitems_def split: option.splits)

lemma finite_kvmap [simp]: "finite (dom (kvmap B s))"
  by (simp add: kvmap_items finite_dom_map_of)

subsection \<open>What a correct backend gives\<close>

lemma items_sorted: "badger_ok B \<Longrightarrow> sorted_wrt (<) (map fst (kvitems B s))"
  by (simp add: badger_ok_def kvitems_def split: option.splits)

lemma items_distinct: "badger_ok B \<Longrightarrow> distinct (map fst (kvitems B s))"
  using items_sorted [of B s] by (simp add: strict_sorted_iff)

lemma items_map: "badger_ok B \<Longrightarrow> (k, d) \<in> set (kvitems B s) \<longleftrightarrow> kvmap B s k = Some d"
  using items_distinct [of B s] by (simp add: kvmap_items)

lemma Get_SomeD:
  assumes "badger_ok B" and "Store_Get B c s key = Inr v"
  shows "\<exists>d. kvmap B s key = Some d \<and> Unmarshal c d = Inr v"
  using assms
  by (auto simp: Store_Get_def kvmap_def badger_ok_def split: option.splits sum.splits)

lemma Get_not_found:
  assumes "badger_ok B" and "Store_Get B c s key = Inl ErrKeyNotFound"
    and "\<And>d. Unmarshal c d \<noteq> Inl ErrKeyNotFound"
  shows "kvmap B s key = None"
  using assms
  by (auto simp: Store_Get_def kvmap_def badger_ok_def split: option.splits sum.splits)

lemma Put_kvmap:
  assumes "badger_ok B" and "Store_Put B c s key v = Inr s'"
  shows "\<exists>d. Marshal c v = Inr d \<and> kvmap B s' = (kvmap B s)(key \<mapsto> d)"
  using assms
  by (auto simp: Store_Put_def kvmap_def badger_ok_def split: option.splits sum.splits)

lemma Delete_kvmap:
  assumes "badger_ok B" and "Store_Delete B s key = Inr s'"
  shows "kvmap B s' = (kvmap B s)(key := None)"
  using assms
  by (auto simp: Store_Delete_def kvmap_def badger_ok_def split: option.splits sum.splits)

lemma ForEach_items:
  assumes "badger_ok B" and "store_db s \<noteq> None"
  shows "Store_ForEach B s p fn a = fold_items fn (with_prefix p (kvitems B s)) a"
  using assms items_sorted [of B s]
  by (auto simp: Store_ForEach_def kvitems_def iterate_takeWhile Seek_prefix)

subsection \<open>The contract of the store\<close>

text \<open>
  What the clients of the store rely on: the operations act on a map from keys to documents. The
  laws hold for a \<open>good\<close> backend only.
\<close>

locale kv_contract =
  fixes good :: "'b \<Rightarrow> bool"
    and lookup :: "'b \<Rightarrow> 's \<Rightarrow> (string \<rightharpoonup> 'd)"
    and get :: "'b \<Rightarrow> ('d, 'v) codec \<Rightarrow> 's \<Rightarrow> string \<Rightarrow> 'v result"
    and put :: "'b \<Rightarrow> ('d, 'v) codec \<Rightarrow> 's \<Rightarrow> string \<Rightarrow> 'v \<Rightarrow> 's result"
    and delete :: "'b \<Rightarrow> 's \<Rightarrow> string \<Rightarrow> 's result"
  assumes get_law: "good b \<Longrightarrow> get b c s k = Inr v \<Longrightarrow> \<exists>d. lookup b s k = Some d \<and> Unmarshal c d = Inr v"
    and put_law: "good b \<Longrightarrow> put b c s k v = Inr s' \<Longrightarrow>
          \<exists>d. Marshal c v = Inr d \<and> lookup b s' = (lookup b s)(k \<mapsto> d)"
    and delete_law: "good b \<Longrightarrow> delete b s k = Inr s' \<Longrightarrow> lookup b s' = (lookup b s)(k := None)"
begin

lemma get_missing:
  assumes "good b" and "lookup b s k = None"
  shows "\<exists>e. get b c s k = Inl e"
  using assms get_law [of b c s k] by (cases "get b c s k") auto

lemma get_after_put:
  assumes "good b" and "put b c s k v = Inr s'" and "codec_faithful c v" and "get b c s' k = Inr w"
  shows "w = v"
  using get_law [OF assms(1,4)] put_law [OF assms(1,2)] assms(3) by (auto simp: codec_faithful_def)

lemma get_after_delete:
  assumes "good b" and "delete b s k = Inr s'"
  shows "\<exists>e. get b c s' k = Inl e"
  using get_missing [of b s' k] delete_law assms by simp

lemma put_frame:
  assumes "good b" and "put b c s k v = Inr s'" and "k' \<noteq> k"
  shows "lookup b s' k' = lookup b s k'"
  using put_law [OF assms(1,2)] assms(3) by auto

lemma delete_shrinks:
  assumes "good b" and "delete b s k = Inr s'"
  shows "dom (lookup b s') = dom (lookup b s) - {k}"
  using delete_law [OF assms] by auto

end

interpretation kv: kv_contract badger_ok kvmap Store_Get Store_Put Store_Delete
  by unfold_locales (rule Get_SomeD Put_kvmap Delete_kvmap; assumption)+

lemma Put_open: "Store_Put B c s key v = Inr s' \<Longrightarrow> store_db s \<noteq> None \<and> store_db s' \<noteq> None"
  by (auto simp: Store_Put_def split: option.splits sum.splits)

lemma Delete_open: "Store_Delete B s key = Inr s' \<Longrightarrow> store_db s \<noteq> None \<and> store_db s' \<noteq> None"
  by (auto simp: Store_Delete_def split: option.splits sum.splits)

lemma ForEach_open: "Store_ForEach B s p fn a = Inr r \<Longrightarrow> store_db s \<noteq> None"
  by (auto simp: Store_ForEach_def split: option.splits)

section \<open>An in-memory backend\<close>

text \<open>
  A backend that keeps its items in a sorted association list and never fails. It satisfies
  \<open>badger_ok\<close>, so theorems about every backend can be applied to it on concrete data.
\<close>

fun mem_set :: "string \<Rightarrow> 'd \<Rightarrow> (string \<times> 'd) list \<Rightarrow> (string \<times> 'd) list" where
  "mem_set k d [] = [(k, d)]"
| "mem_set k d ((k', d') # rest) =
     (if k < k' then (k, d) # (k', d') # rest
      else if k = k' then (k, d) # rest
      else (k', d') # mem_set k d rest)"

definition mem_sorted :: "(string \<times> 'd) list \<Rightarrow> (string \<times> 'd) list" where
  "mem_sorted db = foldr (\<lambda>(k, d). mem_set k d) db []"

definition mem_badger :: "((string \<times> 'd) list, 'd) badger" where
  "mem_badger =
     \<lparr>db_items = mem_sorted,
      txn_Get = (\<lambda>db k. case map_of db k of None \<Rightarrow> Inl ErrKeyNotFound | Some d \<Rightarrow> Inr d),
      txn_Set = (\<lambda>db k d. Inr ((k, d) # db)),
      txn_Delete = (\<lambda>db k. Inr (filter (\<lambda>(k', d). k' \<noteq> k) db))\<rparr>"

lemma mem_set_keys: "fst ` set (mem_set k d db) = insert k (fst ` set db)"
proof (induction db)
  case (Cons kd db)
  then show ?case by (cases kd) (simp add: insert_commute)
qed simp

lemma mem_set_sorted:
  "sorted_wrt (<) (map fst db) \<Longrightarrow> sorted_wrt (<) (map fst (mem_set k d db))"
proof (induction db)
  case (Cons kd db)
  obtain k' d' where kd: "kd = (k', d')" by (cases kd)
  have "\<forall>x \<in> fst ` set (mem_set k d db). k' < x" if "k' < k"
    using that Cons.prems kd by (simp add: mem_set_keys)
  with Cons kd show ?case by auto
qed simp

lemma mem_set_map_of:
  "sorted_wrt (<) (map fst db) \<Longrightarrow> map_of (mem_set k d db) = (map_of db)(k \<mapsto> d)"
  by (induction db) (auto simp: fun_eq_iff)

lemma mem_sorted_sorted: "sorted_wrt (<) (map fst (mem_sorted db))"
  by (induction db) (auto simp: mem_sorted_def mem_set_sorted)

lemma mem_sorted_Cons: "mem_sorted ((k, d) # db) = mem_set k d (mem_sorted db)"
  by (simp add: mem_sorted_def)

lemma mem_sorted_map_of: "map_of (mem_sorted db) = map_of db"
proof (induction db)
  case (Cons kd db)
  then show ?case
    by (cases kd) (simp add: mem_sorted_Cons mem_set_map_of mem_sorted_sorted)
qed (simp add: mem_sorted_def)

lemma map_of_filter_key: "map_of (filter (\<lambda>(k', d). k' \<noteq> k) db) = (map_of db)(k := None)"
  by (induction db) (auto simp: fun_eq_iff)

lemma mem_badger_ok: "badger_ok mem_badger"
  by (simp add: badger_ok_def mem_badger_def mem_sorted_sorted mem_sorted_map_of
      map_of_filter_key split: option.splits)

end
