(* ===== verification/JsonPaths.thy ===== *)
theory JsonPaths
  imports MapOrder
begin

text \<open>
  The path templates of the JSON client: \<open>pkg/jsonclient/utilities.go\<close>. A value \<open>v\<close> stands for the
  text \<open>fmt.Sprintf("%v", v)\<close> gives for it. Both functions are compared with a template in the
  usual sense, a list of literal pieces and named places (\<open>piece\<close>).
\<close>

section \<open>Templates with positional values\<close>

text \<open>The inner loop of \<open>makePath\<close>: the last opening brace before the first closing brace that follows one.\<close>

fun scan_braces :: "nat \<Rightarrow> nat option \<Rightarrow> string \<Rightarrow> (nat \<times> nat) option" where
  "scan_braces i start [] = None"
| "scan_braces i start (c # cs) =
     (if c = CHR ''{'' then scan_braces (Suc i) (Some i) cs
      else if c = CHR ''}'' \<and> start \<noteq> None then Some (the start, i)
      else scan_braces (Suc i) start cs)"

fun makePath_loop :: "nat \<Rightarrow> nat \<Rightarrow> string \<Rightarrow> string list \<Rightarrow> string result" where
  "makePath_loop len_v paramIndex result vs =
     (case scan_braces 0 None result of
        None \<Rightarrow> Inr result
      | Some (start, end') \<Rightarrow>
          (case vs of
             [] \<Rightarrow> Inl (GoErr (''not enough parameters: found '' @ itoa (int paramIndex + 1) @
                       '' parameter(s) in path but only '' @ itoa (int len_v) @ '' value(s) provided''))
           | v # vs' \<Rightarrow>
               makePath_loop len_v (Suc paramIndex) (take start result @ v @ drop (Suc end') result) vs'))"

declare makePath_loop.simps [simp del]

definition makePath :: "string \<Rightarrow> string list \<Rightarrow> string result" where
  "makePath path vs = makePath_loop (length vs) 0 path vs"

definition MakePath :: "string \<Rightarrow> string list \<Rightarrow> string result" where
  "MakePath path vs =
     (case makePath path vs of
        Inl e \<Rightarrow> Inl (GoPanic (''Path: '' @ '' Err:'' @ Error_string e))
      | Inr p \<Rightarrow> Inr p)"

section \<open>Templates with named values\<close>

text \<open>The submatches of the regular expression: a brace, at least one byte that is no closing brace, a closing brace.\<close>

function mustaches :: "string \<Rightarrow> string list" where
  "mustaches [] = []"
| "mustaches (c # cs) =
     (let k = takeWhile (\<lambda>x. x \<noteq> CHR ''}'') cs; rest = dropWhile (\<lambda>x. x \<noteq> CHR ''}'') cs in
      if c = CHR ''{'' \<and> k \<noteq> [] \<and> rest \<noteq> [] then k # mustaches (tl rest) else mustaches cs)"
  by pat_completeness auto
termination
proof (relation "measure length")
  fix c :: char and cs k rest :: string
  assume "rest = dropWhile (\<lambda>x. x \<noteq> CHR ''}'') cs" and "c = CHR ''{'' \<and> k \<noteq> [] \<and> rest \<noteq> []"
  then have "length rest \<le> length cs" by (simp add: length_dropWhile_le)
  then show "(tl rest, c # cs) \<in> measure length" by simp
qed simp_all

definition ExtractMustaches :: "string \<Rightarrow> (string \<times> bool) list" where
  "ExtractMustaches s =
     fold (\<lambda>match m. let key = TrimSpace match in if key \<noteq> [] then AList.update key False m else m) (mustaches s) []"

text \<open>\<open>strings.ReplaceAll\<close> for a nonempty pattern.\<close>

function ReplaceAll :: "string \<Rightarrow> string \<Rightarrow> string \<Rightarrow> string" where
  "ReplaceAll [] old new = []"
| "ReplaceAll (c # cs) old new =
     (if old \<noteq> [] \<and> prefix old (c # cs) then new @ ReplaceAll (drop (length old) (c # cs)) old new
      else c # ReplaceAll cs old new)"
  by pat_completeness auto
termination
  by (relation "measure (\<lambda>(s, old, new). length s)") (auto intro!: diff_less)

text \<open>
  One turn of the loop over the keys: the remaining keys, the remaining values and the result. The
  map of values is the caller's, which sees the deletions.
\<close>

definition fill_key :: "string \<Rightarrow> (string \<times> bool) list \<times> (string \<times> string) list \<times> string \<Rightarrow>
    (string \<times> bool) list \<times> (string \<times> string) list \<times> string" where
  "fill_key key st =
     (let (keys, kv, result) = st in
      (case map_of kv key of
         None \<Rightarrow> st
       | Some v \<Rightarrow> (AList.delete key keys, AList.delete key kv, ReplaceAll result (''{'' @ key @ ''}'') v)))"

text \<open>The path, the error if there is one, and what is left of the caller's map.\<close>

definition makePathKV ::
  "((string \<times> bool) list \<Rightarrow> (string \<times> bool) list) \<Rightarrow> string \<Rightarrow> (string \<times> string) list \<Rightarrow>
   string \<times> goerr option \<times> (string \<times> string) list" where
  "makePathKV ord path kv =
     (let keys0 = ExtractMustaches path;
          (keys, kv', result) = fold (\<lambda>(key, b). fill_key key) (ord keys0) (keys0, kv, path)
      in (result,
          (if length keys > 0 then Some (GoErr ''kv did not provide all required parameters'')
           else if length kv' > 0 then Some (GoErr ''path did not consume all keys parameters'')
           else None), kv'))"

definition MakePathKV ::
  "((string \<times> bool) list \<Rightarrow> (string \<times> bool) list) \<Rightarrow> string \<Rightarrow> (string \<times> string) list \<Rightarrow> string result" where
  "MakePathKV ord path kv =
     (case makePathKV ord path kv of
        (result, None, kv') \<Rightarrow> Inr result
      | (result, Some e, kv') \<Rightarrow> Inl (GoPanic (''Path: '' @ path @ '' Err:'' @ Error_string e)))"

section \<open>Templates\<close>

datatype piece = Lit string | Par string

fun render :: "piece list \<Rightarrow> string" where
  "render [] = []"
| "render (Lit s # ps) = s @ render ps"
| "render (Par k # ps) = ''{'' @ k @ ''}'' @ render ps"

fun names :: "piece list \<Rightarrow> string list" where
  "names [] = []"
| "names (Lit s # ps) = names ps"
| "names (Par k # ps) = k # names ps"

text \<open>The values in the order of the places; values beyond the last place are not used.\<close>

fun fill :: "piece list \<Rightarrow> string list \<Rightarrow> string" where
  "fill [] vs = []"
| "fill (Lit s # ps) vs = s @ fill ps vs"
| "fill (Par k # ps) [] = []"
| "fill (Par k # ps) (v # vs) = v @ fill ps vs"

fun subst :: "(string \<rightharpoonup> string) \<Rightarrow> piece list \<Rightarrow> piece list" where
  "subst m [] = []"
| "subst m (Lit s # ps) = Lit s # subst m ps"
| "subst m (Par k # ps) = (case m k of None \<Rightarrow> Par k | Some v \<Rightarrow> Lit v) # subst m ps"

definition brace_free :: "string \<Rightarrow> bool" where
  "brace_free s \<longleftrightarrow> CHR ''{'' \<notin> set s \<and> CHR ''}'' \<notin> set s"

fun piece_text :: "piece \<Rightarrow> string" where
  "piece_text (Lit s) = s"
| "piece_text (Par k) = k"

definition plain :: "piece list \<Rightarrow> bool" where
  "plain ps \<longleftrightarrow> list_all (brace_free \<circ> piece_text) ps"

lemma plain_Cons [simp]: "plain (p # ps) \<longleftrightarrow> brace_free (piece_text p) \<and> plain ps"
  by (simp add: plain_def)

lemma plain_Nil [simp]: "plain []"
  by (simp add: plain_def)

lemma brace_free_simps [simp]:
  "brace_free []" "brace_free (c # s) \<longleftrightarrow> c \<noteq> CHR ''{'' \<and> c \<noteq> CHR ''}'' \<and> brace_free s"
  "brace_free (s @ t) \<longleftrightarrow> brace_free s \<and> brace_free t"
  by (auto simp: brace_free_def)

section \<open>Positional values\<close>

lemma scan_lit: "brace_free s \<Longrightarrow> scan_braces i None (s @ r) = scan_braces (i + length s) None r"
  by (induction s arbitrary: i) auto

lemma scan_name: "brace_free k \<Longrightarrow> scan_braces i (Some j) (k @ CHR ''}'' # r) = Some (j, i + length k)"
  by (induction k arbitrary: i) auto

lemma makePath_loop_template:
  assumes "plain ps" and "brace_free acc" and "list_all brace_free vs"
  shows "makePath_loop n i (acc @ render ps) vs =
    (if length (names ps) \<le> length vs then Inr (acc @ fill ps vs)
     else Inl (GoErr (''not enough parameters: found '' @ itoa (int (i + length vs) + 1) @
                 '' parameter(s) in path but only '' @ itoa (int n) @ '' value(s) provided'')))"
  using assms
proof (induction ps vs arbitrary: acc i rule: fill.induct)
  case (1 vs)
  then show ?case using scan_lit [of acc 0 "[]"] by (simp add: makePath_loop.simps)
next
  case (2 s ps vs)
  then show ?case using "2.IH" [of "acc @ s" i] by simp
next
  case (3 k ps)
  then have "scan_braces 0 None (acc @ render (Par k # ps)) = Some (length acc, Suc (length acc) + length k)"
    using scan_lit [of acc 0] scan_name [of k] by simp
  then show ?case by (simp add: makePath_loop.simps)
next
  case (4 k ps v vs)
  then have "scan_braces 0 None (acc @ render (Par k # ps)) = Some (length acc, Suc (length acc) + length k)"
    using scan_lit [of acc 0] scan_name [of k] by simp
  moreover have "drop (Suc (Suc (length acc) + length k)) (acc @ render (Par k # ps)) = render ps" by simp
  ultimately have "makePath_loop n i (acc @ render (Par k # ps)) (v # vs) =
      makePath_loop n (Suc i) ((acc @ v) @ render ps) vs"
    by (subst makePath_loop.simps) simp
  then show ?case using "4.IH" [of "acc @ v" "Suc i"] "4.prems" by simp
qed

section \<open>Named values\<close>

lemma mustaches_lit: "CHR ''{'' \<notin> set s \<Longrightarrow> mustaches (s @ r) = mustaches r"
  by (induction s) (auto simp: Let_def)

lemma brace_split: "CHR ''}'' \<notin> set k \<Longrightarrow> takeWhile (\<lambda>x. x \<noteq> CHR ''}'') (k @ CHR ''}'' # r) = k"
  "CHR ''}'' \<notin> set k \<Longrightarrow> dropWhile (\<lambda>x. x \<noteq> CHR ''}'') (k @ CHR ''}'' # r) = CHR ''}'' # r"
  by (induction k) auto

lemma mustaches_render:
  assumes "plain ps" and "[] \<notin> set (names ps)"
  shows "mustaches (render ps) = names ps"
  using assms
proof (induction ps rule: names.induct)
  case (2 s ps)
  then show ?case by (simp add: mustaches_lit brace_free_def)
next
  case (3 k ps)
  then show ?case by (auto simp: brace_split brace_free_def Let_def)
qed simp

lemma ReplaceAll_lit: "CHR ''{'' \<notin> set s \<Longrightarrow> ReplaceAll (s @ r) (CHR ''{'' # old) new = s @ ReplaceAll r (CHR ''{'' # old) new"
  by (induction s) auto

lemma prefix_name:
  assumes "CHR ''}'' \<notin> set k" and "CHR ''}'' \<notin> set k'"
  shows "prefix (k' @ ''}'') (k @ CHR ''}'' # r) \<longleftrightarrow> k = k'"
  using assms
proof (induction k' arbitrary: k)
  case Nil
  then show ?case by (cases k) auto
next
  case (Cons c k')
  then show ?case by (cases k) auto
qed

lemma ReplaceAll_render:
  assumes "plain ps" and "brace_free k"
  shows "ReplaceAll (render ps) (''{'' @ k @ ''}'') v = render (subst [k \<mapsto> v] ps)"
  using assms
proof (induction ps rule: names.induct)
  case (2 s ps)
  then show ?case using ReplaceAll_lit [of s _ "k @ ''}''" v] by (simp add: brace_free_def)
next
  case (3 n ps)
  let ?rest = "render ps"
  have bf: "CHR ''}'' \<notin> set n" "CHR ''}'' \<notin> set k" "CHR ''{'' \<notin> set n" using 3 by (auto simp: brace_free_def)
  show ?case
  proof (cases "n = k")
    case True
    then show ?thesis using 3 prefix_name [OF bf(1,2)] by simp
  next
    case False
    have "ReplaceAll ((n @ ''}'') @ ?rest) (CHR ''{'' # k @ ''}'') v = (n @ ''}'') @ ReplaceAll ?rest (CHR ''{'' # k @ ''}'') v"
      using bf(3) by (intro ReplaceAll_lit) simp
    then show ?thesis using 3 False prefix_name [OF bf(1,2)] by simp
  qed
qed simp

lemma subst_subst: "subst m (subst m' ps) = subst (m ++ m') ps"
  by (induction ps rule: names.induct) (simp_all add: map_add_def split: option.splits)

lemma subst_plain: "plain ps \<Longrightarrow> \<forall>v \<in> ran m. brace_free v \<Longrightarrow> plain (subst m ps)"
  by (induction ps rule: names.induct) (auto simp: ran_def split: option.splits)

lemma subst_cong: "(\<And>k. k \<in> set (names ps) \<Longrightarrow> m k = m' k) \<Longrightarrow> subst m ps = subst m' ps"
  by (induction ps rule: names.induct) simp_all

lemma fill_keys:
  assumes "plain qs" and "\<forall>v \<in> ran (map_of kv). brace_free v" and "distinct (map fst es)" and "\<forall>k \<in> fst ` set es. brace_free k"
  shows "fold (\<lambda>(key, b). fill_key key) es (keys, kv, render qs) =
    (filter (\<lambda>(k, b). \<not> (k \<in> fst ` set es \<and> map_of kv k \<noteq> None)) keys,
     filter (\<lambda>(k, v). k \<notin> fst ` set es) kv,
     render (subst (map_of kv |` (fst ` set es)) qs))"
  using assms
proof (induction es arbitrary: keys kv qs)
  case Nil
  have "subst Map.empty qs = qs" by (induction qs rule: names.induct) simp_all
  then show ?case by simp
next
  case (Cons e es)
  obtain k b where e: "e = (k, b)" by (cases e)
  show ?case
  proof (cases "map_of kv k")
    case None
    then have "k \<notin> fst ` set kv" by (simp add: map_of_eq_None_iff)
    then have "filter (\<lambda>(j, v). j \<notin> fst ` set (e # es)) kv = filter (\<lambda>(j, v). j \<notin> fst ` set es) kv"
      using e by (intro filter_cong) (auto simp: image_iff)
    moreover have "map_of kv |` (fst ` set (e # es)) = map_of kv |` (fst ` set es)"
      using None e by (auto simp: restrict_map_def fun_eq_iff)
    moreover have "filter (\<lambda>(j, b). \<not> (j \<in> fst ` set (e # es) \<and> map_of kv j \<noteq> None)) keys =
        filter (\<lambda>(j, b). \<not> (j \<in> fst ` set es \<and> map_of kv j \<noteq> None)) keys"
      using None e by (intro filter_cong) auto
    moreover have "fill_key k (keys, kv, render qs) = (keys, kv, render qs)" using None by (simp add: fill_key_def)
    ultimately show ?thesis using Cons.IH [OF Cons.prems(1,2)] Cons.prems(3,4) e by simp
  next
    case (Some v)
    let ?keys = "AList.delete k keys" and ?kv = "AList.delete k kv" and ?qs = "subst [k \<mapsto> v] qs"
    have v: "brace_free v" using Some Cons.prems(2) by (auto simp: ran_def)
    have k: "brace_free k" "k \<notin> fst ` set es" using Cons.prems(3,4) e by auto
    have step: "fill_key k (keys, kv, render qs) = (?keys, ?kv, render ?qs)"
      using Some ReplaceAll_render [OF Cons.prems(1) k(1), of v] by (simp add: fill_key_def)
    have m: "map_of ?kv = (map_of kv)(k := None)" by (simp add: AList.delete_conv')
    have "plain ?qs" using Cons.prems(1) v by (intro subst_plain) auto
    moreover have "\<forall>v \<in> ran (map_of ?kv). brace_free v" using Cons.prems(2) unfolding m by (auto simp: ran_def)
    ultimately have ih: "fold (\<lambda>(key, b). fill_key key) es (?keys, ?kv, render ?qs) =
        (filter (\<lambda>(j, b). \<not> (j \<in> fst ` set es \<and> map_of ?kv j \<noteq> None)) ?keys,
         filter (\<lambda>(j, v). j \<notin> fst ` set es) ?kv, render (subst (map_of ?kv |` (fst ` set es)) ?qs))"
      using Cons.IH [of ?qs ?kv ?keys] Cons.prems(3,4) by simp
    have "filter (\<lambda>(j, b). \<not> (j \<in> fst ` set es \<and> map_of ?kv j \<noteq> None)) ?keys =
        filter (\<lambda>(j, b). \<not> (j \<in> fst ` set (e # es) \<and> map_of kv j \<noteq> None)) keys"
      unfolding m unfolding AList.delete_eq filter_filter using Some k(2) e by (intro filter_cong) auto
    moreover have "filter (\<lambda>(j, v). j \<notin> fst ` set es) ?kv = filter (\<lambda>(j, v). j \<notin> fst ` set (e # es)) kv"
      unfolding AList.delete_eq filter_filter using e by (intro filter_cong) auto
    moreover have "(map_of ?kv |` (fst ` set es)) ++ [k \<mapsto> v] = map_of kv |` (fst ` set (e # es))"
      using Some e unfolding m by (auto simp: restrict_map_def map_add_def fun_eq_iff)
    ultimately show ?thesis using step ih e by (simp add: subst_subst)
  qed
qed

lemma ExtractMustaches_render:
  assumes "plain ps" and "\<forall>k \<in> set (names ps). k \<noteq> [] \<and> TrimSpace k = k"
  shows "fst ` set (ExtractMustaches (render ps)) = set (names ps)" and "distinct (map fst (ExtractMustaches (render ps)))"
proof -
  let ?f = "\<lambda>match m. let key = TrimSpace match in if key \<noteq> [] then AList.update key False m else m"
  have "fst ` set (fold ?f ks m) = set ks \<union> fst ` set m \<and> (distinct (map fst m) \<longrightarrow> distinct (map fst (fold ?f ks m)))"
    if "\<forall>k \<in> set ks. k \<noteq> [] \<and> TrimSpace k = k" for ks and m :: "(string \<times> bool) list"
    using that
  proof (induction ks arbitrary: m)
    case (Cons k ks)
    have "fst ` set (AList.update k False m) = insert k (fst ` set m)"
      using AList.update_conv' [of k False m] by (metis dom_fun_upd dom_map_of_conv_image_fst option.distinct(1))
    then show ?case using Cons by (simp add: Let_def distinct_update)
  qed simp
  moreover have "[] \<notin> set (names ps)" using assms(2) by blast
  ultimately show "fst ` set (ExtractMustaches (render ps)) = set (names ps)" "distinct (map fst (ExtractMustaches (render ps)))"
    using mustaches_render [OF assms(1)] assms(2) by (auto simp: ExtractMustaches_def)
qed

lemma names_brace_free: "plain ps \<Longrightarrow> k \<in> set (names ps) \<Longrightarrow> brace_free k"
  by (induction ps rule: names.induct) auto

section \<open>Properties\<close>

text \<open>
  C40. Positional paths. On a template whose literal pieces and names contain no braces, and values that
  contain none, \<open>makePath\<close> fills the places from left to right; when values are missing it
  reports how many were found, and further values are ignored.
\<close>

theorem makePath_template:
  assumes "plain ps" and "list_all brace_free vs"
  shows "makePath (render ps) vs =
    (if length (names ps) \<le> length vs then Inr (fill ps vs)
     else Inl (GoErr (''not enough parameters: found '' @ itoa (int (length vs) + 1) @
                 '' parameter(s) in path but only '' @ itoa (int (length vs)) @ '' value(s) provided'')))"
  using makePath_loop_template [OF assms(1) brace_free_simps(1) assms(2), of "length vs" 0]
  by (simp add: makePath_def)

theorem makePath_template_witness:
  "makePath ''/nodes/{id}/x/{n}'' [''b'', ''7''] = Inr ''/nodes/b/x/7''"
  using makePath_template [of "[Lit ''/nodes/'', Par ''id'', Lit ''/x/'', Par ''n'']" "[''b'', ''7'']"] by simp

text \<open>
  Named paths. On a template whose names are trimmed and not empty, and values without braces, the
  result of \<open>makePathKV\<close> does not depend on the order in which Go visits the names: each place with a
  value is filled, a place without one is reported before a value without a place, and the
  values without a place are what is left in the caller's map.
\<close>

theorem makePathKV_template:
  assumes "is_iter ord" and "plain ps" and "\<forall>k \<in> set (names ps). k \<noteq> [] \<and> TrimSpace k = k"
    and "\<forall>v \<in> ran (map_of kv). brace_free v"
  shows "makePathKV ord (render ps) kv =
    (render (subst (map_of kv) ps),
     (if \<not> set (names ps) \<subseteq> dom (map_of kv) then Some (GoErr ''kv did not provide all required parameters'')
      else if \<not> dom (map_of kv) \<subseteq> set (names ps) then Some (GoErr ''path did not consume all keys parameters'')
      else None),
     filter (\<lambda>(k, v). k \<notin> set (names ps)) kv)"
proof -
  let ?k0 = "ExtractMustaches (render ps)"
  note ex = ExtractMustaches_render [OF assms(2,3)]
  have es: "fst ` set (ord ?k0) = set (names ps)" "distinct (map fst (ord ?k0))"
    using ex is_iter_set [OF assms(1)] is_iter_distinct [OF assms(1)] by simp_all
  have "\<forall>k \<in> fst ` set (ord ?k0). brace_free k" using es(1) names_brace_free [OF assms(2)] by simp
  note run = fill_keys [OF assms(2,4) es(2) this, of ?k0, unfolded es(1)]
  have "subst (map_of kv |` set (names ps)) ps = subst (map_of kv) ps" by (rule subst_cong) simp
  moreover have "filter (\<lambda>(k, b). \<not> (k \<in> set (names ps) \<and> map_of kv k \<noteq> None)) ?k0 = [] \<longleftrightarrow> set (names ps) \<subseteq> dom (map_of kv)"
  proof -
    have "filter (\<lambda>(k, b). \<not> (k \<in> set (names ps) \<and> map_of kv k \<noteq> None)) ?k0 = [] \<longleftrightarrow>
        (\<forall>k \<in> fst ` set ?k0. k \<in> set (names ps) \<and> map_of kv k \<noteq> None)"
      by (auto simp: filter_empty_conv)
    then show ?thesis unfolding ex(1) by (auto simp: dom_def)
  qed
  moreover have "filter (\<lambda>(k, v). k \<notin> set (names ps)) kv = [] \<longleftrightarrow> dom (map_of kv) \<subseteq> set (names ps)"
    by (force simp: filter_empty_conv dom_map_of_conv_image_fst)
  ultimately show ?thesis unfolding makePathKV_def Let_def run by simp
qed

theorem makePathKV_template_witness:
  "makePathKV (\<lambda>xs. xs) ''/nodes/{id}'' [(''id'', ''b''), (''x'', ''1'')] =
     (''/nodes/b'', Some (GoErr ''path did not consume all keys parameters''), [(''x'', ''1'')])"
proof -
  have "TrimSpace ''id'' = ''id''" by code_simp
  moreover have "\<forall>v \<in> ran (map_of [(''id'', ''b''), (''x'', ''1'')]). brace_free v"
    by (auto simp: ran_def split: if_splits)
  ultimately show ?thesis
    using makePathKV_template [OF is_iter_id, of "[Lit ''/nodes/'', Par ''id'']" "[(''id'', ''b''), (''x'', ''1'')]"]
    by auto
qed

text \<open>
  A place written with spaces counts as provided but is not filled: the path keeps its braces and no
  error is reported.
\<close>

lemma spaced_place_not_filled:
  "makePathKV (\<lambda>xs. xs) ''/nodes/{ id }'' [(''id'', ''b'')] = (''/nodes/{ id }'', None, [])"
  by code_simp

end
