(* ===== verification/JsonClient.thy ===== *)
theory JsonClient
  imports JsonKV JsonPaths
begin

text \<open>
  The JSON client: \<open>pkg/jsonclient/client.go\<close> and \<open>error.go\<close>. The package \<open>net/http\<close> is a pair of
  functions in the client: \<open>ht_parse\<close> is the error of \<open>http.NewRequest\<close> for a location, \<open>ht_do\<close>
  performs a request on the state of whoever answers it. The argument \<open>in any\<close> of a call is given
  as what \<open>json.Marshal\<close> makes of it, \<open>out any\<close> as the function \<open>json.Unmarshal\<close> applies to the body.
\<close>

section \<open>Messages\<close>

record http_msg =
  hm_method :: string
  hm_url :: string
  hm_auth :: "string option"
  hm_type :: string
  hm_body :: "string option"

record http_answer =
  ha_Status :: string
  ha_StatusCode :: int
  ha_data :: "string result"

record 's net_http =
  ht_parse :: "string \<Rightarrow> goerr option"
  ht_do :: "http_msg \<Rightarrow> 's \<Rightarrow> http_answer result \<times> 's"

record 's Client =
  cl_Address :: string
  cl_token :: string
  cl_rt :: "'s net_http"
  cl_opts :: "string \<rightharpoonup> string"

definition ErrClientRequest :: int where
  "ErrClientRequest = 800"

definition NewRequestError :: "int \<Rightarrow> string \<Rightarrow> goerr" where
  "NewRequestError code err = ApiErr code err"

definition NewRequestFromError :: "int \<Rightarrow> goerr \<Rightarrow> goerr" where
  "NewRequestFromError code err = ApiErr code (Error_string err)"

section \<open>Requests\<close>

definition setAuth :: "'s Client \<Rightarrow> http_msg \<Rightarrow> http_msg" where
  "setAuth c req = (if cl_token c \<noteq> [] then req\<lparr>hm_auth := Some (''Bearer '' @ cl_token c)\<rparr> else req)"

definition newRequest :: "'s Client \<Rightarrow> string \<Rightarrow> string \<Rightarrow> string option \<Rightarrow> http_msg result" where
  "newRequest c method location body =
     (case ht_parse (cl_rt c) location of
        Some e \<Rightarrow> Inl e
      | None \<Rightarrow>
          Inr ((setAuth c \<lparr>hm_method = method, hm_url = location, hm_auth = None, hm_type = [], hm_body = body\<rparr>)
                 \<lparr>hm_type := ''application/json''\<rparr>))"

definition Do ::
  "'s Client \<Rightarrow> string \<Rightarrow> string \<Rightarrow> string result option \<Rightarrow> (string \<Rightarrow> 'o result) option \<Rightarrow> 's \<Rightarrow> 'o option result \<times> 's" where
  "Do c method location inp out s =
     (let location' = cl_Address c @ location in
      (case inp of
         Some (Inl e) \<Rightarrow> (Inl e, s)
       | _ \<Rightarrow>
           (case newRequest c method location' (case inp of Some (Inr data) \<Rightarrow> Some data | _ \<Rightarrow> None) of
              Inl e \<Rightarrow> (Inl (NewRequestError ErrClientRequest (Error_string e)), s)
            | Inr req \<Rightarrow>
                (let (answer, s') = ht_do (cl_rt c) req s in
                 (case answer of
                    Inl e \<Rightarrow> (Inl e, s')
                  | Inr resp \<Rightarrow>
                      (case ha_data resp of
                         Inl e \<Rightarrow> (Inl e, s')
                       | Inr data \<Rightarrow>
                           if ha_StatusCode resp \<noteq> StatusOK then (Inl (GoErr (ha_Status resp @ '': '' @ data)), s')
                           else (case out of
                                   None \<Rightarrow> (Inr None, s')
                                 | Some unmarshal \<Rightarrow>
                                     (case unmarshal data of Inl e \<Rightarrow> (Inl e, s') | Inr v \<Rightarrow> (Inr (Some v), s')))))))))"

text \<open>The methods of \<open>Transport\<close>. A reply struct starts out zero and is filled by \<open>Unmarshal\<close>.\<close>

definition the_reply :: "'o option result \<times> 's \<Rightarrow> 'o result \<times> 's" where
  "the_reply r = (case fst r of Inl e \<Rightarrow> Inl e | Inr v \<Rightarrow> Inr (the v), snd r)"

definition Client_Delete :: "'s Client \<Rightarrow> string \<Rightarrow> 's \<Rightarrow> unit result \<times> 's" where
  "Client_Delete c location s =
     (let (r, s') = Do c ''DELETE'' location None (None :: (string \<Rightarrow> unit result) option) s
      in (case r of Inl e \<Rightarrow> Inl e | Inr _ \<Rightarrow> Inr (), s'))"

definition Client_Get :: "'s Client \<Rightarrow> string \<Rightarrow> (string, 'o) codec \<Rightarrow> 's \<Rightarrow> 'o result \<times> 's" where
  "Client_Get c location out s = the_reply (Do c ''GET'' location None (Some (Unmarshal out)) s)"

definition Client_Post ::
  "'s Client \<Rightarrow> string \<Rightarrow> (string, 'i) codec \<Rightarrow> 'i \<Rightarrow> (string, 'o) codec \<Rightarrow> 's \<Rightarrow> 'o result \<times> 's" where
  "Client_Post c location inp v out s = the_reply (Do c ''POST'' location (Some (Marshal inp v)) (Some (Unmarshal out)) s)"

definition Client_Put ::
  "'s Client \<Rightarrow> string \<Rightarrow> (string, 'i) codec \<Rightarrow> 'i \<Rightarrow> (string, 'o) codec \<Rightarrow> 's \<Rightarrow> 'o result \<times> 's" where
  "Client_Put c location inp v out s = the_reply (Do c ''PUT'' location (Some (Marshal inp v)) (Some (Unmarshal out)) s)"

section \<open>The client object\<close>

definition SetOpt :: "string \<Rightarrow> string \<Rightarrow> 's Client \<Rightarrow> 's Client" where
  "SetOpt key v c = c\<lparr>cl_opts := (cl_opts c)(key \<mapsto> v)\<rparr>"

definition GetOpt :: "'s Client \<Rightarrow> string \<Rightarrow> string" where
  "GetOpt c key = (case cl_opts c key of None \<Rightarrow> [] | Some v \<Rightarrow> v)"

definition Client_Close :: "'s Client \<Rightarrow> 's Client" where
  "Client_Close c = c\<lparr>cl_token := []\<rparr>"

definition SetToken :: "string \<Rightarrow> 's Client \<Rightarrow> 's Client" where
  "SetToken token c = c\<lparr>cl_token := token\<rparr>"

definition WithDoer :: "'s net_http \<Rightarrow> 's Client \<Rightarrow> 's Client" where
  "WithDoer rt c = c\<lparr>cl_rt := rt\<rparr>"

definition NewClient :: "'s net_http \<Rightarrow> string \<Rightarrow> string \<Rightarrow> 's Client" where
  "NewClient default_http address token =
     \<lparr>cl_Address = address, cl_token = token, cl_rt = default_http, cl_opts = Map.empty\<rparr>"

section \<open>Lemmas\<close>

text \<open>A call that is sent and answered: the state is the answerer's, the result depends on the status alone.\<close>

definition sent :: "'s Client \<Rightarrow> string \<Rightarrow> string \<Rightarrow> string option \<Rightarrow> http_msg" where
  "sent c method location body =
     \<lparr>hm_method = method, hm_url = cl_Address c @ location,
      hm_auth = (if cl_token c \<noteq> [] then Some (''Bearer '' @ cl_token c) else None),
      hm_type = ''application/json'', hm_body = body\<rparr>"

lemma Do_answered:
  assumes "ht_parse (cl_rt c) (cl_Address c @ location) = None"
    and "ht_do (cl_rt c) (sent c method location (map_option projr inp)) s = (Inr resp, s')"
    and "ha_data resp = Inr data" and "\<forall>e. inp \<noteq> Some (Inl e)"
  shows "Do c method location inp out s =
    (if ha_StatusCode resp \<noteq> StatusOK then (Inl (GoErr (ha_Status resp @ '': '' @ data)), s')
     else (case out of
             None \<Rightarrow> (Inr None, s')
           | Some unmarshal \<Rightarrow> (case unmarshal data of Inl e \<Rightarrow> (Inl e, s') | Inr v \<Rightarrow> (Inr (Some v), s'))))"
proof -
  have "newRequest c method (cl_Address c @ location) body = Inr (sent c method location body)" for body
    using assms(1) by (simp add: newRequest_def setAuth_def sent_def)
  with assms show ?thesis by (auto simp: Do_def split: option.splits sum.splits)
qed

end
