(* ===== verification/Config.thy ===== *)
theory Config
  imports ModelRouter MeshHelpers JsonClient
begin

text \<open>
  Configuration and public addresses: \<open>pkg/core/config.go\<close> and \<open>pkg/autoip/discovery.go\<close>. The YAML decoder is
  an argument that fills a given \<open>Config\<close>; \<open>log.Fatalf\<close> is a \<open>GoPanic\<close>. Ports are Go's 64-bit \<open>int\<close>, read from the
  file and never computed with, so they are integers here.
\<close>

section \<open>Configuration\<close>

definition DefaultRelayPort :: int where "DefaultRelayPort = 4001"

definition DefaultAdminPort :: int where "DefaultAdminPort = 4002"

definition DefaultProxyListen :: string where "DefaultProxyListen = '':4080''"

record AdminConfig =
  ac_Address :: string
  ac_Secret :: string
  ac_AdminPort :: int
  ac_RelayPort :: int
  ac_PublicAddress :: string

record MeshConfig =
  mf_Name :: string
  mf_Address :: string
  mf_Secret :: string
  mf_MeshId :: string
  mf_PublicAddress :: string
  mf_Port :: int
  mf_ForcePrivate :: bool
  mf_MDNSEnabled :: bool

record Config =
  cf_Listen :: string
  cf_Admin :: AdminConfig
  cf_Mesh :: MeshConfig
  cf_Providers :: "Provider list"

definition zero_config :: Config where
  "zero_config =
     \<lparr>cf_Listen = [],
      cf_Admin = \<lparr>ac_Address = [], ac_Secret = [], ac_AdminPort = 0, ac_RelayPort = 0, ac_PublicAddress = []\<rparr>,
      cf_Mesh = \<lparr>mf_Name = [], mf_Address = [], mf_Secret = [], mf_MeshId = [], mf_PublicAddress = [], mf_Port = 0,
                 mf_ForcePrivate = False, mf_MDNSEnabled = False\<rparr>,
      cf_Providers = []\<rparr>"

definition applyConfigDefaults :: "string \<Rightarrow> Config \<Rightarrow> Config" where
  "applyConfigDefaults hostname c =
     (let c1 = (if cf_Listen c = [] then c\<lparr>cf_Listen := DefaultProxyListen\<rparr> else c);
          c2 = (if ac_RelayPort (cf_Admin c1) \<le> 0
                then c1\<lparr>cf_Admin := (cf_Admin c1)\<lparr>ac_RelayPort := DefaultRelayPort\<rparr>\<rparr> else c1);
          c3 = (if mf_Port (cf_Mesh c2) \<le> 0 then c2\<lparr>cf_Mesh := (cf_Mesh c2)\<lparr>mf_Port := 0\<rparr>\<rparr> else c2);
          c4 = (if ac_AdminPort (cf_Admin c3) \<le> 0
                then c3\<lparr>cf_Admin := (cf_Admin c3)\<lparr>ac_AdminPort := DefaultAdminPort\<rparr>\<rparr> else c3)
      in if mf_Name (cf_Mesh c4) = [] then c4\<lparr>cf_Mesh := (cf_Mesh c4)\<lparr>mf_Name := hostname\<rparr>\<rparr> else c4)"

definition LoadConfig :: "string result \<Rightarrow> (string \<Rightarrow> Config \<Rightarrow> Config result) \<Rightarrow> string \<Rightarrow> Config result" where
  "LoadConfig config_file yaml hostname =
     (case config_file of
        Inl e \<Rightarrow> Inl e
      | Inr data \<Rightarrow>
          (case yaml data zero_config of Inl e \<Rightarrow> Inl e | Inr c \<Rightarrow> Inr (applyConfigDefaults hostname c)))"

definition MustLoadConfig :: "string result \<Rightarrow> (string \<Rightarrow> Config \<Rightarrow> Config result) \<Rightarrow> string \<Rightarrow> Config result" where
  "MustLoadConfig config_file yaml hostname =
     (case LoadConfig config_file yaml hostname of
        Inl e \<Rightarrow> Inl (GoPanic (''Could not load config.yaml  (Err:'' @ Error_string e @ '')''))
      | Inr c \<Rightarrow>
          if mf_Address (cf_Mesh c) = [] then Inl (GoPanic ''Mesh.Address must be set in config.yaml'') else Inr c)"

section \<open>Public address\<close>

record CloudflareRadar =
  cr_Colo :: string
  cr_Asn :: int
  cr_Continent :: string
  cr_Country :: string
  cr_Region :: string
  cr_City :: string
  cr_Latitude :: string
  cr_Longitude :: string
  cr_IPAddress :: string
  cr_IPVersion :: string

record AddressDiscovery =
  ad_Public :: string
  ad_Outbound :: string

definition cloudflareRadarURL :: string where
  "cloudflareRadarURL = ''https://ipv4-check-perf.radar.cloudflare.com''"

definition IsPublic :: "AddressDiscovery \<Rightarrow> bool" where
  "IsPublic ad \<longleftrightarrow> ad_Outbound ad = ad_Public ad"

definition IsNAT :: "AddressDiscovery \<Rightarrow> bool" where
  "IsNAT ad \<longleftrightarrow> ad_Outbound ad \<noteq> ad_Public ad"

text \<open>\<open>net.Dial\<close> of a UDP address: the local address of the connection, if it is one of UDP.\<close>

datatype local_addr = UDPAddr string | OtherAddr string

definition OutboundIP :: "local_addr result \<Rightarrow> string result" where
  "OutboundIP dial =
     (case dial of
        Inl e \<Rightarrow> Inl e
      | Inr (UDPAddr ip) \<Rightarrow> Inr ip
      | Inr (OtherAddr type) \<Rightarrow> Inl (GoErr (''unexpected local addr type: '' @ type)))"

definition GetPublicAddress ::
  "'s net_http \<Rightarrow> (string, CloudflareRadar) codec \<Rightarrow> local_addr result \<Rightarrow> 's \<Rightarrow> AddressDiscovery result \<times> 's" where
  "GetPublicAddress http codec dial s =
     (let (resp, s') = Client_Get (NewClient http cloudflareRadarURL []) ''/api/info'' codec s in
      (case resp of
         Inl e \<Rightarrow> Inl e
       | Inr info \<Rightarrow>
           (case OutboundIP dial of
              Inl e \<Rightarrow> Inl e
            | Inr outbound \<Rightarrow> Inr \<lparr>ad_Public = cr_IPAddress info, ad_Outbound = outbound\<rparr>), s'))"

section \<open>Lemmas\<close>

lemma defaults_fields:
  "applyConfigDefaults h c =
     \<lparr>cf_Listen = (if cf_Listen c = [] then DefaultProxyListen else cf_Listen c),
      cf_Admin = (cf_Admin c)
        \<lparr>ac_RelayPort := (if ac_RelayPort (cf_Admin c) \<le> 0 then DefaultRelayPort else ac_RelayPort (cf_Admin c)),
         ac_AdminPort := (if ac_AdminPort (cf_Admin c) \<le> 0 then DefaultAdminPort else ac_AdminPort (cf_Admin c))\<rparr>,
      cf_Mesh = (cf_Mesh c)
        \<lparr>mf_Port := max 0 (mf_Port (cf_Mesh c)),
         mf_Name := (if mf_Name (cf_Mesh c) = [] then h else mf_Name (cf_Mesh c))\<rparr>,
      cf_Providers = cf_Providers c\<rparr>"
  by (simp add: applyConfigDefaults_def Let_def)

lemma defaults_idempotent: "h \<noteq> [] \<Longrightarrow> applyConfigDefaults h' (applyConfigDefaults h c) = applyConfigDefaults h c"
  unfolding defaults_fields by (simp add: DefaultProxyListen_def DefaultRelayPort_def DefaultAdminPort_def)

text \<open>A configuration that loaded can be used: the ports are in place and the admin server has an address.\<close>

lemma loaded_config_usable:
  assumes "MustLoadConfig config_file yaml hostname = Inr c"
  shows "cf_Listen c \<noteq> [] \<and> 0 < ac_RelayPort (cf_Admin c) \<and> 0 < ac_AdminPort (cf_Admin c) \<and> 0 \<le> mf_Port (cf_Mesh c) \<and>
    mf_Address (cf_Mesh c) \<noteq> [] \<and> (hostname \<noteq> [] \<longrightarrow> mf_Name (cf_Mesh c) \<noteq> [])"
proof -
  obtain c0 where c: "c = applyConfigDefaults hostname c0" "mf_Address (cf_Mesh c) \<noteq> []"
    using assms by (auto simp: MustLoadConfig_def LoadConfig_def split: sum.splits if_splits)
  then show ?thesis
    by (simp add: defaults_fields DefaultProxyListen_def DefaultRelayPort_def DefaultAdminPort_def)
qed

end
