(* ===== verification/StreamWriter.thy ===== *)
theory StreamWriter
  imports NetHttp
begin

text \<open>
  The response writer of a mesh stream: \<open>pkg/mesh/stream_response_writer.go\<close>. \<open>sw_s\<close> is what has been
  written to the stream; \<open>Write\<close> on the stream is taken to succeed. The last part says what a
  handler's calls amount to, with \<open>reply_of\<close> as specification.
\<close>

section \<open>The writer\<close>

record streamResponseWriter =
  sw_s :: string
  sw_hdr :: "Header option"
  sw_status :: int
  sw_wroteHdr :: bool

definition new_writer :: streamResponseWriter where
  "new_writer = \<lparr>sw_s = [], sw_hdr = None, sw_status = 0, sw_wroteHdr = False\<rparr>"

text \<open>\<open>Header\<close> creates the map on first use; the caller then changes it in place.\<close>

definition Writer_Header :: "(Header \<Rightarrow> Header) \<Rightarrow> streamResponseWriter \<Rightarrow> streamResponseWriter" where
  "Writer_Header change w = w\<lparr>sw_hdr := Some (change (case sw_hdr w of None \<Rightarrow> [] | Some h \<Rightarrow> h))\<rparr>"

definition WriteHeader :: "int \<Rightarrow> streamResponseWriter \<Rightarrow> streamResponseWriter" where
  "WriteHeader code w =
     (if sw_wroteHdr w then w
      else w\<lparr>sw_wroteHdr := True, sw_status := code,
             sw_s := sw_s w @ ''HTTP/1.1 '' @ itoa code @ '' '' @ StatusText code @ CRLF
                     @ (case sw_hdr w of None \<Rightarrow> [] | Some h \<Rightarrow> Header_Write h) @ CRLF\<rparr>)"

definition Writer_Write :: "string \<Rightarrow> streamResponseWriter \<Rightarrow> streamResponseWriter" where
  "Writer_Write p w =
     (let w' = (if sw_wroteHdr w then w else WriteHeader StatusOK w) in w'\<lparr>sw_s := sw_s w' @ p\<rparr>)"

section \<open>What a handler does with it\<close>

datatype writer_call =
    SetHeader string string
  | AddHeader string string
  | CallWriteHeader int
  | CallWrite string

fun call_writer :: "writer_call \<Rightarrow> streamResponseWriter \<Rightarrow> streamResponseWriter" where
  "call_writer (SetHeader k v) w = Writer_Header (Header_Set k v) w"
| "call_writer (AddHeader k v) w = Writer_Header (Header_Add k v) w"
| "call_writer (CallWriteHeader code) w = WriteHeader code w"
| "call_writer (CallWrite p) w = Writer_Write p w"

section \<open>Specification\<close>

text \<open>
  The response a list of calls describes: the status of the first \<open>WriteHeader\<close> or 200, the headers as
  they were then, the body pieces in order; none if nothing was written.
\<close>

fun change_header :: "writer_call \<Rightarrow> Header \<Rightarrow> Header" where
  "change_header (SetHeader k v) h = Header_Set k v h"
| "change_header (AddHeader k v) h = Header_Add k v h"
| "change_header _ h = h"

fun piece_of :: "writer_call \<Rightarrow> string" where
  "piece_of (CallWrite p) = p"
| "piece_of _ = []"

fun reply_of :: "Header \<Rightarrow> writer_call list \<Rightarrow> (int \<times> Header \<times> string) option" where
  "reply_of h [] = None"
| "reply_of h (CallWriteHeader code # cs) = Some (code, h, concat (map piece_of cs))"
| "reply_of h (CallWrite p # cs) = Some (StatusOK, h, p @ concat (map piece_of cs))"
| "reply_of h (c # cs) = reply_of (change_header c h) cs"

definition response_text :: "int \<times> Header \<times> string \<Rightarrow> string" where
  "response_text r =
     (case r of (code, h, body) \<Rightarrow>
        ''HTTP/1.1 '' @ itoa code @ '' '' @ StatusText code @ CRLF @ Header_Write h @ CRLF @ body)"

section \<open>Properties\<close>

lemma after_header:
  assumes "sw_wroteHdr w"
  shows "sw_s (fold call_writer cs w) = sw_s w @ concat (map piece_of cs)"
  using assms
proof (induction cs arbitrary: w)
  case (Cons c cs)
  have "sw_wroteHdr (call_writer c w)" "sw_s (call_writer c w) = sw_s w @ piece_of c"
    using Cons.prems by (cases c; simp add: Writer_Header_def WriteHeader_def Writer_Write_def)+
  then show ?case using Cons.IH by simp
qed simp

lemma before_header:
  assumes "\<not> sw_wroteHdr w" and "h = (case sw_hdr w of None \<Rightarrow> [] | Some h \<Rightarrow> h)"
  shows "sw_s (fold call_writer cs w) =
    sw_s w @ (case reply_of h cs of None \<Rightarrow> [] | Some r \<Rightarrow> response_text r)"
  using assms
proof (induction cs arbitrary: w h)
  case (Cons c cs)
  have none: "Header_Write [] = []" by (simp add: Header_Write_def)
  show ?case
  proof (cases c)
    case (SetHeader k v)
    then show ?thesis using Cons by (simp add: Writer_Header_def)
  next
    case (AddHeader k v)
    then show ?thesis using Cons by (simp add: Writer_Header_def)
  next
    case (CallWriteHeader code)
    then show ?thesis using Cons.prems none
      by (simp add: after_header WriteHeader_def response_text_def split: option.splits)
  next
    case (CallWrite p)
    then show ?thesis using Cons.prems none
      by (simp add: after_header Writer_Write_def WriteHeader_def response_text_def split: option.splits)
  qed
qed simp

lemma writer_response:
  "sw_s (fold call_writer cs new_writer) =
     (case reply_of [] cs of None \<Rightarrow> [] | Some r \<Rightarrow> response_text r)"
  by (subst before_header [of _ "[]"]) (simp_all add: new_writer_def)

text \<open>
  C38. One response per stream. Whatever calls a handler makes, the stream carries exactly the text of the
  response they describe: one status line, from the first \<open>WriteHeader\<close> or with 200, the headers set before it,
  a blank line, and the pieces of the body in order. Later calls of \<open>WriteHeader\<close> and later
  headers leave no trace, and a handler that writes nothing sends nothing at all.
\<close>

theorem stream_response_exact:
  "sw_s (fold call_writer cs new_writer) =
     (case reply_of [] cs of None \<Rightarrow> [] | Some r \<Rightarrow> response_text r)"
  by (rule writer_response)

end
