(* ===== verification/RouterLemmas.thy ===== *)
theory RouterLemmas
  imports ModelRouter MapOrder
begin

text \<open>
  Correctness of the model table. \<open>table\<close> is the abstract view of a router: for each model name
  the local providers and the finite map of peers, with the heap and the references gone. The
  lemmas show that each operation acts on this view as intended, provided the references in use
  do not alias, which \<open>Refresh\<close> and the peers' answers guarantee.
\<close>

section \<open>Well-formed states\<close>

definition peers_ok :: "peers \<Rightarrow> bool" where
  "peers_ok m \<longleftrightarrow> distinct (map fst m) \<and> (\<forall>i n. map_of m i = Some n \<longrightarrow> pn_ID n = i)"

definition router_ok :: "ModelRouter \<Rightarrow> bool" where
  "router_ok e \<longleftrightarrow>
     distinct (map fst (rt_MeshModels e)) \<and>
     (\<forall>k r p. GetModelRoute e k = Some r \<longrightarrow> mr_peers r = Some p \<longrightarrow> p < length (rt_heap e)) \<and>
     (\<forall>p < length (rt_heap e). peers_ok (rt_heap e ! p))"

definition table :: "ModelRouter \<Rightarrow> (string \<rightharpoonup> ModelProvider list \<times> (string \<rightharpoonup> Node))" where
  "table e name =
     map_option (\<lambda>r. (mr_providers r, map_of (peers_of (rt_heap e) r))) (GetModelRoute e name)"

lemma peers_ok_Nil [simp]: "peers_ok []"
  by (simp add: peers_ok_def)

lemma peers_ok_update: "peers_ok m \<Longrightarrow> peers_ok (AList.update (pn_ID n) n m)"
  by (simp add: peers_ok_def distinct_update update_conv')

lemma peers_ok_delete: "peers_ok m \<Longrightarrow> peers_ok (AList.delete i m)"
  by (simp add: peers_ok_def distinct_delete delete_conv')

section \<open>Removing a peer\<close>

text \<open>The deletions the loop of \<open>RemovePeer\<close> makes through the references of the routes.\<close>

lemma remove_loop_frame:
  "rt_MeshModels (fold (\<lambda>(name, model) e. e\<lparr>rt_heap := RemovePeer_route (rt_heap e) model node\<rparr>) rs e) = rt_MeshModels e"
  "length (rt_heap (fold (\<lambda>(name, model) e. e\<lparr>rt_heap := RemovePeer_route (rt_heap e) model node\<rparr>) rs e)) = length (rt_heap e)"
  by (induction rs arbitrary: e) (auto simp: RemovePeer_route_def split: option.splits)

lemma remove_loop_heap:
  assumes "p < length (rt_heap e)"
  shows "rt_heap (fold (\<lambda>(name, model) e. e\<lparr>rt_heap := RemovePeer_route (rt_heap e) model node\<rparr>) rs e) ! p =
    (if \<exists>(k, r) \<in> set rs. mr_peers r = Some p then AList.delete (pn_ID node) (rt_heap e ! p) else rt_heap e ! p)"
  using assms
proof (induction rs arbitrary: e)
  case (Cons x rs)
  obtain k r where x: "x = (k, r)" by (cases x)
  let ?e = "e\<lparr>rt_heap := RemovePeer_route (rt_heap e) r node\<rparr>"
  have len: "p < length (rt_heap ?e)" using Cons.prems by (simp add: RemovePeer_route_def split: option.splits)
  have "rt_heap ?e ! p = (if mr_peers r = Some p then AList.delete (pn_ID node) (rt_heap e ! p) else rt_heap e ! p)"
    using Cons.prems by (auto simp: RemovePeer_route_def nth_list_update split: option.splits)
  with Cons.IH [OF len] x show ?case by (auto simp: AList.delete_idem)
qed simp

lemma RemovePeer_frame:
  "rt_MeshModels (RemovePeer ord node e) = rt_MeshModels e" "GetModelRoute (RemovePeer ord node e) = GetModelRoute e"
  "length (rt_heap (RemovePeer ord node e)) = length (rt_heap e)"
  by (simp_all add: RemovePeer_def remove_loop_frame GetModelRoute_def fun_eq_iff)

lemma RemovePeer_peers:
  assumes "is_iter ord" and "router_ok e" and "GetModelRoute e name = Some r"
  shows "peers_of (rt_heap (RemovePeer ord node e)) r = AList.delete (pn_ID node) (peers_of (rt_heap e) r)"
proof (cases "mr_peers r")
  case (Some p)
  then have "p < length (rt_heap e)" using assms(2,3) by (auto simp: router_ok_def)
  moreover have "(name, r) \<in> set (ord (rt_MeshModels e))"
    using assms(3) is_iter_set [OF assms(1)] by (auto simp: GetModelRoute_def dest: map_of_SomeD)
  ultimately show ?thesis
    using Some remove_loop_heap [of p e node "ord (rt_MeshModels e)"] by (auto simp: RemovePeer_def peers_of_def)
qed (simp add: peers_of_def)

lemma RemovePeer_ok:
  assumes "router_ok e"
  shows "router_ok (RemovePeer ord node e)"
proof -
  have "peers_ok (rt_heap (RemovePeer ord node e) ! p)" if "p < length (rt_heap e)" for p
    using assms that remove_loop_heap [OF that, of node "ord (rt_MeshModels e)"]
    by (auto simp: router_ok_def RemovePeer_def peers_ok_delete)
  with assms show ?thesis by (simp add: router_ok_def RemovePeer_frame)
qed

lemma RemovePeer_table:
  assumes "is_iter ord" and "router_ok e"
  shows "table (RemovePeer ord node e) name =
    map_option (\<lambda>(ps, m). (ps, m(pn_ID node := None))) (table e name)"
  using RemovePeer_peers [OF assms]
  by (cases "GetModelRoute e name") (auto simp: table_def RemovePeer_frame AList.delete_conv')

section \<open>Adding the models of a peer\<close>

text \<open>
  The routes \<open>models\<close> may be added under the names \<open>N\<close> when their references, if any, point to empty
  maps that nothing else refers to.
\<close>

definition detached_ref :: "ModelRouter \<Rightarrow> routes_map \<Rightarrow> string set \<Rightarrow> string \<Rightarrow> nat \<Rightarrow> bool" where
  "detached_ref e models N name p \<longleftrightarrow>
     p < length (rt_heap e) \<and> rt_heap e ! p = [] \<and>
     (\<forall>name' r'. name' \<in> N \<longrightarrow> name' \<noteq> name \<longrightarrow> map_of models name' = Some r' \<longrightarrow> mr_peers r' \<noteq> Some p) \<and>
     (\<forall>k r'. GetModelRoute e k = Some r' \<longrightarrow> mr_peers r' \<noteq> Some p)"

definition detached :: "ModelRouter \<Rightarrow> routes_map \<Rightarrow> string set \<Rightarrow> bool" where
  "detached e models N \<longleftrightarrow>
     (\<forall>name \<in> N. case map_of models name of
        None \<Rightarrow> False
      | Some r \<Rightarrow> (case mr_peers r of None \<Rightarrow> True | Some p \<Rightarrow> detached_ref e models N name p))"

lemma detachedD:
  assumes "detached e models N" and "name \<in> N" and "map_of models name = Some r" and "mr_peers r = Some p"
  shows "detached_ref e models N name p"
proof -
  have "case map_of models name of None \<Rightarrow> False
      | Some r \<Rightarrow> (case mr_peers r of None \<Rightarrow> True | Some p \<Rightarrow> detached_ref e models N name p)"
    using assms(1,2) unfolding detached_def by (rule bspec)
  then show ?thesis using assms(3,4) by simp
qed

lemma detached_some: "detached e models N \<Longrightarrow> name \<in> N \<Longrightarrow> \<exists>r. map_of models name = Some r"
  unfolding detached_def by (auto split: option.splits)

lemma detached_wire:
  "\<forall>name \<in> N. \<exists>r. map_of models name = Some r \<and> mr_peers r = None \<Longrightarrow> detached e models N"
  unfolding detached_def by (auto split: option.splits)

text \<open>Writing the fresh peer map of a detached route leaves every other map alone.\<close>

lemma AddPeer_detached:
  assumes "mr_peers r = None \<or> (\<exists>p. mr_peers r = Some p \<and> p < length h \<and> h ! p = [])"
    and "AddPeer h r node = (h', r')"
  obtains q where "mr_peers r' = Some q" "q < length h'" "h' ! q = [(pn_ID node, node)]" "length h \<le> length h'"
    "r' = r\<lparr>mr_peers := Some q\<rparr>" "\<forall>p < length h. p \<noteq> q \<longrightarrow> h' ! p = h ! p"
    "mr_peers r = Some q \<or> (mr_peers r = None \<and> q = length h)" "\<forall>p < length h'. p \<noteq> q \<longrightarrow> p < length h"
proof (cases "mr_peers r")
  case None
  then show thesis
    using assms(2) by (intro that [of "length h"]) (auto simp: AddPeer_def nth_append)
next
  case (Some p)
  then show thesis
    using assms by (intro that [of p]) (auto simp: AddPeer_def)
qed

text \<open>Storing a route in the table, with a heap that has grown.\<close>

lemma GetModelRoute_put:
  "GetModelRoute (e\<lparr>rt_heap := h', rt_MeshModels := AList.update name r' (rt_MeshModels e)\<rparr>) k =
     (if k = name then Some r' else GetModelRoute e k)"
  by (simp add: GetModelRoute_def AList.update_conv')

lemma router_ok_put:
  assumes "router_ok e" and "length (rt_heap e) \<le> length h'" and "\<forall>p < length h'. peers_ok (h' ! p)"
    and "\<forall>p. mr_peers r' = Some p \<longrightarrow> p < length h'"
  shows "router_ok (e\<lparr>rt_heap := h', rt_MeshModels := AList.update name r' (rt_MeshModels e)\<rparr>)"
    (is "router_ok ?e")
  unfolding router_ok_def
proof (intro conjI allI impI)
  show "distinct (map fst (rt_MeshModels ?e))" using assms(1) by (simp add: router_ok_def distinct_update)
  show "p < length (rt_heap ?e)" if "GetModelRoute ?e k = Some r2" "mr_peers r2 = Some p" for k r2 p
  proof (cases "k = name")
    case False
    then have "p < length (rt_heap e)" using that assms(1) unfolding GetModelRoute_put by (simp add: router_ok_def)
    then show ?thesis using assms(2) by simp
  qed (use that assms(4) in \<open>simp add: GetModelRoute_put\<close>)
  show "peers_ok (rt_heap ?e ! p)" if "p < length (rt_heap ?e)" for p using that assms(3) by simp
qed

text \<open>The routes still to be added stay detached when another one is stored under its fresh peer map \<open>q\<close>.\<close>

lemma detached_put:
  assumes det: "detached e models N" and r: "map_of models name = Some r" and name: "name \<in> N"
    and q: "mr_peers r' = Some q" "length (rt_heap e) \<le> length h'" "\<forall>p < length (rt_heap e). p \<noteq> q \<longrightarrow> h' ! p = rt_heap e ! p"
      "mr_peers r = Some q \<or> (mr_peers r = None \<and> q = length (rt_heap e))"
  shows "detached (e\<lparr>rt_heap := h', rt_MeshModels := AList.update name r' (rt_MeshModels e)\<rparr>) models (N - {name})"
    (is "detached ?e _ _")
  unfolding detached_def
proof
  fix n2 assume n2: "n2 \<in> N - {name}"
  obtain r2 where r2: "map_of models n2 = Some r2" using detached_some [OF det] n2 by blast
  have "detached_ref ?e models (N - {name}) n2 p" if p: "mr_peers r2 = Some p" for p
  proof -
    have old: "detached_ref e models N n2 p" using detachedD [OF det _ r2 p] n2 by blast
    then have "p < length (rt_heap e)" by (simp add: detached_ref_def)
    moreover have "p \<noteq> q" using q(4) old calculation name n2 r by (auto simp: detached_ref_def)
    ultimately show ?thesis
      using old q(1-3) GetModelRoute_put [where e = e and h' = h' and name = name and r' = r'] by (simp add: detached_ref_def) (metis option.inject order.strict_trans2)
  qed
  with r2 show "case map_of models n2 of None \<Rightarrow> False
    | Some r \<Rightarrow> (case mr_peers r of None \<Rightarrow> True | Some p \<Rightarrow> detached_ref ?e models (N - {name}) n2 p)"
    by (simp split: option.splits)
qed

lemma add_peer_model_step:
  assumes ok: "router_ok e" and det: "detached e models N" and name: "name \<in> N" "name \<noteq> pn_ID node"
    and free: "GetModelRoute e (pn_ID node) = None" and r: "map_of models name = Some r"
  shows "router_ok (add_peer_model node models name e) \<and>
         detached (add_peer_model node models name e) models (N - {name}) \<and>
         GetModelRoute (add_peer_model node models name e) (pn_ID node) = None \<and>
         table (add_peer_model node models name e) =
           (table e)(name \<mapsto> (mr_providers r, [pn_ID node \<mapsto> node]))"
proof -
  obtain h' r' where add: "AddPeer (rt_heap e) r node = (h', r')" by fastforce
  let ?h = "rt_heap e"
  let ?e = "e\<lparr>rt_heap := h', rt_MeshModels := AList.update name r' (rt_MeshModels e)\<rparr>"
  have e': "add_peer_model node models name e = ?e"
    using free r add by (simp add: add_peer_model_def GetModelRoute_def)
  have d: "mr_peers r = None \<or> (\<exists>p. mr_peers r = Some p \<and> p < length ?h \<and> ?h ! p = [])"
    using detachedD [OF det name(1) r] by (cases "mr_peers r") (auto simp: detached_ref_def)
  obtain q where q: "mr_peers r' = Some q" "q < length h'" "h' ! q = [(pn_ID node, node)]"
    "length ?h \<le> length h'" "r' = r\<lparr>mr_peers := Some q\<rparr>" "\<forall>p < length ?h. p \<noteq> q \<longrightarrow> h' ! p = ?h ! p"
    "mr_peers r = Some q \<or> (mr_peers r = None \<and> q = length ?h)" "\<forall>p < length h'. p \<noteq> q \<longrightarrow> p < length ?h"
    using AddPeer_detached [OF d add] by blast
  note look = GetModelRoute_put [where e = e and h' = h' and name = name and r' = r']
  have other: "mr_peers r2 \<noteq> Some q" if "GetModelRoute e k = Some r2" for k r2
    using q(7)
  proof
    assume "mr_peers r = Some q"
    then show ?thesis using detachedD [OF det name(1) r] that by (simp add: detached_ref_def)
  next
    assume "mr_peers r = None \<and> q = length ?h"
    then show ?thesis using that ok unfolding router_ok_def by blast
  qed
  have keep: "peers_of h' r2 = peers_of ?h r2" if "GetModelRoute e k = Some r2" for k r2
    using other [OF that] that ok q(6) by (auto simp: peers_of_def router_ok_def split: option.splits)
  have "peers_ok (h' ! p)" if "p < length h'" for p
    using that q(3,6,8) ok by (cases "p = q") (auto simp: router_ok_def peers_ok_def)
  then have "router_ok ?e" using q(1,2,4) by (intro router_ok_put [OF ok]) simp_all
  moreover have "detached ?e models (N - {name})" by (rule detached_put [OF det r name(1) q(1,4,6,7)])
  moreover have "table ?e = (table e)(name \<mapsto> (mr_providers r, [pn_ID node \<mapsto> node]))"
  proof
    fix k show "table ?e k = ((table e)(name \<mapsto> (mr_providers r, [pn_ID node \<mapsto> node]))) k"
      using look [of k] keep [of k] q(1,3,5)
      by (cases "GetModelRoute e k") (auto simp: table_def peers_of_def fun_eq_iff)
  qed
  ultimately show ?thesis using e' look free name(2) by simp
qed

lemma add_upd:
  assumes "map_of xs k = None"
  shows "m(k \<mapsto> v r) ++ (\<lambda>j. map_option v (map_of xs j)) = m ++ (\<lambda>j. map_option v (map_of ((k, r) # xs) j))"
  using assms by (auto simp: map_add_def fun_eq_iff split: option.splits)

text \<open>The whole loop, in whatever order it visits the models.\<close>

lemma add_loop:
  assumes "distinct (map fst xs)" and "fst ` set xs \<subseteq> N" and "pn_ID node \<notin> N"
    and "\<forall>(k, r) \<in> set xs. map_of models k = Some r"
    and "router_ok e" and "detached e models N" and "GetModelRoute e (pn_ID node) = None"
  shows "let e' = fold (\<lambda>(name, r). add_peer_model node models name) xs e in
         router_ok e' \<and> detached e' models (N - fst ` set xs) \<and> GetModelRoute e' (pn_ID node) = None \<and>
         table e' = table e ++ (\<lambda>k. map_option (\<lambda>r. (mr_providers r, [pn_ID node \<mapsto> node])) (map_of xs k))"
  using assms
proof (induction xs arbitrary: e N)
  case (Cons x xs)
  obtain k r where x: "x = (k, r)" by (cases x)
  have k: "k \<in> N" "k \<noteq> pn_ID node" "map_of models k = Some r" using Cons.prems x by auto
  let ?e = "add_peer_model node models k e"
  have step: "router_ok ?e" "detached ?e models (N - {k})" "GetModelRoute ?e (pn_ID node) = None"
    "table ?e = (table e)(k \<mapsto> (mr_providers r, [pn_ID node \<mapsto> node]))"
    using add_peer_model_step [OF Cons.prems(5,6) k(1,2) Cons.prems(7) k(3)] by blast+
  have "let e' = fold (\<lambda>(name, r). add_peer_model node models name) xs ?e in
         router_ok e' \<and> detached e' models (N - {k} - fst ` set xs) \<and> GetModelRoute e' (pn_ID node) = None \<and>
         table e' = table ?e ++ (\<lambda>k. map_option (\<lambda>r. (mr_providers r, [pn_ID node \<mapsto> node])) (map_of xs k))"
  proof (rule Cons.IH)
    show "distinct (map fst xs)" "pn_ID node \<notin> N - {k}" using Cons.prems(1,3) by auto
    show "fst ` set xs \<subseteq> N - {k}" using Cons.prems(1,2) x by auto
    show "\<forall>(k, r) \<in> set xs. map_of models k = Some r" using Cons.prems(4) by auto
  qed (rule step)+
  moreover have "table ?e ++ (\<lambda>k. map_option (\<lambda>r. (mr_providers r, [pn_ID node \<mapsto> node])) (map_of xs k)) =
      table e ++ (\<lambda>j. map_option (\<lambda>r. (mr_providers r, [pn_ID node \<mapsto> node])) (map_of ((k, r) # xs) j))"
    unfolding step(4) using Cons.prems(1) x by (intro add_upd) (simp add: map_of_eq_None_iff)
  moreover have "N - {k} - fst ` set xs = N - fst ` set (x # xs)" using x by auto
  ultimately show ?case unfolding x by (simp only: Let_def fold_Cons comp_apply case_prod_conv)
qed (simp add: map_add_def)

lemma AddPeerModels_spec:
  assumes "is_iter ord" and "distinct (map fst models)" and "pn_ID node \<notin> fst ` set models"
    and "GetModelRoute e (pn_ID node) = None" and "router_ok e" and "detached e models (fst ` set models)"
  shows "router_ok (AddPeerModels ord node models e) \<and> GetModelRoute (AddPeerModels ord node models e) (pn_ID node) = None \<and>
         table (AddPeerModels ord node models e) =
           table e ++ (\<lambda>k. map_option (\<lambda>r. (mr_providers r, [pn_ID node \<mapsto> node])) (map_of models k))"
proof -
  have d: "distinct (map fst (ord models))" and s: "set (ord models) = set models"
    using is_iter_distinct [OF assms(1)] is_iter_set [OF assms(1)] assms(2) by simp_all
  have "map_of (ord models) = map_of models"
    using d s assms(2) by (metis map_of_inject_set)
  moreover have "\<forall>(k, r) \<in> set (ord models). map_of models k = Some r" using assms(2) s by auto
  ultimately show ?thesis
    using add_loop [OF d _ assms(3) _ assms(5,6,4)] s by (auto simp: AddPeerModels_def Let_def)
qed

section \<open>Tables built by the fetch functions\<close>

text \<open>
  A table under construction: the heap grew by empty maps only, and every route refers to one of the
  new maps, no two to the same.
\<close>

definition fresh_table :: "heap \<Rightarrow> heap \<Rightarrow> routes_map \<Rightarrow> bool" where
  "fresh_table h h' t \<longleftrightarrow>
     distinct (map fst t) \<and> (\<exists>n. h' = h @ replicate n []) \<and>
     (\<forall>k r. map_of t k = Some r \<longrightarrow> (\<exists>p. mr_peers r = Some p \<and> length h \<le> p \<and> p < length h')) \<and>
     (\<forall>k k' r r'. map_of t k = Some r \<longrightarrow> map_of t k' = Some r' \<longrightarrow> mr_peers r = mr_peers r' \<longrightarrow> k = k')"

lemma fresh_distinct: "fresh_table h h' t \<Longrightarrow> distinct (map fst t)"
  by (simp add: fresh_table_def)

lemma fresh_Nil: "fresh_table h h []"
  by (simp add: fresh_table_def exI [of _ 0])

lemma fresh_old:
  assumes "fresh_table h h' t" and "map_of t k = Some r" and "mr_peers r' = mr_peers r"
  shows "fresh_table h h' (AList.update k r' t)"
  using assms unfolding fresh_table_def
  by (auto simp: distinct_update AList.update_conv' split: if_splits)

lemma fresh_new:
  assumes "fresh_table h h' t" and "map_of t k = None" and "mr_peers r' = Some (length h')"
  shows "fresh_table h (h' @ [[]]) (AList.update k r' t)"
  unfolding fresh_table_def
proof (intro conjI allI impI)
  let ?t = "AList.update k r' t"
  have look: "map_of ?t j = (if j = k then Some r' else map_of t j)" for j
    by (simp add: AList.update_conv')
  have old: "\<exists>p. mr_peers r = Some p \<and> length h \<le> p \<and> p < length h'" if "map_of t j = Some r" for j r
    using assms(1) that unfolding fresh_table_def by blast
  obtain n where n: "h' = h @ replicate n []" using assms(1) unfolding fresh_table_def by blast
  then have "h' @ [[]] = h @ replicate (Suc n) []" by (simp add: replicate_append_same)
  then show "\<exists>n. h' @ [[]] = h @ replicate n []" by blast
  show "distinct (map fst ?t)" using assms(1) by (simp add: fresh_table_def distinct_update)
  show "\<exists>p. mr_peers r = Some p \<and> length h \<le> p \<and> p < length (h' @ [[]])" if "map_of ?t j = Some r" for j r
    using that look [of j] old [of j r] assms(3) n by (auto split: if_splits)
  show "j = j'" if "map_of ?t j = Some r" "map_of ?t j' = Some r2" "mr_peers r = mr_peers r2" for j j' r r2
  proof (cases "j = k \<or> j' = k")
    case True
    then show ?thesis using that look [of j] look [of j'] old [of j r] old [of j' r2] assms(3) by (auto split: if_splits)
  next
    case False
    then show ?thesis using that look assms(1) unfolding fresh_table_def by auto
  qed
qed

lemma fresh_delete: "fresh_table h h' t \<Longrightarrow> fresh_table h h' (AList.delete k t)"
  unfolding fresh_table_def by (simp add: distinct_delete AList.delete_conv' split: if_splits)

lemma whitelist_entry_fresh: "fresh_table h h' t \<Longrightarrow> case whitelist_entry now pv m (h', t) of (h2, t2) \<Rightarrow> fresh_table h h2 t2"
  by (auto simp: whitelist_entry_def MakeRoute_def Let_def intro: fresh_new fresh_old split: option.splits)

lemma ollama_running_fresh: "fresh_table h h' t \<Longrightarrow> case ollama_running now pv m (h', t) of (h2, t2) \<Rightarrow> fresh_table h h2 t2"
  by (auto simp: ollama_running_def MakeRoute_def Let_def intro: fresh_new fresh_old split: option.splits)

lemma openai_model_fresh: "fresh_table h h' t \<Longrightarrow> case openai_model pv w m (h', t) of (h2, t2) \<Rightarrow> fresh_table h h2 t2"
  by (auto simp: openai_model_def MakeRoute_def Let_def intro: fresh_new fresh_old split: option.splits)

lemma fold_fresh:
  assumes "\<And>m h' t. fresh_table h h' t \<Longrightarrow> case f m (h', t) of (h2, t2) \<Rightarrow> fresh_table h h2 t2"
  shows "fresh_table h h' t \<Longrightarrow> case fold f ms (h', t) of (h2, t2) \<Rightarrow> fresh_table h h2 t2"
proof (induction ms arbitrary: h' t)
  case (Cons m ms)
  obtain h2 t2 where m: "f m (h', t) = (h2, t2)" by fastforce
  then have "fresh_table h h2 t2" using assms [OF Cons.prems, of m] by simp
  then show ?case using Cons.IH m by simp
qed simp

lemma modelsFromWhitelist_fresh: "case modelsFromWhitelist now pv h of (h2, t2) \<Rightarrow> fresh_table h h2 t2"
  unfolding modelsFromWhitelist_def by (rule fold_fresh) (rule whitelist_entry_fresh fresh_Nil; assumption?)+

lemma ollama_complete_fresh: "fresh_table h h' t \<Longrightarrow> map_of t k \<noteq> None \<Longrightarrow> fresh_table h h' (ollama_complete props k t)"
  by (auto simp: ollama_complete_def Let_def intro!: fresh_delete intro: fresh_old split: option.splits)

lemma ollama_complete_dom: "k' \<noteq> k \<Longrightarrow> map_of (ollama_complete props k t) k' = map_of t k'"
  by (simp add: ollama_complete_def AList.delete_conv' AList.update_conv' Let_def split: option.splits)

lemma fold_complete_keeps:
  assumes "\<And>t k. P t \<Longrightarrow> map_of t k \<noteq> None \<Longrightarrow> P (ollama_complete props k t)"
  shows "distinct (map fst xs) \<Longrightarrow> fst ` set xs \<subseteq> dom (map_of t) \<Longrightarrow> P t \<Longrightarrow>
     P (fold (\<lambda>(k, r). ollama_complete props k) xs t)"
proof (induction xs arbitrary: t)
  case (Cons x xs)
  obtain k r where x: "x = (k, r)" by (cases x)
  have "fst ` set xs \<subseteq> dom (map_of (ollama_complete props k t))"
  proof
    fix j assume j: "j \<in> fst ` set xs"
    then have "j \<noteq> k" "j \<in> dom (map_of t)" using Cons.prems(1,2) x by auto
    then show "j \<in> dom (map_of (ollama_complete props k t))" by (simp add: ollama_complete_dom dom_def)
  qed
  moreover have "P (ollama_complete props k t)"
    using Cons.prems(2,3) x by (intro assms) auto
  ultimately show ?case using Cons.IH Cons.prems(1) x by simp
qed simp

text \<open>The loop visits exactly the keys of the table it updates.\<close>

lemma complete_all_keeps:
  assumes "\<And>t k. P t \<Longrightarrow> map_of t k \<noteq> None \<Longrightarrow> P (ollama_complete props k t)"
    and "is_iter ord" and "distinct (map fst t)" and "P t"
  shows "P (fold (\<lambda>(k, r). ollama_complete props k) (ord t) t)"
proof (rule fold_complete_keeps [where P = P])
  show "P (ollama_complete props k t)" if "P t" "map_of t k \<noteq> None" for t k using that by (rule assms(1))
  show "distinct (map fst (ord t))" using assms(3) is_iter_distinct [OF assms(2)] by simp
  show "fst ` set (ord t) \<subseteq> dom (map_of t)"
    using is_iter_set [OF assms(2)] by (auto simp: dom_map_of_conv_image_fst)
qed (rule assms(4))

lemma finish_fresh:
  assumes "is_iter ord" and "case x of (h2, t2) \<Rightarrow> fresh_table h h2 t2"
    and "(\<lambda>(h1, models). (h1, Inr (fold (\<lambda>(k, r). ollama_complete props k) (ord models) models))) x = (h', Inr t)"
  shows "fresh_table h h' t"
proof -
  obtain h1 models where x: "x = (h1, models)" by (cases x)
  have "fresh_table h h1 (fold (\<lambda>(k, r). ollama_complete props k) (ord models) models)"
    by (rule complete_all_keeps [where P = "fresh_table h h1", OF _ assms(1)])
      (use assms(2) x in \<open>auto intro: ollama_complete_fresh simp: fresh_distinct\<close>)
  then show ?thesis using assms(3) x by auto
qed

lemma ollama_fresh:
  assumes "is_iter ord" and "ollamaFetchModels ord now u tags ps pv h = (h', Inr t)"
  shows "fresh_table h h' t"
proof -
  obtain l where u: "u = None" "tags = Inr l"
    using assms(2) by (cases u; cases tags) (auto simp: ollamaFetchModels_def)
  have run: "case fold (ollama_running now pv) running (h, []) of (h2, t2) \<Rightarrow> fresh_table h h2 t2" for running
    by (rule fold_fresh) (rule ollama_running_fresh fresh_Nil; assumption?)+
  show ?thesis
  proof (cases "pv_Discovery pv = ''whitelist''")
    case True
    then show ?thesis
      using assms u by (intro finish_fresh [OF assms(1) modelsFromWhitelist_fresh]) (simp add: ollamaFetchModels_def)
  next
    case False
    then obtain running where "ps = Inr running"
      using assms(2) u by (cases ps) (auto simp: ollamaFetchModels_def)
    then show ?thesis
      using assms u False by (intro finish_fresh [OF assms(1) run]) (simp add: ollamaFetchModels_def)
  qed
qed

text \<open>Scanning \<open>openai\<close> builds the whitelist first; the routes of the result are newer maps still.\<close>

lemma fresh_weaken: "fresh_table h1 h2 t \<Longrightarrow> h1 = h @ replicate n [] \<Longrightarrow> fresh_table h h2 t"
  unfolding fresh_table_def
  by (intro conjI) (auto simp: replicate_add [symmetric] intro: exI [of _ "n + _"], fastforce)

lemma fresh_grow: "fresh_table h h' t \<Longrightarrow> \<exists>n. h' = h @ replicate n []"
  by (simp add: fresh_table_def)

lemma openai_whitelist_grow:
  "\<exists>n. fst (if c then modelsFromWhitelist now pv h else (h, [])) = h @ replicate n []"
  using modelsFromWhitelist_fresh [of h now pv] fresh_grow by (auto simp: exI [of _ 0] split: prod.splits)

lemma openai_fresh:
  assumes "openaiFetchModels now resp pv h = (h', r)"
  shows "(\<exists>n. h' = h @ replicate n []) \<and> (\<forall>t. r = Inr t \<longrightarrow> fresh_table h h' t)"
proof -
  obtain h1 w where w: "(if pv_Discovery pv = ''whitelist'' then modelsFromWhitelist now pv h else (h, [])) = (h1, w)"
    by fastforce
  then obtain n where n: "h1 = h @ replicate n []"
    using openai_whitelist_grow [of "pv_Discovery pv = ''whitelist''" now pv h] by auto
  have "case fold (openai_model pv w) ms (h1, []) of (h2, t2) \<Rightarrow> fresh_table h1 h2 t2" for ms
    by (rule fold_fresh) (rule openai_model_fresh fresh_Nil; assumption?)+
  then have "fresh_table h h2 t2" if "fold (openai_model pv w) ms (h1, []) = (h2, t2)" for ms h2 t2
    using fresh_weaken [OF _ n] that by (metis case_prod_conv)
  then show ?thesis
    using assms w n fresh_grow [of h h'] by (fastforce simp: openaiFetchModels_def split: sum.splits prod.splits)
qed

lemma fetch_fresh:
  assumes "is_iter ord" and "fetch ord w pv h = Some (h', r)"
  shows "(\<exists>n. h' = h @ replicate n []) \<and> (\<forall>t. r = Inr t \<longrightarrow> fresh_table h h' t)"
proof -
  consider (ollama) "ollamaFetchModels ord (fe_now w) (fe_url w) (fe_tags w) (fe_ps w) pv h = (h', r)"
    | (openai) "openaiFetchModels (fe_now w) (fe_openai w) pv h = (h', r)"
    | (test) "testFetchModels (fe_now w) pv h = (h', r)"
    using assms(2) by (auto simp: fetch_def split: if_splits)
  then show ?thesis
  proof cases
    case ollama
    show ?thesis
    proof (cases r)
      case (Inl e)
      then have "h' = h"
        using ollama by (auto simp: ollamaFetchModels_def Let_def split: option.splits sum.splits if_splits prod.splits)
      then show ?thesis using Inl by (auto intro: exI [of _ 0])
    next
      case (Inr t)
      then show ?thesis using ollama_fresh [OF assms(1)] ollama fresh_grow by blast
    qed
  next
    case openai
    then show ?thesis by (rule openai_fresh)
  next
    case test
    then show ?thesis
      using modelsFromWhitelist_fresh [of h "fe_now w" pv] fresh_grow by (auto simp: testFetchModels_def split: prod.splits)
  qed
qed

text \<open>Growing the heap by empty maps changes nothing; a fresh table can be added.\<close>

lemma grow_ok:
  assumes "router_ok e"
  shows "router_ok (e\<lparr>rt_heap := rt_heap e @ replicate n []\<rparr>)"
    and "table (e\<lparr>rt_heap := rt_heap e @ replicate n []\<rparr>) = table e"
proof -
  have "peers_ok ((rt_heap e @ replicate n []) ! p)" if "p < length (rt_heap e) + n" for p
    using assms that by (simp add: router_ok_def nth_append)
  then show "router_ok (e\<lparr>rt_heap := rt_heap e @ replicate n []\<rparr>)"
    using assms by (fastforce simp: router_ok_def GetModelRoute_def)
  have "peers_of (rt_heap e @ replicate n []) r = peers_of (rt_heap e) r" if "GetModelRoute e k = Some r" for k r
    using assms that by (auto simp: router_ok_def peers_of_def nth_append split: option.splits)
  then show "table (e\<lparr>rt_heap := rt_heap e @ replicate n []\<rparr>) = table e"
    by (auto simp: table_def fun_eq_iff GetModelRoute_def intro!: option.map_cong)
qed

lemma fresh_detached:
  assumes "router_ok e" and "fresh_table (rt_heap e) h' t"
  shows "detached (e\<lparr>rt_heap := h'\<rparr>) t (fst ` set t)"
  unfolding detached_def
proof
  fix name assume name: "name \<in> fst ` set t"
  then obtain r where r: "map_of t name = Some r" by (metis map_of_eq_None_iff not_None_eq)
  then obtain p where p: "mr_peers r = Some p" "length (rt_heap e) \<le> p" "p < length h'"
    using assms(2) unfolding fresh_table_def by blast
  obtain n where "h' = rt_heap e @ replicate n []" using fresh_grow [OF assms(2)] by blast
  then have "h' ! p = []" using p by (simp add: nth_append)
  moreover have "mr_peers r' \<noteq> Some p" if "GetModelRoute e k = Some r'" for k r'
    using assms(1) that p(2) unfolding router_ok_def by (metis leD)
  moreover have "mr_peers r' \<noteq> Some p" if "name' \<noteq> name" "map_of t name' = Some r'" for name' r'
    using assms(2) that r p(1) unfolding fresh_table_def by metis
  ultimately have "detached_ref (e\<lparr>rt_heap := h'\<rparr>) t (fst ` set t) name p"
    using p(3) by (auto simp: detached_ref_def GetModelRoute_def)
  with r p(1) show "case map_of t name of None \<Rightarrow> False
    | Some r \<Rightarrow> (case mr_peers r of None \<Rightarrow> True | Some p \<Rightarrow> detached_ref (e\<lparr>rt_heap := h'\<rparr>) t (fst ` set t) name p)"
    by simp
qed

lemma AddPeerModels_frame:
  "rt_node (AddPeerModels ord node models e) = rt_node e"
  "rt_providers (AddPeerModels ord node models e) = rt_providers e"
proof -
  have "rt_node (fold (\<lambda>(name, r). add_peer_model node models name) xs e) = rt_node e \<and>
        rt_providers (fold (\<lambda>(name, r). add_peer_model node models name) xs e) = rt_providers e" for xs :: routes_map
    by (induction xs arbitrary: e) (auto simp: add_peer_model_def Let_def split_beta)
  then show "rt_node (AddPeerModels ord node models e) = rt_node e"
    "rt_providers (AddPeerModels ord node models e) = rt_providers e" by (simp_all add: AddPeerModels_def)
qed

text \<open>What a scan of one provider adds to the view of the router.\<close>

definition offered :: "Node \<Rightarrow> (heap \<times> routes_map result) option \<Rightarrow> (string \<rightharpoonup> ModelProvider list \<times> (string \<rightharpoonup> Node))" where
  "offered self f k =
     (case f of
        Some (h, Inr t) \<Rightarrow> map_option (\<lambda>r. (mr_providers r, [pn_ID self \<mapsto> self])) (map_of t k)
      | _ \<Rightarrow> None)"

lemma refresh_provider_spec:
  assumes "is_iter ord" and "router_ok e" and "GetModelRoute e (pn_ID (rt_node e)) = None"
    and "offered (rt_node e) (fetch ord (env pv) pv (rt_heap e)) (pn_ID (rt_node e)) = None"
  shows "router_ok (refresh_provider ord env pv e) \<and>
         GetModelRoute (refresh_provider ord env pv e) (pn_ID (rt_node e)) = None \<and>
         rt_node (refresh_provider ord env pv e) = rt_node e \<and>
         table (refresh_provider ord env pv e) = table e ++ offered (rt_node e) (fetch ord (env pv) pv (rt_heap e))"
proof (cases "fetch ord (env pv) pv (rt_heap e)")
  case None
  then show ?thesis using assms by (simp add: refresh_provider_def offered_def map_add_def)
next
  case (Some hr)
  obtain h r where f: "fetch ord (env pv) pv (rt_heap e) = Some (h, r)" using Some by (cases hr) simp
  obtain n where n: "h = rt_heap e @ replicate n []" using fetch_fresh [OF assms(1) f] by blast
  have grown: "router_ok (e\<lparr>rt_heap := h\<rparr>)" "table (e\<lparr>rt_heap := h\<rparr>) = table e"
    using grow_ok [OF assms(2)] n by simp_all
  show ?thesis
  proof (cases r)
    case (Inl err)
    then show ?thesis
      using f grown assms(3) by (simp add: refresh_provider_def offered_def map_add_def GetModelRoute_def)
  next
    case (Inr t)
    have fresh: "fresh_table (rt_heap e) h t" using fetch_fresh [OF assms(1) f] Inr by blast
    have "pn_ID (rt_node e) \<notin> fst ` set t"
      using assms(4) f Inr by (simp add: offered_def map_of_eq_None_iff)
    moreover have "distinct (map fst t)" using fresh by (simp add: fresh_table_def)
    moreover have "GetModelRoute (e\<lparr>rt_heap := h\<rparr>) (pn_ID (rt_node e)) = None"
      using assms(3) by (simp add: GetModelRoute_def)
    ultimately have spec: "router_ok (AddPeerModels ord (rt_node e) t (e\<lparr>rt_heap := h\<rparr>)) \<and>
        GetModelRoute (AddPeerModels ord (rt_node e) t (e\<lparr>rt_heap := h\<rparr>)) (pn_ID (rt_node e)) = None \<and>
        table (AddPeerModels ord (rt_node e) t (e\<lparr>rt_heap := h\<rparr>)) =
          table e ++ (\<lambda>k. map_option (\<lambda>r. (mr_providers r, [pn_ID (rt_node e) \<mapsto> rt_node e])) (map_of t k))"
      using AddPeerModels_spec [OF assms(1) _ _ _ grown(1) fresh_detached [OF assms(2) fresh], of "rt_node e"]
        grown(2) by simp
    moreover have "refresh_provider ord env pv e = AddPeerModels ord (rt_node e) t (e\<lparr>rt_heap := h\<rparr>)"
      using f Inr by (simp add: refresh_provider_def)
    moreover have "offered (rt_node e) (Some (h, r)) =
        (\<lambda>k. map_option (\<lambda>r. (mr_providers r, [pn_ID (rt_node e) \<mapsto> rt_node e])) (map_of t k))"
      using Inr by (simp add: offered_def fun_eq_iff)
    ultimately show ?thesis using f by (simp add: AddPeerModels_frame)
  qed
qed

text \<open>Every route a scan yields is local and stored under its own name.\<close>

definition local_table :: "routes_map \<Rightarrow> bool" where
  "local_table t \<longleftrightarrow> (\<forall>k r. map_of t k = Some r \<longrightarrow> mr_providers r \<noteq> [] \<and> mr_Name r = k)"

lemma local_Nil: "local_table []"
  by (simp add: local_table_def)

lemma local_update: "local_table t \<Longrightarrow> mr_providers r \<noteq> [] \<Longrightarrow> mr_Name r = k \<Longrightarrow> local_table (AList.update k r t)"
  by (simp add: local_table_def AList.update_conv')

lemma local_name: "local_table t \<Longrightarrow> map_of t k = Some r \<Longrightarrow> mr_Name r = k"
  by (simp add: local_table_def)

lemma local_steps:
  "local_table t \<Longrightarrow> local_table (snd (whitelist_entry now pv m (h, t)))"
  "local_table t \<Longrightarrow> local_table (snd (ollama_running now pv m' (h, t)))"
  "local_table t \<Longrightarrow> local_table (snd (openai_model pv w m'' (h, t)))"
  by (auto simp: whitelist_entry_def ollama_running_def openai_model_def MakeRoute_def Let_def
      intro!: local_update dest: local_name split: option.splits)

lemma local_complete: "local_table t \<Longrightarrow> map_of t k \<noteq> None \<Longrightarrow> local_table (ollama_complete props k t)"
  by (auto simp: ollama_complete_def Let_def local_table_def AList.update_conv' AList.delete_conv' split: option.splits)

lemma fold_local:
  assumes "\<And>m h t. local_table t \<Longrightarrow> local_table (snd (f m (h, t)))"
  shows "local_table t \<Longrightarrow> local_table (snd (fold f ms (h, t)))"
proof (induction ms arbitrary: h t)
  case (Cons m ms)
  obtain h2 t2 where "f m (h, t) = (h2, t2)" by fastforce
  then show ?case using Cons.IH assms [OF Cons.prems, of m h] by simp
qed simp

lemma whitelist_local: "local_table (snd (modelsFromWhitelist now pv h))"
  unfolding modelsFromWhitelist_def by (rule fold_local) (rule local_steps local_Nil; assumption?)+

lemma fetch_local:
  assumes "is_iter ord" and "fetch ord w pv h = Some (h', Inr t)"
  shows "local_table t"
proof -
  have fin: "local_table u"
    if "local_table (snd x)" "distinct (map fst (snd x))"
      "(\<lambda>(h1, models). (h1, Inr (fold (\<lambda>(k, r). ollama_complete props k) (ord models) models))) x = (h2, Inr u)"
    for x :: "heap \<times> routes_map" and props h2 u
  proof -
    have "local_table (fold (\<lambda>(k, r). ollama_complete props k) (ord (snd x)) (snd x))"
      using that(1,2) by (intro complete_all_keeps [where P = local_table, OF _ assms(1)] local_complete)
    then show ?thesis using that(3) by (cases x) auto
  qed
  have run: "local_table (snd (fold (ollama_running now pv) ms (h, [])))" for ms now
    by (rule fold_local) (rule local_steps local_Nil; assumption?)+
  have dist: "distinct (map fst (snd (fold (ollama_running now pv) ms (h, []))))" for ms now
  proof -
    have "case fold (ollama_running now pv) ms (h, []) of (h2, t2) \<Rightarrow> fresh_table h h2 t2"
      by (rule fold_fresh) (rule ollama_running_fresh fresh_Nil; assumption?)+
    then show ?thesis by (auto simp: fresh_table_def split: prod.splits)
  qed
  have distw: "distinct (map fst (snd (modelsFromWhitelist now pv h)))" for now
    using modelsFromWhitelist_fresh [of h now pv] by (auto simp: fresh_table_def split: prod.splits)
  have oa: "local_table (snd (fold (openai_model pv wl) ms (h1, [])))" for ms wl h1
    by (rule fold_local) (rule local_steps local_Nil; assumption?)+
  consider (ollama) "ollamaFetchModels ord (fe_now w) (fe_url w) (fe_tags w) (fe_ps w) pv h = (h', Inr t)"
    | (openai) "openaiFetchModels (fe_now w) (fe_openai w) pv h = (h', Inr t)"
    | (test) "testFetchModels (fe_now w) pv h = (h', Inr t)"
    using assms(2) by (auto simp: fetch_def split: if_splits)
  then show ?thesis
  proof cases
    case ollama
    then show ?thesis
      using fin [OF whitelist_local distw] fin [OF run dist]
      by (auto simp: ollamaFetchModels_def Let_def split: option.splits sum.splits if_splits)
  next
    case openai
    then show ?thesis using oa
      by (auto simp: openaiFetchModels_def Let_def split: sum.splits if_splits prod.splits) (metis snd_conv)+
  next
    case test
    then show ?thesis using whitelist_local [of "fe_now w" pv h] by (auto simp: testFetchModels_def split: prod.splits)
  qed
qed

section \<open>A whole refresh\<close>

text \<open>The node's id is not the name of a model any provider offers.\<close>

definition id_unused :: "(routes_map \<Rightarrow> routes_map) \<Rightarrow> (Provider \<Rightarrow> fetch_env) \<Rightarrow> Node \<Rightarrow> Provider list \<Rightarrow> bool" where
  "id_unused ord env self pvs \<longleftrightarrow>
     (\<forall>pv \<in> set pvs. \<forall>h. offered self (fetch ord (env pv) pv h) (pn_ID self) = None)"

lemma offered_local:
  assumes "is_iter ord" and "offered self (fetch ord w pv h) k = Some (ps, m)"
  shows "ps \<noteq> [] \<and> m = [pn_ID self \<mapsto> self]"
  using assms(2) fetch_local [OF assms(1), of w pv h]
  by (auto simp: offered_def local_table_def split: option.splits prod.splits sum.splits)

lemma Refresh_loop:
  assumes "is_iter ord" and "id_unused ord env (rt_node e) pvs" and "router_ok e"
    and "GetModelRoute e (pn_ID (rt_node e)) = None"
    and "\<And>k ps m. table e k = Some (ps, m) \<Longrightarrow> ps \<noteq> [] \<and> m = [pn_ID (rt_node e) \<mapsto> rt_node e]"
  shows "router_ok (fold (refresh_provider ord env) pvs e) \<and>
         (\<forall>k ps m. table (fold (refresh_provider ord env) pvs e) k = Some (ps, m) \<longrightarrow>
            ps \<noteq> [] \<and> m = [pn_ID (rt_node e) \<mapsto> rt_node e])"
  using assms
proof (induction pvs arbitrary: e)
  case (Cons pv pvs)
  let ?e = "refresh_provider ord env pv e"
  have step: "router_ok ?e" "GetModelRoute ?e (pn_ID (rt_node e)) = None" "rt_node ?e = rt_node e"
    "table ?e = table e ++ offered (rt_node e) (fetch ord (env pv) pv (rt_heap e))"
    using refresh_provider_spec [OF Cons.prems(1,3,4), of env pv] Cons.prems(2) by (auto simp: id_unused_def)
  have new: "ps \<noteq> [] \<and> m = [pn_ID (rt_node ?e) \<mapsto> rt_node ?e]" if "table ?e k = Some (ps, m)" for k ps m
    using that Cons.prems(5) [of k] offered_local [OF Cons.prems(1), of "rt_node e" "env pv" pv "rt_heap e" k]
    by (auto simp: step(3,4) map_add_Some_iff)
  have "id_unused ord env (rt_node ?e) pvs" using Cons.prems(2) step(3) by (simp add: id_unused_def)
  moreover have "GetModelRoute ?e (pn_ID (rt_node ?e)) = None" using step(2,3) by simp
  ultimately show ?case using Cons.IH [OF Cons.prems(1) _ step(1) _ new] step(3) by simp
qed simp

end
