(* ===== verification/RouterProperties.thy ===== *)
theory RouterProperties
  imports RouterLemmas
begin

text \<open>
  The properties of the model table: what a scan finds, what is exported to the mesh, what adding
  and removing a peer does.
\<close>

section \<open>Lemmas\<close>

text \<open>The providers a table under construction holds for a name.\<close>

definition provs :: "routes_map \<Rightarrow> string \<Rightarrow> ModelProvider list" where
  "provs t k = (case map_of t k of None \<Rightarrow> [] | Some r \<Rightarrow> mr_providers r)"

lemma provs_entry:
  "provs (snd (whitelist_entry now pv m (h, t))) k =
     provs t k @ (if mc_Model m = k then [provider_entry (mc_Private m) pv] else [])"
  by (auto simp: provs_def whitelist_entry_def MakeRoute_def Let_def AList.update_conv' split: option.splits)

lemma provs_fold:
  "provs (snd (fold (whitelist_entry now pv) ms (h, t))) k =
     provs t k @ map (\<lambda>m. provider_entry (mc_Private m) pv) (filter (\<lambda>m. mc_Model m = k) ms)"
proof (induction ms arbitrary: h t)
  case (Cons m ms)
  obtain h2 t2 where "whitelist_entry now pv m (h, t) = (h2, t2)" by fastforce
  then show ?case using Cons.IH [of h2 t2] provs_entry [of now pv m h t k] by auto
qed simp

lemma provs_whitelist:
  "provs (snd (modelsFromWhitelist now pv h)) k =
     map (\<lambda>m. provider_entry (mc_Private m) pv) (filter (\<lambda>m. mc_Model m = k) (pv_Models pv))"
  by (simp add: modelsFromWhitelist_def provs_fold) (simp add: provs_def)

lemma local_provs: "local_table t \<Longrightarrow> map_of t k = None \<longleftrightarrow> provs t k = []"
  by (auto simp: provs_def local_table_def split: option.splits)

text \<open>The routes of an \<open>openai\<close> scan carry the privacy of the provider.\<close>

definition provider_private :: "Provider \<Rightarrow> routes_map \<Rightarrow> bool" where
  "provider_private pv t \<longleftrightarrow> (\<forall>k r. map_of t k = Some r \<longrightarrow> (\<forall>p \<in> set (mr_providers r). mp_Private p = pv_Private pv))"

lemma openai_private_step: "provider_private pv t \<Longrightarrow> provider_private pv (snd (openai_model pv w m (h, t)))"
  by (auto simp: provider_private_def openai_model_def MakeRoute_def provider_entry_def Let_def AList.update_conv'
      split: option.splits if_splits)

lemma openai_dom_step: "dom (map_of (snd (openai_model pv w m (h, t)))) = dom (map_of t) \<union> ({oa_ID m} \<inter> dom (map_of w))"
  by (auto simp: openai_model_def MakeRoute_def Let_def AList.update_conv' split: option.splits if_splits prod.splits)

lemma openai_fold:
  assumes "provider_private pv t"
  shows "provider_private pv (snd (fold (openai_model pv w) ms (h, t))) \<and>
         dom (map_of (snd (fold (openai_model pv w) ms (h, t)))) = dom (map_of t) \<union> (oa_ID ` set ms \<inter> dom (map_of w))"
  using assms
proof (induction ms arbitrary: h t)
  case (Cons m ms)
  obtain h2 t2 where m: "openai_model pv w m (h, t) = (h2, t2)" by fastforce
  then show ?case
    using Cons.IH [of t2 h2] openai_private_step [OF Cons.prems, of w m h] openai_dom_step [of pv w m h t] by auto
qed simp

lemma exported_iff:
  assumes "is_iter ord" and "distinct (map fst (rt_MeshModels e))"
  shows "mset (ListExportedModels ord e) =
    filter_mset (\<lambda>r. IsLocal r \<and> \<not> IsPrivate r) (mset (map snd (rt_MeshModels e)))"
proof -
  have "map (\<lambda>(name, r). the (map_of (rt_MeshModels e) name)) (ord (rt_MeshModels e)) = map snd (ord (rt_MeshModels e))"
    using assms(2) is_iter_set [OF assms(1)] by auto
  then have "mset (ListExportedModels ord e) = filter_mset (\<lambda>r. IsLocal r \<and> \<not> IsPrivate r) (mset (map snd (ord (rt_MeshModels e))))"
    unfolding ListExportedModels_def by (simp only: mset_filter)
  also have "mset (map snd (ord (rt_MeshModels e))) = mset (map snd (rt_MeshModels e))"
    using assms(1) by (simp add: is_iter_def)
  finally show ?thesis .
qed

lemma Refresh_start:
  assumes "is_iter ord" and "id_unused ord env node pvs"
  shows "router_ok (Refresh ord env (NewModelDiscovery node pvs)) \<and>
         (\<forall>k ps m. table (Refresh ord env (NewModelDiscovery node pvs)) k = Some (ps, m) \<longrightarrow>
            ps \<noteq> [] \<and> m = [pn_ID node \<mapsto> node])"
proof -
  let ?e0 = "NewModelDiscovery node pvs"
  have "rt_node ?e0 = node" "router_ok ?e0" "GetModelRoute ?e0 (pn_ID node) = None" "table ?e0 k = None" for k
    by (simp_all add: NewModelDiscovery_def router_ok_def GetModelRoute_def table_def)
  then show ?thesis
    using Refresh_loop [OF assms(1), of env ?e0 pvs] assms(2) by (simp add: Refresh_def NewModelDiscovery_def)
qed

lemma wire_detached:
  assumes "\<forall>(k, r) \<in> set models. mr_peers r = None"
  shows "detached e models (fst ` set models)"
proof (rule detached_wire, rule ballI)
  fix name assume "name \<in> fst ` set models"
  then obtain r where "map_of models name = Some r" by (metis map_of_eq_None_iff not_None_eq)
  then show "\<exists>r. map_of models name = Some r \<and> mr_peers r = None"
    using assms by (auto dest: map_of_SomeD)
qed

lemma map_of_singleton:
  assumes "distinct (map fst xs)" and "map_of xs = [k \<mapsto> v]"
  shows "xs = [(k, v)]"
proof -
  have s: "set xs = {(k, v)}"
    using map_of_inject_set [OF assms(1), of "[(k, v)]"] assms(2) by simp
  have "distinct xs" using assms(1) by (simp add: distinct_map)
  then have "length xs = 1" using s distinct_card [of xs] by simp
  then show ?thesis using s by (cases xs) auto
qed

section \<open>An example\<close>

definition ex_provider :: Provider where
  "ex_provider = \<lparr>pv_ID = ''p'', pv_Type = ''test'', pv_BaseURL = ''http://p'', pv_Token = ''t'', pv_Private = False,
     pv_Discovery = ''whitelist'',
     pv_Models = [\<lparr>mc_Model = ''llama'', mc_Private = False, mc_Capabilities = [], mc_Tools = []\<rparr>,
                  \<lparr>mc_Model = ''diary'', mc_Private = True, mc_Capabilities = [], mc_Tools = []\<rparr>]\<rparr>"

definition ex_env :: "Provider \<Rightarrow> fetch_env" where
  "ex_env pv = \<lparr>fe_now = 0, fe_url = None, fe_tags = Inr [], fe_ps = Inr [],
                fe_openai = Inr \<lparr>ol_Object = ''list'', ol_Data = []\<rparr>\<rparr>"

definition ex_self :: Node where "ex_self = NewPeerNode ''me'' ''self''"

definition ex_peer :: "string \<Rightarrow> Node" where "ex_peer i = NewPeerNode i ''peer''"

definition ex_router :: ModelRouter where
  "ex_router = Refresh (\<lambda>xs. xs) ex_env (NewModelDiscovery ex_self [ex_provider])"

text \<open>A route as it arrives over the wire: no providers, no peers.\<close>

definition wire_route :: "string \<Rightarrow> ModelRoute" where
  "wire_route name = \<lparr>mr_Name = name, mr_Model = name, mr_Capabilities = [], mr_ContextLength = 0, mr_Owner = [],
     mr_ModifiedAt = zero_time, mr_providers = [], mr_peers = None\<rparr>"

definition ex_shared :: ModelRouter where
  "ex_shared = AddPeerModels (\<lambda>xs. xs) (ex_peer ''b'') [(''llama'', wire_route ''llama''), (''qwen'', wire_route ''qwen'')] ex_router"

lemma ex_unused: "id_unused (\<lambda>xs. xs) ex_env ex_self [ex_provider]"
proof -
  have "map_of (snd (modelsFromWhitelist 0 ex_provider h)) ''me'' = None" for h
    using local_provs [OF whitelist_local, of 0 ex_provider h "''me''"] provs_whitelist [of 0 ex_provider h "''me''"]
    by (simp add: ex_provider_def)
  then show ?thesis
    by (simp add: id_unused_def offered_def fetch_def testFetchModels_def ex_self_def NewPeerNode_def ex_env_def split_beta)
      (simp add: ex_provider_def)
qed

lemmas ex_router_ok = Refresh_start [OF is_iter_id ex_unused, folded ex_router_def]

lemma ex_shared_ok: "router_ok ex_shared"
proof -
  have "GetModelRoute ex_router (pn_ID (ex_peer ''b'')) = None" by code_simp
  moreover have "pn_ID (ex_peer ''b'') = ''b''" by code_simp
  ultimately show ?thesis
    unfolding ex_shared_def
    using AddPeerModels_spec [OF is_iter_id _ _ _ _ wire_detached, of _ "ex_peer ''b''" ex_router] ex_router_ok
    by (simp add: wire_route_def)
qed

section \<open>Properties\<close>

text \<open>
  C12. Removing a peer takes effect in every route, although the loop works on copies: the copies
  share the peer maps. Afterwards no route of the table leads to the peer, whatever order the maps
  are visited in, and the providers and the other peers are as they were.
\<close>

theorem remove_peer_effective:
  assumes "router_ok e" and "is_iter ord" and "is_iter ord'"
  shows "router_ok (RemovePeer ord node e) \<and>
         (\<forall>name. table (RemovePeer ord node e) name =
            map_option (\<lambda>(ps, m). (ps, m(pn_ID node := None))) (table e name)) \<and>
         (\<forall>name r n. GetModelRoute (RemovePeer ord node e) name = Some r \<longrightarrow>
            GetMeshPeerRoute ord' (rt_heap (RemovePeer ord node e)) r = Some n \<longrightarrow> pn_ID n \<noteq> pn_ID node)"
proof -
  have "pn_ID n \<noteq> pn_ID node"
    if r: "GetModelRoute e name = Some r" and n: "GetMeshPeerRoute ord' (rt_heap (RemovePeer ord node e)) r = Some n"
    for name r n
  proof -
    let ?h = "rt_heap (RemovePeer ord node e)"
    obtain i where i: "map_of (peers_of ?h r) i = Some n"
      using n by (auto simp: GetMeshPeerRoute_def split: list.splits)
    have "router_ok (RemovePeer ord node e)" by (rule RemovePeer_ok [OF assms(1)])
    then have "peers_ok (peers_of ?h r)"
      using r by (auto simp: router_ok_def peers_of_def RemovePeer_frame split: option.splits)
    then have "pn_ID n = i" using i by (simp add: peers_ok_def)
    moreover have "map_of (AList.delete (pn_ID node) (peers_of (rt_heap e) r)) i = Some n"
      using i RemovePeer_peers [OF assms(2,1) r, of node] by simp
    ultimately show ?thesis by (auto simp: AList.delete_conv' split: if_splits)
  qed
  then show ?thesis using RemovePeer_ok [OF assms(1)] RemovePeer_table [OF assms(2,1)] by (simp add: RemovePeer_frame)
qed

theorem remove_peer_effective_witness:
  "table (RemovePeer (\<lambda>xs. xs) (ex_peer ''b'') ex_shared) ''qwen'' = Some ([], Map.empty)"
proof -
  have "pn_ID (ex_peer ''b'') = ''b''" by code_simp
  moreover have "map_option fst (table ex_shared ''qwen'') = Some []" by code_simp
  moreover have "map_option (\<lambda>r. peers_of (rt_heap ex_shared) r) (GetModelRoute ex_shared ''qwen'') = Some [(''b'', ex_peer ''b'')]"
    by code_simp
  ultimately show ?thesis
    using remove_peer_effective [OF ex_shared_ok is_iter_id is_iter_id, of "ex_peer ''b''"] by (auto simp: table_def)
qed

text \<open>
  C13. Adding the models a peer sent replaces their entries and leaves the rest alone, in whatever
  order the loop visits them: every announced name then has the announced providers (none, over
  the wire) and exactly this peer, provided the peer's id is not itself a model name. The entry of a model that
  the node serves itself, or that another peer announced before, is replaced as well: contrary to
  the promise of local-first routing, such a model is from then on served by this peer alone.
\<close>

theorem add_peer_models_refines:
  assumes "router_ok e" and "is_iter ord" and "distinct (map fst models)"
    and "\<forall>(k, r) \<in> set models. mr_peers r = None"
    and "pn_ID node \<notin> fst ` set models" and "GetModelRoute e (pn_ID node) = None"
  shows "router_ok (AddPeerModels ord node models e) \<and>
         table (AddPeerModels ord node models e) =
           table e ++ (\<lambda>k. map_option (\<lambda>r. (mr_providers r, [pn_ID node \<mapsto> node])) (map_of models k))"
  using AddPeerModels_spec [OF assms(2,3,5,6,1) wire_detached [OF assms(4)]] by blast

theorem add_peer_models_refines_witness:
  "table ex_shared ''llama'' = Some ([], [''b'' \<mapsto> ex_peer ''b'']) \<and> table ex_shared ''diary'' = table ex_router ''diary''"
proof -
  have "GetModelRoute ex_router (pn_ID (ex_peer ''b'')) = None" by code_simp
  moreover have "pn_ID (ex_peer ''b'') = ''b''" by code_simp
  ultimately show ?thesis
    using add_peer_models_refines [OF _ is_iter_id, of ex_router
        "[(''llama'', wire_route ''llama''), (''qwen'', wire_route ''qwen'')]" "ex_peer ''b''"] ex_router_ok
    by (simp add: wire_route_def ex_shared_def map_add_def)
qed

text \<open>
  C14. After a node has started and scanned its providers, the table is well formed and every model
  in it is served locally: it has a provider of its own, and its only peer is the node itself.
\<close>

theorem refresh_routes_local:
  assumes "is_iter ord" and "id_unused ord env node pvs" and "e = Refresh ord env (NewModelDiscovery node pvs)"
  shows "router_ok e \<and> (\<forall>k r. GetModelRoute e k = Some r \<longrightarrow>
           IsLocal r \<and> GetLocalRoute r \<noteq> None \<and> map_of (peers_of (rt_heap e) r) = [pn_ID node \<mapsto> node])"
proof -
  have loop: "router_ok e \<and> (\<forall>k ps m. table e k = Some (ps, m) \<longrightarrow> ps \<noteq> [] \<and> m = [pn_ID node \<mapsto> node])"
    using Refresh_start [OF assms(1,2)] assms(3) by simp
  have "IsLocal r \<and> GetLocalRoute r \<noteq> None \<and> map_of (peers_of (rt_heap e) r) = [pn_ID node \<mapsto> node]"
    if "GetModelRoute e k = Some r" for k r
  proof -
    have "table e k = Some (mr_providers r, map_of (peers_of (rt_heap e) r))" using that by (simp add: table_def)
    then show ?thesis using loop by (auto simp: IsLocal_def GetLocalRoute_def split: list.splits)
  qed
  then show ?thesis using loop by blast
qed

theorem refresh_routes_local_witness:
  "\<exists>r. GetModelRoute ex_router ''llama'' = Some r \<and> IsLocal r"
proof -
  have "GetModelRoute ex_router ''llama'' \<noteq> None" by code_simp
  then show ?thesis using refresh_routes_local [OF is_iter_id ex_unused ex_router_def] by blast
qed

text \<open>
  A peer shadows local models. The route is looked up under the peer's id, not under the model's
  name, so a peer that announces a model the node itself serves replaces the local route: the
  model is no longer local, is not exported any more, and is reached through that peer alone. When
  the peer then leaves, the model is gone, although its provider is still configured.
\<close>

theorem peer_shadows_local_model:
  assumes "router_ok e" and "is_iter ord" and "is_iter ord'" and "GetModelRoute e (pn_ID node) = None" and "name \<noteq> pn_ID node"
    and "GetModelRoute e name = Some r" and "IsLocal r"
    and "mr_peers w = None" and "mr_providers w = []"
  shows "\<exists>r'. GetModelRoute (AddPeerModels ord node [(name, w)] e) name = Some r' \<and> \<not> IsLocal r' \<and>
           GetPeers ord' (rt_heap (AddPeerModels ord node [(name, w)] e)) r' = [node] \<and>
           \<not> IsAvailable (rt_heap (RemovePeer ord node (AddPeerModels ord node [(name, w)] e))) r'"
proof -
  let ?e = "AddPeerModels ord node [(name, w)] e"
  have added: "router_ok ?e" "table ?e name = Some ([], [pn_ID node \<mapsto> node])"
    using AddPeerModels_spec [OF assms(2) _ _ assms(4,1) wire_detached, of "[(name, w)]"] assms(5,8,9)
    by (auto simp: map_add_def)
  then obtain r' where r': "GetModelRoute ?e name = Some r'" "mr_providers r' = []"
    "map_of (peers_of (rt_heap ?e) r') = [pn_ID node \<mapsto> node]"
    by (auto simp: table_def)
  have "peers_ok (peers_of (rt_heap ?e) r')"
    using added(1) r'(1) by (auto simp: router_ok_def peers_of_def split: option.splits)
  then have d: "distinct (map fst (peers_of (rt_heap ?e) r'))" by (simp add: peers_ok_def)
  have one: "peers_of (rt_heap ?e) r' = [(pn_ID node, node)]"
    using map_of_singleton [OF d r'(3)] .
  have "ord' [(pn_ID node, node)] = [(pn_ID node, node)]"
    using is_iter_set [OF assms(3), of "[(pn_ID node, node)]"] is_iter_length [OF assms(3), of "[(pn_ID node, node)]"]
    by (cases "ord' [(pn_ID node, node)]") auto
  then have "GetPeers ord' (rt_heap ?e) r' = [node]" using one by (simp add: GetPeers_def)
  moreover have "peers_of (rt_heap (RemovePeer ord node ?e)) r' = []"
    using RemovePeer_peers [OF assms(2) added(1) r'(1), of node] one by simp
  ultimately show ?thesis using r' by (simp add: IsLocal_def IsAvailable_def)
qed

theorem peer_shadows_local_model_witness:
  "\<exists>r r'. GetModelRoute ex_router ''llama'' = Some r \<and> IsLocal r \<and>
     GetModelRoute (AddPeerModels (\<lambda>xs. xs) (ex_peer ''b'') [(''llama'', wire_route ''llama'')] ex_router) ''llama'' = Some r' \<and>
     \<not> IsLocal r'"
proof -
  have free: "GetModelRoute ex_router (pn_ID (ex_peer ''b'')) = None" by code_simp
  have name: "''llama'' \<noteq> pn_ID (ex_peer ''b'')" by code_simp
  have "map_option IsLocal (GetModelRoute ex_router ''llama'') = Some True" by code_simp
  then obtain r where r: "GetModelRoute ex_router ''llama'' = Some r" "IsLocal r" by auto
  then show ?thesis
    using peer_shadows_local_model [OF _ is_iter_id is_iter_id free name r, of "wire_route ''llama''"] ex_router_ok
    by (auto simp: wire_route_def)
qed

text \<open>
  A whitelist yields exactly the configured models: a name has a route if and only if some entry
  names it, with one provider for each such entry in their order, and the route is private if and
  only if one of these entries is.
\<close>

theorem whitelist_exact:
  assumes "modelsFromWhitelist now pv h = (h', t)"
  shows "(map_of t k = None \<longleftrightarrow> k \<notin> mc_Model ` set (pv_Models pv)) \<and>
         (\<forall>r. map_of t k = Some r \<longrightarrow>
            mr_Name r = k \<and>
            mr_providers r = map (\<lambda>m. provider_entry (mc_Private m) pv) (filter (\<lambda>m. mc_Model m = k) (pv_Models pv)) \<and>
            (IsPrivate r \<longleftrightarrow> (\<exists>m \<in> set (pv_Models pv). mc_Model m = k \<and> mc_Private m)))"
proof -
  have l: "local_table t" using whitelist_local [of now pv h] assms by simp
  have p: "provs t k = map (\<lambda>m. provider_entry (mc_Private m) pv) (filter (\<lambda>m. mc_Model m = k) (pv_Models pv))"
    using provs_whitelist [of now pv h k] assms by simp
  have "map_of t k = None \<longleftrightarrow> k \<notin> mc_Model ` set (pv_Models pv)"
    using local_provs [OF l] p by (auto simp: filter_empty_conv)
  moreover have "mr_providers r = provs t k" if "map_of t k = Some r" for r
    using that by (simp add: provs_def)
  ultimately show ?thesis
    using l p by (auto simp: local_table_def IsPrivate_def list_ex_iff provider_entry_def)
qed

theorem whitelist_exact_witness:
  "let t = snd (modelsFromWhitelist 0 ex_provider []) in
   map_of t ''gpt'' = None \<and> map_option IsPrivate (map_of t ''diary'') = Some True"
proof -
  obtain h t where t: "modelsFromWhitelist 0 ex_provider [] = (h, t)" by fastforce
  show ?thesis
    using whitelist_exact [OF t, of "''diary''"] whitelist_exact [OF t, of "''gpt''"] t
    by (cases "map_of t ''diary''") (simp_all add: ex_provider_def)
qed

text \<open>
  Scanning an OpenAI provider ignores the privacy of its models and every discovery mode but
  the whitelist. The scan yields the listed models that are whitelisted, none at all in any other
  mode, and each of them is private exactly when the provider is: a model that the whitelist of a
  public provider marks private is exported.
\<close>

theorem openai_scan_ignores_model_privacy:
  assumes "openaiFetchModels now (Inr l) pv h = (h', Inr t)"
  shows "(k \<in> dom (map_of t) \<longleftrightarrow>
            pv_Discovery pv = ''whitelist'' \<and> k \<in> oa_ID ` set (ol_Data l) \<and> k \<in> mc_Model ` set (pv_Models pv)) \<and>
         (\<forall>r. map_of t k = Some r \<longrightarrow> IsLocal r \<and> (IsPrivate r \<longleftrightarrow> pv_Private pv))"
proof -
  obtain h1 w where w: "(if pv_Discovery pv = ''whitelist'' then modelsFromWhitelist now pv h else (h, [])) = (h1, w)"
    by fastforce
  have t: "t = snd (fold (openai_model pv w) (ol_Data l) (h1, []))"
    using assms w by (auto simp: openaiFetchModels_def split: prod.splits)
  have "provider_private pv []" by (simp add: provider_private_def)
  then have f: "provider_private pv t" "dom (map_of t) = oa_ID ` set (ol_Data l) \<inter> dom (map_of w)"
    using openai_fold [of pv "[]" w "ol_Data l" h1] t by auto
  have "map_of w k = None \<longleftrightarrow> \<not> (pv_Discovery pv = ''whitelist'' \<and> k \<in> mc_Model ` set (pv_Models pv))"
    using w local_provs [OF whitelist_local, of now pv h k] provs_whitelist [of now pv h k]
    by (auto simp: filter_empty_conv split: if_splits)
  moreover have "local_table t"
    unfolding t by (rule fold_local) (rule local_steps local_Nil; assumption?)+
  moreover have "IsLocal r \<and> (IsPrivate r \<longleftrightarrow> pv_Private pv)" if "map_of t k = Some r" for r
  proof -
    have ps: "mr_providers r \<noteq> []" "\<forall>p \<in> set (mr_providers r). mp_Private p = pv_Private pv"
      using calculation(2) f(1) that by (auto simp: local_table_def provider_private_def)
    then show ?thesis by (cases "mr_providers r") (auto simp: IsLocal_def IsPrivate_def list_ex_iff)
  qed
  ultimately show ?thesis using f(2) by (auto simp: domIff)
qed

theorem openai_scan_ignores_model_privacy_witness:
  "let l = \<lparr>ol_Object = ''list'', ol_Data = [\<lparr>oa_ID = ''diary'', oa_Object = ''model'', oa_Created = 0, oa_OwnedBy = [],
              oa_ContextLength = 0, oa_LongContextThreshold = 0\<rparr>]\<rparr>
   in \<exists>h t r. openaiFetchModels 0 (Inr l) ex_provider [] = (h, Inr t) \<and> map_of t ''diary'' = Some r \<and> \<not> IsPrivate r"
proof -
  let ?l = "\<lparr>ol_Object = ''list'', ol_Data = [\<lparr>oa_ID = ''diary'', oa_Object = ''model'', oa_Created = 0, oa_OwnedBy = [],
              oa_ContextLength = 0, oa_LongContextThreshold = 0\<rparr>]\<rparr>"
  have "\<exists>t. snd (openaiFetchModels 0 (Inr ?l) ex_provider []) = Inr t"
    by (simp add: openaiFetchModels_def split_beta)
  then obtain h t where t: "openaiFetchModels 0 (Inr ?l) ex_provider [] = (h, Inr t)"
    by (metis prod.collapse)
  then have "''diary'' \<in> dom (map_of t)"
    using openai_scan_ignores_model_privacy [OF t, of "''diary''"] by (simp add: ex_provider_def)
  then show ?thesis
    using openai_scan_ignores_model_privacy [OF t, of "''diary''"] t by (auto simp: ex_provider_def)
qed

end
