(* ===== verification/ProxyNode.thy ===== *)
theory ProxyNode
  imports RouterProperties
begin

text \<open>
  The proxy of a node: \<open>pkg/proxy/proxy.go\<close>, \<open>client.go\<close>, \<open>handlers.go\<close>, \<open>handlers_*.go\<close> and
  \<open>rpc.go\<close>. \<open>ServeHTTP\<close> answers local clients, \<open>MeshServeHTTP\<close> answers peers.
  A handler's result \<open>answer\<close> says what is sent or to whom the request is forwarded, together with
  the calls made to the admin server. \<open>px_env\<close> holds what the code gets from outside: the JSON
  decoder's view of a body, URL parsing, the orders of map iterations, the mesh service, and the
  retry package.
\<close>

section \<open>Data\<close>

record PeerConnectionDetails =
  pc_PeerID :: string
  pc_PeerName :: string
  pc_Kind :: string
  pc_RemoteAddress :: string
  pc_LocalAddress :: string
  pc_Direction :: string
  pc_Security :: string
  pc_Multiplexer :: string
  pc_StreamCount :: int
  pc_Streams :: "string list"

record MeshInfo =
  mi_AdvertisedAddresses :: "string list"
  mi_Connections :: "PeerConnectionDetails list"

record NodeStatus =
  ns_Name :: string
  ns_PeerID :: string
  ns_Type :: string
  ns_Reachable :: bool
  ns_Models :: "string list"
  ns_Mesh :: "MeshInfo option"

text \<open>
  A \<open>ModelRoute\<close> on the wire: the encoder skips the unexported fields \<open>providers\<close> and \<open>peers\<close>, the
  decoder leaves them nil.
\<close>

record WireModel =
  wm_Name :: string
  wm_Model :: string
  wm_Capabilities :: "string list"
  wm_ContextLength :: int
  wm_Owner :: string
  wm_ModifiedAt :: gotime

definition encode_route :: "ModelRoute \<Rightarrow> WireModel" where
  "encode_route r =
     \<lparr>wm_Name = mr_Name r, wm_Model = mr_Model r, wm_Capabilities = mr_Capabilities r,
      wm_ContextLength = mr_ContextLength r, wm_Owner = mr_Owner r, wm_ModifiedAt = mr_ModifiedAt r\<rparr>"

definition decode_route :: "WireModel \<Rightarrow> ModelRoute" where
  "decode_route w =
     \<lparr>mr_Name = wm_Name w, mr_Model = wm_Model w, mr_Capabilities = wm_Capabilities w,
      mr_ContextLength = wm_ContextLength w, mr_Owner = wm_Owner w, mr_ModifiedAt = wm_ModifiedAt w,
      mr_providers = [], mr_peers = None\<rparr>"

record UIModel =
  um_Name :: string
  um_Model :: string
  um_Private :: bool
  um_Owner :: string
  um_ModifiedAt :: gotime
  um_ContextLength :: int
  um_Capabilities :: "string list"
  um_Providers :: "Node list"

text \<open>Calls to the admin server and what they return.\<close>

datatype admin_call =
    CallCreateInvite CreateInviteRequest
  | CallListInvites
  | CallDeleteInvite string
  | CallListNodes
  | CallKickPeer string

datatype proxy_reply =
    StatusReply NodeStatus
  | MembersReply "NodeStatus list"
  | ModelsReply "WireModel list"
  | OpenaiReply OpenaiModelList
  | UIModelsReply "UIModel list"
  | UIConfigReply string string
  | EnabledReply bool
  | AdminReply reply

datatype answer =
    HttpError int string
  | ForwardLocal string "string option" string
  | ForwardPeer Node string
  | ReplyJson proxy_reply
  | Redirect string int
  | ServeFile string
  | Upgrade

text \<open>A request: \<open>pr_body\<close> is the bytes of the body and the error reading them ends with, if any.\<close>

record proxy_request =
  pr_method :: string
  pr_path :: string
  pr_mesh :: bool
  pr_body :: "string \<times> goerr option"
  pr_invite :: "CreateInviteRequest option"

record px_env =
  pe_peek :: "string \<Rightarrow> string option"
  pe_url_ok :: "string \<Rightarrow> bool"
  pe_routes :: "routes_map \<Rightarrow> routes_map"
  pe_peers :: "peers \<Rightarrow> peers"
  pe_node :: Node
  pe_peer_map :: "(string \<times> Node) list result"
  pe_mesh_info :: "Node \<Rightarrow> MeshInfo option"
  pe_models :: "Node \<Rightarrow> nat \<Rightarrow> WireModel list result"
  pe_status :: "Node \<Rightarrow> NodeStatus \<times> goerr option"
  pe_retry :: "(nat \<Rightarrow> routes_map result) \<Rightarrow> routes_map result"
  pe_config :: "string result"

record Proxy =
  px_listen :: string
  px_cid :: uint64
  px_router :: ModelRouter
  px_admin :: "(admin_call \<Rightarrow> reply result) option"
  px_broadcasts :: nat

section \<open>Serving a model request\<close>

definition maxBody :: nat where
  "maxBody = 8 * 2 ^ 20"

text \<open>\<open>io.ReadAll\<close> of an \<open>io.LimitReader\<close>: an error past the limit is never seen.\<close>

definition read_limited :: "nat \<Rightarrow> string \<times> goerr option \<Rightarrow> string result" where
  "read_limited n b =
     (if n \<le> length (fst b) then Inr (take n (fst b))
      else (case snd b of Some e \<Rightarrow> Inl e | None \<Rightarrow> Inr (fst b)))"

text \<open>\<open>ToLower\<close> changes the ASCII letters of the name; the code also lowers the other letters of Unicode.\<close>

definition peekModel :: "px_env \<Rightarrow> string \<Rightarrow> string" where
  "peekModel E body = (case pe_peek E body of None \<Rightarrow> [] | Some m \<Rightarrow> TrimPrefix (ToLower m) [])"

definition proxyModelRequest :: "px_env \<Rightarrow> Proxy \<Rightarrow> proxy_request \<Rightarrow> bool \<Rightarrow> answer" where
  "proxyModelRequest E p r noRelay =
     (case read_limited (maxBody + 1) (pr_body r) of
        Inl e \<Rightarrow> HttpError StatusBadRequest ''failed to read body''
      | Inr body \<Rightarrow>
          (case GetModelRoute (px_router p) (peekModel E body) of
             None \<Rightarrow> HttpError StatusNotFound ''model not found''
           | Some route \<Rightarrow>
               (case GetLocalRoute route of
                  Some l \<Rightarrow>
                    if \<not> pe_url_ok E (lr_BaseURL l) then HttpError StatusNotFound ''model not found''
                    else ForwardLocal (lr_BaseURL l)
                           (if lr_Token l \<noteq> [] then Some (''Bearer '' @ lr_Token l) else None) body
                | None \<Rightarrow>
                    if noRelay then HttpError StatusNotFound ''model not found''
                    else (case GetMeshPeerRoute (pe_peers E) (rt_heap (px_router p)) route of
                            None \<Rightarrow> HttpError StatusNotFound ''no model available''
                          | Some n \<Rightarrow> ForwardPeer n body))))"

section \<open>Handlers\<close>

definition openaiListModelsHandler :: "px_env \<Rightarrow> Proxy \<Rightarrow> proxy_request \<Rightarrow> answer" where
  "openaiListModelsHandler E p r =
     (if pr_mesh r then HttpError StatusInternalServerError ''we should not see this rpc over the mesh network''
      else ReplyJson (OpenaiReply \<lparr>ol_Object = ''list'',
             ol_Data = map (\<lambda>m. \<lparr>oa_ID = mr_Name m, oa_Object = ''model'', oa_Created = 0, oa_OwnedBy = ''ollama'',
                                 oa_ContextLength = 0, oa_LongContextThreshold = 0\<rparr>)
                         (ListMeshModels (pe_routes E) (px_router p))\<rparr>))"

definition meshStatus :: "px_env \<Rightarrow> Proxy \<Rightarrow> answer" where
  "meshStatus E p =
     ReplyJson (StatusReply \<lparr>ns_Name = pn_Name (pe_node E), ns_PeerID = pn_ID (pe_node E), ns_Type = [],
       ns_Reachable = True, ns_Models = ListModels (pe_routes E) (px_router p),
       ns_Mesh = pe_mesh_info E (pe_node E)\<rparr>)"

text \<open>The status of one member, with the connections' peers named.\<close>

definition name_connections :: "(string \<times> Node) list \<Rightarrow> NodeStatus \<Rightarrow> NodeStatus" where
  "name_connections peers status =
     (case ns_Mesh status of
        None \<Rightarrow> status
      | Some info \<Rightarrow>
          status\<lparr>ns_Mesh := Some (info\<lparr>mi_Connections :=
            map (\<lambda>c. case map_of peers (pc_PeerID c) of None \<Rightarrow> c | Some n \<Rightarrow> c\<lparr>pc_PeerName := pn_Name n\<rparr>)
              (mi_Connections info)\<rparr>)\<rparr>)"

definition member_status :: "px_env \<Rightarrow> Proxy \<Rightarrow> Node \<Rightarrow> NodeStatus" where
  "member_status E p peer =
     (if pn_ID peer = pn_ID (pe_node E) then
        \<lparr>ns_Name = pn_Name peer, ns_PeerID = pn_ID (pe_node E), ns_Type = ''self'', ns_Reachable = True,
         ns_Models = ListModels (pe_routes E) (px_router p), ns_Mesh = pe_mesh_info E peer\<rparr>
      else
        (let (status, err) = pe_status E peer;
             status1 = (if err \<noteq> None
                        then status\<lparr>ns_PeerID := pn_ID peer, ns_Name := pn_Name peer, ns_Reachable := False\<rparr>
                        else status)
         in status1\<lparr>ns_Type := ''peer''\<rparr>))"

definition meshMembers :: "px_env \<Rightarrow> Proxy \<Rightarrow> answer" where
  "meshMembers E p =
     (case pe_peer_map E of
        Inl e \<Rightarrow> HttpError StatusInternalServerError (Error_string e)
      | Inr peers \<Rightarrow>
          ReplyJson (MembersReply (map (\<lambda>(i, peer). name_connections peers (member_status E p peer)) peers)))"

definition meshModels :: "px_env \<Rightarrow> Proxy \<Rightarrow> answer" where
  "meshModels E p = ReplyJson (ModelsReply (map encode_route (ListExportedModels (pe_routes E) (px_router p))))"

definition ui_model :: "px_env \<Rightarrow> Proxy \<Rightarrow> ModelRoute \<Rightarrow> UIModel" where
  "ui_model E p route =
     \<lparr>um_Name = mr_Name route, um_Model = mr_Model route, um_Private = IsPrivate route, um_Owner = mr_Owner route,
      um_ModifiedAt = mr_ModifiedAt route, um_ContextLength = mr_ContextLength route,
      um_Capabilities = mr_Capabilities route,
      um_Providers = GetPeers (pe_peers E) (rt_heap (px_router p)) route\<rparr>"

definition uiModelsHandler :: "px_env \<Rightarrow> Proxy \<Rightarrow> answer" where
  "uiModelsHandler E p =
     ReplyJson (UIModelsReply (sort_key um_Name (map (ui_model E p) (ListMeshModels (pe_routes E) (px_router p)))))"

definition uiConfigHandler :: "px_env \<Rightarrow> answer" where
  "uiConfigHandler E =
     (case pe_config E of
        Inl e \<Rightarrow> HttpError StatusNotFound (Error_string e)
      | Inr content \<Rightarrow> ReplyJson (UIConfigReply ''config.yaml'' content))"

definition uiRootHandler :: answer where
  "uiRootHandler = Redirect ''/ui/'' StatusTemporaryRedirect"

definition uiHandler :: answer where
  "uiHandler = Redirect ''/ui/'' StatusTemporaryRedirect"

subsection \<open>The admin handlers\<close>

text \<open>A handler of the \<open>/api/admin\<close> group returns its reply or error and the calls it made.\<close>

definition withAdmin ::
  "Proxy \<Rightarrow> ((admin_call \<Rightarrow> reply result) \<Rightarrow> proxy_reply result \<times> admin_call list) \<Rightarrow> proxy_reply result \<times> admin_call list" where
  "withAdmin p fn =
     (case px_admin p of
        None \<Rightarrow> (Inl (ApiErr StatusServiceUnavailable ''admin not enabled''), [])
      | Some admin \<Rightarrow> fn admin)"

definition proxy_handle :: "proxy_reply result \<times> admin_call list \<Rightarrow> answer \<times> admin_call list" where
  "proxy_handle x =
     (case fst x of
        Inr v \<Rightarrow> ReplyJson v
      | Inl (ApiErr c m) \<Rightarrow> HttpError c m
      | Inl e \<Rightarrow> HttpError StatusInternalServerError (Error_string e), snd x)"

definition adminEnabledHandler :: "(admin_call \<Rightarrow> reply result) \<Rightarrow> proxy_reply result \<times> admin_call list" where
  "adminEnabledHandler admin = (Inr (EnabledReply True), [])"

definition pass_on :: "(admin_call \<Rightarrow> reply result) \<Rightarrow> admin_call \<Rightarrow> proxy_reply result \<times> admin_call list" where
  "pass_on admin call =
     (case admin call of Inl e \<Rightarrow> Inl e | Inr v \<Rightarrow> Inr (AdminReply v), [call])"

definition adminCreateInvitedHandler ::
  "CreateInviteRequest option \<Rightarrow> (admin_call \<Rightarrow> reply result) \<Rightarrow> proxy_reply result \<times> admin_call list" where
  "adminCreateInvitedHandler body admin =
     (case body of
        None \<Rightarrow> (Inl (ApiErr StatusBadRequest ''bad request''), [])
      | Some req \<Rightarrow>
          pass_on admin (CallCreateInvite (if ci_MeshId req = [] then req\<lparr>ci_MeshId := ''default''\<rparr> else req)))"

definition adminListInvitesHandler :: "(admin_call \<Rightarrow> reply result) \<Rightarrow> proxy_reply result \<times> admin_call list" where
  "adminListInvitesHandler admin = pass_on admin CallListInvites"

definition adminRevokeInviteHandler :: "string \<Rightarrow> (admin_call \<Rightarrow> reply result) \<Rightarrow> proxy_reply result \<times> admin_call list" where
  "adminRevokeInviteHandler i admin =
     (if i = [] then (Inl (ApiErr StatusBadRequest ''invite id is required''), [])
      else (case admin (CallDeleteInvite i) of
              Inl e \<Rightarrow> (Inl e, [CallDeleteInvite i])
            | Inr _ \<Rightarrow> (Inr (AdminReply (ReplyDeleted i)), [CallDeleteInvite i])))"

definition adminListNodesHandler :: "(admin_call \<Rightarrow> reply result) \<Rightarrow> proxy_reply result \<times> admin_call list" where
  "adminListNodesHandler admin = pass_on admin CallListNodes"

definition adminKickNodeHandler :: "string \<Rightarrow> (admin_call \<Rightarrow> reply result) \<Rightarrow> proxy_reply result \<times> admin_call list" where
  "adminKickNodeHandler i admin =
     (if i = [] then (Inl (ApiErr StatusBadRequest ''node id is required''), [])
      else (case admin (CallKickPeer i) of
              Inl e \<Rightarrow> (Inl e, [CallKickPeer i])
            | Inr _ \<Rightarrow> (Inr (AdminReply (ReplyDeleted i)), [CallKickPeer i])))"

section \<open>Routing\<close>

abbreviation slash_path :: "string \<Rightarrow> string list" where
  "slash_path path \<equiv> Split (CHR ''/'') path"

definition px_get :: "proxy_request \<Rightarrow> bool" where
  "px_get r \<longleftrightarrow> pr_method r = ''GET'' \<or> pr_method r = ''HEAD''"

text \<open>The table \<open>NewProxy\<close> registers on its mux, most specific pattern first.\<close>

definition mux :: "px_env \<Rightarrow> Proxy \<Rightarrow> proxy_request \<Rightarrow> answer \<times> admin_call list" where
  "mux E p r =
     (let path = pr_path r; seg = slash_path path; i = last seg in
      if px_get r \<and> path = ''/v1/models'' then (openaiListModelsHandler E p r, [])
      else if px_get r \<and> path = ''/.mesh/status'' then (meshStatus E p, [])
      else if px_get r \<and> path = ''/.mesh/members'' then (meshMembers E p, [])
      else if px_get r \<and> path = ''/.mesh/models'' then (meshModels E p, [])
      else if px_get r \<and> path = ''/api/mesh/models'' then (uiModelsHandler E p, [])
      else if px_get r \<and> path = ''/api/mesh/members'' then (meshMembers E p, [])
      else if px_get r \<and> path = ''/api/mesh/config'' then (uiConfigHandler E, [])
      else if px_get r \<and> path = ''/api/admin/enabled'' then proxy_handle (withAdmin p adminEnabledHandler)
      else if pr_method r = ''POST'' \<and> path = ''/api/admin/invite'' then
        proxy_handle (withAdmin p (adminCreateInvitedHandler (pr_invite r)))
      else if px_get r \<and> path = ''/api/admin/invite'' then proxy_handle (withAdmin p adminListInvitesHandler)
      else if pr_method r = ''DELETE'' \<and> length seg = 5 \<and> take 4 seg = slash_path ''/api/admin/invite'' \<and> i \<noteq> [] then
        proxy_handle (withAdmin p (adminRevokeInviteHandler i))
      else if px_get r \<and> path = ''/api/admin/node'' then proxy_handle (withAdmin p adminListNodesHandler)
      else if pr_method r = ''DELETE'' \<and> length seg = 5 \<and> take 4 seg = slash_path ''/api/admin/node'' \<and> i \<noteq> [] then
        proxy_handle (withAdmin p (adminKickNodeHandler i))
      else if px_get r \<and> path = ''/'' then (uiRootHandler, [])
      else if px_get r \<and> path = ''/ui'' then (uiHandler, [])
      else if path = ''/api/v.1/refresh/websocket'' then (Upgrade, [])
      else if px_get r \<and> prefix ''/ui/'' path then (ServeFile (TrimPrefix path ''/ui/''), [])
      else (HttpError StatusNotFound ''Custom 404: The page you are looking for does not exist.'', []))"

definition ServeHTTP :: "px_env \<Rightarrow> proxy_request \<Rightarrow> Proxy \<Rightarrow> (answer \<times> admin_call list) \<times> Proxy" where
  "ServeHTTP E r p =
     (let p1 = p\<lparr>px_cid := px_cid p + 1\<rparr> in
      (if pr_path r = ''/api/chat'' \<or> pr_path r = ''/v1/chat/completions'' \<or> pr_path r = ''/v1/responses''
       then (proxyModelRequest E p1 r False, [])
       else mux E p1 r, p1))"

definition proxyHandleURLS :: "string list" where
  "proxyHandleURLS = [''/v1/chat/completions'', ''/v1/responses'', ''/v1/embeddings'', ''/v1/messages'']"

definition MeshServeHTTP :: "px_env \<Rightarrow> proxy_request \<Rightarrow> Proxy \<Rightarrow> (answer \<times> admin_call list) \<times> Proxy" where
  "MeshServeHTTP E r p =
     (let p1 = p\<lparr>px_cid := px_cid p + 1\<rparr> in
      (if pr_path r \<in> set proxyHandleURLS then (proxyModelRequest E p1 r True, [])
       else mux E p1 r, p1))"

section \<open>Peer updates and construction\<close>

definition GetModelsMesh :: "WireModel list result \<Rightarrow> routes_map result" where
  "GetModelsMesh resp =
     (case resp of
        Inl e \<Rightarrow> Inl e
      | Inr ms \<Rightarrow> Inr (fold (\<lambda>w. AList.update (wm_Name w) (decode_route w)) ms []))"

definition OnPeerUpdate :: "px_env \<Rightarrow> Node \<Rightarrow> bool \<Rightarrow> Proxy \<Rightarrow> goerr option \<times> Proxy" where
  "OnPeerUpdate E peer remove p =
     (if remove then
        (None, p\<lparr>px_router := RemovePeer (pe_routes E) peer (px_router p), px_broadcasts := px_broadcasts p + 1\<rparr>)
      else
        (let p1 = p\<lparr>px_broadcasts := px_broadcasts p + 1\<rparr> in
         (case pe_retry E (\<lambda>k. GetModelsMesh (pe_models E peer k)) of
            Inl e \<Rightarrow> (Some e, p1)
          | Inr models \<Rightarrow>
              (None, p1\<lparr>px_router := AddPeerModels (pe_routes E) peer models (px_router p1),
                        px_broadcasts := px_broadcasts p1 + 1\<rparr>))))"

definition WithAdminController :: "(admin_call \<Rightarrow> reply result) \<Rightarrow> Proxy \<Rightarrow> Proxy" where
  "WithAdminController admin p = p\<lparr>px_admin := Some admin\<rparr>"

definition NewProxy :: "px_env \<Rightarrow> (Provider \<Rightarrow> fetch_env) \<Rightarrow> string \<Rightarrow> Provider list \<Rightarrow> Proxy" where
  "NewProxy E env listen providers =
     \<lparr>px_listen = listen, px_cid = 0,
      px_router = Refresh (pe_routes E) env (NewModelDiscovery (pe_node E) providers),
      px_admin = None, px_broadcasts = 0\<rparr>"

end
