(* ===== verification/ProxyProperties.thy ===== *)
theory ProxyProperties
  imports ProxyNode
begin

text \<open>
  What the proxy guarantees: where a request ends up, what peers can ask of a node, and the contract
  \<open>peer_sink\<close> of the update handler that discovery drives.
\<close>

section \<open>Lemmas on routing\<close>

lemma if_answer: "P x \<Longrightarrow> P y \<Longrightarrow> P (if c then x else y)"
  by simp

definition is_forward :: "answer \<Rightarrow> bool" where
  "is_forward a \<longleftrightarrow> (case a of ForwardLocal u t b \<Rightarrow> True | ForwardPeer n b \<Rightarrow> True | _ \<Rightarrow> False)"

lemmas handler_defs = openaiListModelsHandler_def meshStatus_def meshMembers_def meshModels_def uiModelsHandler_def
  uiConfigHandler_def uiRootHandler_def uiHandler_def

lemma proxy_handle_answer: "\<not> is_forward (fst (proxy_handle x))"
  by (simp add: proxy_handle_def is_forward_def split: sum.splits goerr.splits)

lemma mux_answers: "\<not> is_forward (fst (mux E p r))"
  unfolding mux_def Let_def
  by (intro if_answer [where P = "\<lambda>x. \<not> is_forward (fst x)"] proxy_handle_answer)
    (simp_all add: handler_defs is_forward_def split: sum.splits)

lemma no_relay: "proxyModelRequest E p r True \<noteq> ForwardPeer n b"
  by (simp add: proxyModelRequest_def split: sum.splits option.splits)

definition model_path :: "string \<Rightarrow> bool" where
  "model_path path \<longleftrightarrow> path = ''/api/chat'' \<or> path = ''/v1/chat/completions'' \<or> path = ''/v1/responses''"

lemma ServeHTTP_model:
  "model_path (pr_path r) \<Longrightarrow> fst (fst (ServeHTTP E r p)) = proxyModelRequest E (p\<lparr>px_cid := px_cid p + 1\<rparr>) r False"
  by (simp add: ServeHTTP_def model_path_def Let_def)

lemma request_cid [simp]: "proxyModelRequest E (p\<lparr>px_cid := c\<rparr>) r b = proxyModelRequest E p r b"
  by (simp add: proxyModelRequest_def split: sum.splits option.splits)

lemma request_body:
  assumes "pr_body r = (body, None)" and "length body \<le> maxBody"
  shows "read_limited (maxBody + 1) (pr_body r) = Inr body"
  using assms by (simp add: read_limited_def)

lemma request_local:
  assumes "pr_body r = (body, None)" and "length body \<le> maxBody"
    and "GetModelRoute (px_router p) (peekModel E body) = Some route" and "mr_providers route = pv # pvs"
    and "pe_url_ok E (mp_BaseURL pv)"
  shows "proxyModelRequest E p r b = ForwardLocal (mp_BaseURL pv)
           (if mp_Token pv \<noteq> [] then Some (''Bearer '' @ mp_Token pv) else None) body"
  unfolding proxyModelRequest_def request_body [OF assms(1,2)] using assms(3-5) by (simp add: GetLocalRoute_def)

section \<open>Peers' models\<close>

lemma GetModelsMesh_wire:
  assumes "GetModelsMesh resp = Inr models"
  shows "distinct (map fst models)" and "map_of models k = Some r \<Longrightarrow> mr_peers r = None \<and> mr_providers r = []"
proof -
  obtain ms where ms: "models = fold (\<lambda>w. AList.update (wm_Name w) (decode_route w)) ms []"
    using assms by (auto simp: GetModelsMesh_def split: sum.splits)
  have "distinct (map fst (fold (\<lambda>w. AList.update (wm_Name w) (decode_route w)) ms t))"
    if "distinct (map fst t)" for t
    using that by (induction ms arbitrary: t) (simp_all add: distinct_update)
  then show "distinct (map fst models)" using ms by simp
  have wire: "\<forall>k r. map_of t k = Some r \<longrightarrow> mr_peers r = None \<and> mr_providers r = [] \<Longrightarrow>
      map_of (fold (\<lambda>w. AList.update (wm_Name w) (decode_route w)) ms t) k = Some r \<Longrightarrow>
      mr_peers r = None \<and> mr_providers r = []" for t
  proof (induction ms arbitrary: t)
    case (Cons w ms)
    have "\<forall>k r. map_of (AList.update (wm_Name w) (decode_route w) t) k = Some r \<longrightarrow> mr_peers r = None \<and> mr_providers r = []"
      using Cons.prems(1) by (auto simp: AList.update_conv' decode_route_def)
    then show ?case using Cons.IH Cons.prems(2) by simp
  qed simp
  show "mr_peers r = None \<and> mr_providers r = []" if "map_of models k = Some r"
    using wire [of "[]"] that ms by simp
qed

lemma wire_set:
  assumes "GetModelsMesh resp = Inr models"
  shows "\<forall>(k, r) \<in> set models. mr_peers r = None"
  using GetModelsMesh_wire [OF assms] by (auto dest!: map_of_is_SomeI)

text \<open>Adding models keeps the table well formed, also when the peer's id is the name of a model.\<close>

definition linked :: "ModelRouter \<Rightarrow> string \<Rightarrow> bool" where
  "linked e i \<longleftrightarrow> (\<exists>name r. GetModelRoute e name = Some r \<and> i \<in> dom (map_of (peers_of (rt_heap e) r)))"

lemma AddPeer_ok:
  assumes "\<forall>p < length h. peers_ok (h ! p)" and "\<forall>p. mr_peers r = Some p \<longrightarrow> p < length h"
    and "AddPeer h r node = (h', r')"
  shows "\<forall>p < length h'. peers_ok (h' ! p)" and "length h \<le> length h'" and "\<forall>p. mr_peers r' = Some p \<longrightarrow> p < length h'"
    and "dom (map_of (peers_of h' r')) = insert (pn_ID node) (dom (map_of (peers_of h r)))"
    and "\<forall>r2. (\<forall>p. mr_peers r2 = Some p \<longrightarrow> p < length h) \<longrightarrow>
           dom (map_of (peers_of h' r2)) \<subseteq> insert (pn_ID node) (dom (map_of (peers_of h r2)))"
proof -
  show "\<forall>p < length h'. peers_ok (h' ! p)" "length h \<le> length h'" "\<forall>p. mr_peers r' = Some p \<longrightarrow> p < length h'"
    using assms
    by (auto simp: AddPeer_def nth_append nth_list_update peers_ok_update peers_ok_def [of "[_]"] less_Suc_eq
        split: option.splits)
  show "dom (map_of (peers_of h' r')) = insert (pn_ID node) (dom (map_of (peers_of h r)))"
    using assms(2,3) by (auto simp: AddPeer_def peers_of_def AList.update_conv' nth_append split: option.splits if_splits)
  show "\<forall>r2. (\<forall>p. mr_peers r2 = Some p \<longrightarrow> p < length h) \<longrightarrow>
      dom (map_of (peers_of h' r2)) \<subseteq> insert (pn_ID node) (dom (map_of (peers_of h r2)))"
    using assms(2,3)
    by (auto simp: AddPeer_def peers_of_def AList.update_conv' nth_append nth_list_update split: option.splits if_splits)
qed

lemma add_peer_model_any:
  assumes "router_ok e" and "map_of models name = Some r" and "mr_peers r = None"
  shows "router_ok (add_peer_model node models name e)"
    and "linked (add_peer_model node models name e) i \<Longrightarrow> i = pn_ID node \<or> linked e i"
proof -
  let ?route = "case map_of (rt_MeshModels e) (pn_ID node) of Some r \<Rightarrow> r | None \<Rightarrow> the (map_of models name)"
  obtain h' r' where add: "AddPeer (rt_heap e) ?route node = (h', r')" by fastforce
  let ?e = "e\<lparr>rt_heap := h', rt_MeshModels := AList.update name r' (rt_MeshModels e)\<rparr>"
  have e': "add_peer_model node models name e = ?e" using add by (simp add: add_peer_model_def)
  have ptr: "\<forall>p. mr_peers ?route = Some p \<longrightarrow> p < length (rt_heap e)"
    using assms by (auto simp: router_ok_def GetModelRoute_def split: option.splits)
  have heap: "\<forall>p < length (rt_heap e). peers_ok (rt_heap e ! p)" using assms(1) by (simp add: router_ok_def)
  note ok = AddPeer_ok [OF heap ptr add]
  note look = GetModelRoute_put [where e = e and h' = h' and name = name and r' = r']
  have old: "\<forall>p. mr_peers r2 = Some p \<longrightarrow> p < length (rt_heap e)" if "GetModelRoute e k = Some r2" for k r2
    using assms(1) that by (auto simp: router_ok_def)
  show "router_ok (add_peer_model node models name e)"
    unfolding e' using ok(1,2,3) by (intro router_ok_put [OF assms(1)])
  assume "linked (add_peer_model node models name e) i"
  then obtain k r2 where k: "GetModelRoute ?e k = Some r2" "i \<in> dom (map_of (peers_of h' r2))"
    unfolding e' linked_def by auto
  show "i = pn_ID node \<or> linked e i"
  proof (cases "k = name")
    case True
    then have "i = pn_ID node \<or> i \<in> dom (map_of (peers_of (rt_heap e) ?route))" using k look [of k] ok(4) by auto
    moreover have "linked e i" if "i \<in> dom (map_of (peers_of (rt_heap e) ?route))"
    proof (cases "map_of (rt_MeshModels e) (pn_ID node)")
      case None
      then show ?thesis using that assms(2,3) by (simp add: peers_of_def)
    next
      case (Some r3)
      then show ?thesis using that unfolding linked_def GetModelRoute_def by auto
    qed
    ultimately show ?thesis by blast
  next
    case False
    then have g: "GetModelRoute e k = Some r2" using k(1) look [of k] by simp
    then have "dom (map_of (peers_of h' r2)) \<subseteq> insert (pn_ID node) (dom (map_of (peers_of (rt_heap e) r2)))"
      using ok(5) old [OF g] by blast
    then show ?thesis using k(2) g unfolding linked_def by blast
  qed
qed

lemma add_any_loop:
  assumes "\<forall>(k, r) \<in> set xs. map_of models k = Some r \<and> mr_peers r = None"
  shows "router_ok e \<Longrightarrow> router_ok (fold (\<lambda>(name, r). add_peer_model node models name) xs e) \<and>
    (linked (fold (\<lambda>(name, r). add_peer_model node models name) xs e) i \<longrightarrow> i = pn_ID node \<or> linked e i)"
  using assms
proof (induction xs arbitrary: e)
  case (Cons x xs)
  obtain k r where x: "x = (k, r)" by (cases x)
  have r: "map_of models k = Some r" "mr_peers r = None" using Cons.prems(2) x by auto
  have "router_ok (add_peer_model node models k e)" by (rule add_peer_model_any(1) [OF Cons.prems(1) r])
  then show ?case
    using Cons.IH [of "add_peer_model node models k e"] Cons.prems(2) add_peer_model_any(2) [OF Cons.prems(1) r, of node i] x
    by auto
qed simp

lemma AddPeerModels_any:
  assumes "is_iter ord" and "router_ok e" and "distinct (map fst models)" and "\<forall>(k, r) \<in> set models. mr_peers r = None"
  shows "router_ok (AddPeerModels ord node models e)"
    and "linked (AddPeerModels ord node models e) i \<Longrightarrow> i = pn_ID node \<or> linked e i"
proof -
  have "\<forall>(k, r) \<in> set (ord models). map_of models k = Some r \<and> mr_peers r = None"
    using assms(3,4) is_iter_set [OF assms(1)] by auto
  then show "router_ok (AddPeerModels ord node models e)"
    "linked (AddPeerModels ord node models e) i \<Longrightarrow> i = pn_ID node \<or> linked e i"
    using add_any_loop [OF _ assms(2)] by (auto simp: AddPeerModels_def)
qed

lemma RemovePeer_linked:
  assumes "is_iter ord" and "router_ok e"
  shows "linked (RemovePeer ord node e) i \<longleftrightarrow> i \<noteq> pn_ID node \<and> linked e i"
proof -
  have "dom (map_of (peers_of (rt_heap (RemovePeer ord node e)) r)) =
      dom (map_of (peers_of (rt_heap e) r)) - {pn_ID node}" if "GetModelRoute e name = Some r" for name r
    unfolding RemovePeer_peers [OF assms that] AList.delete_conv' by auto
  then show ?thesis unfolding linked_def RemovePeer_frame by blast
qed

section \<open>The contract of the update handler\<close>

text \<open>
  What discovery relies on when it reports peers to a handler: removal never fails and takes the peer
  out, and a report about one peer links no other.
\<close>

locale peer_sink =
  fixes handle :: "Node \<Rightarrow> bool \<Rightarrow> 's \<Rightarrow> goerr option \<times> 's"
    and inv :: "'s \<Rightarrow> bool"
    and link :: "'s \<Rightarrow> string \<Rightarrow> bool"
  assumes keeps_inv: "inv s \<Longrightarrow> inv (snd (handle n b s))"
    and removal_ok: "inv s \<Longrightarrow> fst (handle n True s) = None"
    and removal_unlinks: "inv s \<Longrightarrow> \<not> link (snd (handle n True s)) (pn_ID n)"
    and no_other: "inv s \<Longrightarrow> link (snd (handle n b s)) i \<Longrightarrow> i = pn_ID n \<or> link s i"
begin

lemma run_inv: "inv s \<Longrightarrow> inv (fold (\<lambda>(n, b) s. snd (handle n b s)) reports s)"
proof (induction reports arbitrary: s)
  case (Cons x xs)
  then show ?case using keeps_inv by (cases x) simp
qed simp

text \<open>A peer that is linked after a series of reports was linked before or reported as present.\<close>

lemma run_links:
  "inv s \<Longrightarrow> link (fold (\<lambda>(n, b) s. snd (handle n b s)) reports s) i \<Longrightarrow>
     link s i \<or> (\<exists>n. (n, False) \<in> set reports \<and> pn_ID n = i)"
proof (induction reports arbitrary: s)
  case (Cons x xs)
  obtain n b where x: "x = (n, b)" by (cases x)
  let ?s = "snd (handle n b s)"
  have "link ?s i \<or> (\<exists>n. (n, False) \<in> set xs \<and> pn_ID n = i)"
    using Cons.IH [OF keeps_inv [OF Cons.prems(1)], of n b] Cons.prems(2) x by simp
  moreover have "link s i \<or> (i = pn_ID n \<and> \<not> b)" if "link ?s i"
    using no_other [OF Cons.prems(1) that] removal_unlinks [OF Cons.prems(1), of n] that by (cases b) auto
  ultimately show ?case using x by auto
qed simp

end

definition proxy_update :: "Node \<Rightarrow> bool \<Rightarrow> px_env \<times> Proxy \<Rightarrow> goerr option \<times> px_env \<times> Proxy" where
  "proxy_update n b s = (let (e, p) = OnPeerUpdate (fst s) n b (snd s) in (e, fst s, p))"

text \<open>The retry package returns what one of the attempts returned.\<close>

definition retry_ok :: "((nat \<Rightarrow> routes_map result) \<Rightarrow> routes_map result) \<Rightarrow> bool" where
  "retry_ok retry \<longleftrightarrow> (\<forall>f. \<exists>k. retry f = f k)"

definition proxy_inv :: "px_env \<times> Proxy \<Rightarrow> bool" where
  "proxy_inv s \<longleftrightarrow> is_iter (pe_routes (fst s)) \<and> retry_ok (pe_retry (fst s)) \<and> router_ok (px_router (snd s))"

lemma retry_wire:
  assumes "retry_ok (pe_retry E)" and "pe_retry E (\<lambda>k. GetModelsMesh (pe_models E peer k)) = Inr models"
  shows "distinct (map fst models)" and "\<forall>(k, r) \<in> set models. mr_peers r = None"
proof -
  obtain k where "GetModelsMesh (pe_models E peer k) = Inr models" using assms unfolding retry_ok_def by metis
  then show "distinct (map fst models)" "\<forall>(k, r) \<in> set models. mr_peers r = None"
    using GetModelsMesh_wire(1) wire_set by blast+
qed

interpretation proxy: peer_sink proxy_update proxy_inv "\<lambda>s. linked (px_router (snd s))"
proof
  fix s n b i
  assume inv: "proxy_inv s"
  obtain E p where s: "s = (E, p)" by (cases s)
  have it: "is_iter (pe_routes E)" "retry_ok (pe_retry E)" "router_ok (px_router p)"
    using inv by (simp_all add: proxy_inv_def s)
  show "proxy_inv (snd (proxy_update n b s))"
    using it retry_wire [OF it(2)] AddPeerModels_any(1) [OF it(1,3)] RemovePeer_ok [OF it(3)]
    by (auto simp: proxy_update_def proxy_inv_def s OnPeerUpdate_def Let_def split: sum.splits)
  show "fst (proxy_update n True s) = None" by (simp add: proxy_update_def OnPeerUpdate_def)
  show "\<not> linked (px_router (snd (snd (proxy_update n True s)))) (pn_ID n)"
    using RemovePeer_linked [OF it(1,3)] by (simp add: proxy_update_def OnPeerUpdate_def s)
  show "i = pn_ID n \<or> linked (px_router (snd s)) i" if "linked (px_router (snd (snd (proxy_update n b s)))) i"
  proof (cases b)
    case True
    then show ?thesis using that RemovePeer_linked [OF it(1,3), of n i] by (simp add: proxy_update_def OnPeerUpdate_def s)
  next
    case False
    then show ?thesis
      using that retry_wire [OF it(2), of n] AddPeerModels_any(2) [OF it(1,3), of _ n i]
      by (auto simp: proxy_update_def OnPeerUpdate_def s Let_def split: sum.splits)
  qed
qed

end
