(* ===== verification/ProxyService.thy ===== *)
theory ProxyService
  imports ProxyProperties
begin

text \<open>
  The properties of the proxy: hops, removed peers, serving across two nodes, what a peer can reach, and
  what an export reveals.
\<close>

section \<open>Lemmas\<close>

lemma forward_linked:
  assumes "proxyModelRequest E p r b = ForwardPeer n body" and "router_ok (px_router p)"
  shows "linked (px_router p) (pn_ID n)"
proof -
  obtain route name where r: "GetModelRoute (px_router p) name = Some route"
    "GetMeshPeerRoute (pe_peers E) (rt_heap (px_router p)) route = Some n"
    using assms(1) by (auto simp: proxyModelRequest_def split: sum.splits option.splits if_splits)
  then obtain i where i: "map_of (peers_of (rt_heap (px_router p)) route) i = Some n"
    by (auto simp: GetMeshPeerRoute_def split: list.splits)
  have "peers_ok (peers_of (rt_heap (px_router p)) route)"
    using assms(2) r(1) by (auto simp: router_ok_def peers_of_def split: option.splits)
  then have "pn_ID n = i" using i by (simp add: peers_ok_def)
  then show ?thesis using r(1) i unfolding linked_def by blast
qed

lemma ServeHTTP_forward:
  assumes "fst (fst (ServeHTTP E r p)) = ForwardPeer n body"
  shows "proxyModelRequest E p r False = ForwardPeer n body"
proof (cases "model_path (pr_path r)")
  case True
  then show ?thesis using assms ServeHTTP_model [of r E p] by simp
next
  case False
  then have "fst (fst (ServeHTTP E r p)) = fst (mux E (p\<lparr>px_cid := px_cid p + 1\<rparr>) r)"
    by (simp add: ServeHTTP_def model_path_def Let_def)
  moreover have "is_forward (ForwardPeer n body)" by (simp add: is_forward_def)
  ultimately show ?thesis using assms mux_answers [of E "p\<lparr>px_cid := px_cid p + 1\<rparr>" r] by simp
qed

lemma GetModelsMesh_names:
  assumes "GetModelsMesh (Inr ms) = Inr models"
  shows "fst ` set models = wm_Name ` set ms"
proof -
  have "dom (map_of (fold (\<lambda>w. AList.update (wm_Name w) (decode_route w)) ms t)) = dom (map_of t) \<union> wm_Name ` set ms" for t
    by (induction ms arbitrary: t) (auto simp: AList.update_conv')
  from this [of "[]"] show ?thesis
    using assms by (simp add: GetModelsMesh_def dom_map_of_conv_image_fst [symmetric])
qed

text \<open>After a peer's announcement, its models lead to it and nowhere else.\<close>

lemma announced_route:
  assumes "proxy_inv (E, p)" and "is_iter (pe_peers E)" and "\<forall>k. pe_models E n k = Inr ms"
    and "m \<in> wm_Name ` set ms" and "pn_ID n \<notin> wm_Name ` set ms" and "GetModelRoute (px_router p) (pn_ID n) = None"
    and "pr_body r = (body, None)" and "length body \<le> maxBody" and "peekModel E body = m"
  shows "fst (OnPeerUpdate E n False p) = None \<and>
         proxyModelRequest E (snd (OnPeerUpdate E n False p)) r b =
           (if b then HttpError StatusNotFound ''model not found'' else ForwardPeer n body)"
proof -
  have it: "is_iter (pe_routes E)" "retry_ok (pe_retry E)" "router_ok (px_router p)"
    using assms(1) by (simp_all add: proxy_inv_def)
  obtain models where models: "GetModelsMesh (Inr ms) = Inr models" by (simp add: GetModelsMesh_def)
  have retry: "pe_retry E (\<lambda>k. GetModelsMesh (pe_models E n k)) = Inr models"
    using it(2) assms(3) models unfolding retry_ok_def by metis
  let ?e = "AddPeerModels (pe_routes E) n models (px_router p)"
  have up: "OnPeerUpdate E n False p = (None, p\<lparr>px_router := ?e, px_broadcasts := px_broadcasts p + 2\<rparr>)"
    using retry by (simp add: OnPeerUpdate_def)
  have names: "fst ` set models = wm_Name ` set ms" by (rule GetModelsMesh_names [OF models])
  have e: "router_ok ?e" "table ?e = table (px_router p) ++
      (\<lambda>k. map_option (\<lambda>r. (mr_providers r, [pn_ID n \<mapsto> n])) (map_of models k))"
    using AddPeerModels_spec [OF it(1) GetModelsMesh_wire(1) [OF models] _ assms(6) it(3) wire_detached [OF wire_set [OF models]]]
      assms(5) unfolding names by blast+
  obtain w where w: "map_of models m = Some w" using assms(4) names by (metis map_of_eq_None_iff not_None_eq)
  then have "table ?e m = Some ([], [pn_ID n \<mapsto> n])"
    using e(2) GetModelsMesh_wire(2) [OF models w] by (simp add: map_add_def)
  then obtain route where route: "GetModelRoute ?e m = Some route" "mr_providers route = []"
    "map_of (peers_of (rt_heap ?e) route) = [pn_ID n \<mapsto> n]"
    by (auto simp: table_def)
  have "peers_ok (peers_of (rt_heap ?e) route)"
    using e(1) route(1) by (auto simp: router_ok_def peers_of_def split: option.splits)
  then have "distinct (map fst (peers_of (rt_heap ?e) route))" by (simp add: peers_ok_def)
  then have one: "peers_of (rt_heap ?e) route = [(pn_ID n, n)]" by (rule map_of_singleton [OF _ route(3)])
  have "pe_peers E [(pn_ID n, n)] = [(pn_ID n, n)]"
    using is_iter_set [OF assms(2), of "[(pn_ID n, n)]"] is_iter_length [OF assms(2), of "[(pn_ID n, n)]"]
    by (cases "pe_peers E [(pn_ID n, n)]") auto
  then have peer: "GetMeshPeerRoute (pe_peers E) (rt_heap ?e) route = Some n" using one by (simp add: GetMeshPeerRoute_def)
  have "proxyModelRequest E (snd (OnPeerUpdate E n False p)) r b =
      (if b then HttpError StatusNotFound ''model not found'' else ForwardPeer n body)"
    unfolding proxyModelRequest_def request_body [OF assms(7,8)] up
    using route(1,2) peer assms(9) by (simp add: GetLocalRoute_def)
  then show ?thesis using up by simp
qed

section \<open>An example\<close>

text \<open>A body is the model's name itself; every URL parses; the second attempt to reach a peer succeeds.\<close>

definition ex_px_env :: "string \<Rightarrow> WireModel list \<Rightarrow> px_env" where
  "ex_px_env self ms =
     \<lparr>pe_peek = (\<lambda>b. Some b), pe_url_ok = (\<lambda>u. True), pe_routes = (\<lambda>xs. xs), pe_peers = (\<lambda>xs. xs),
      pe_node = ex_peer self, pe_peer_map = Inr [], pe_mesh_info = (\<lambda>n. None), pe_models = (\<lambda>n k. Inr ms),
      pe_status = (\<lambda>n. (\<lparr>ns_Name = [], ns_PeerID = [], ns_Type = [], ns_Reachable = False, ns_Models = [], ns_Mesh = None\<rparr>, None)),
      pe_retry = (\<lambda>f. f 1), pe_config = Inr ''secret: s''\<rparr>"

definition ex_px :: Proxy where
  "ex_px = \<lparr>px_listen = '':4080'', px_cid = 0, px_router = ex_router, px_admin = None, px_broadcasts = 0\<rparr>"

definition ex_models :: "WireModel list" where
  "ex_models = map encode_route (ListExportedModels (\<lambda>xs. xs) ex_router)"

definition ex_chat :: "string \<Rightarrow> proxy_request" where
  "ex_chat path = \<lparr>pr_method = ''POST'', pr_path = path, pr_mesh = False, pr_body = (''llama'', None), pr_invite = None\<rparr>"

lemma ex_px_inv: "proxy_inv (ex_px_env self ms, ex_px)"
  using ex_router_ok by (auto simp: proxy_inv_def ex_px_env_def ex_px_def retry_ok_def is_iter_id)

lemma ex_env_iter: "is_iter (pe_peers (ex_px_env self ms))" "is_iter (pe_routes (ex_px_env self ms))"
  by (simp_all add: ex_px_env_def is_iter_id)

lemma ex_env_models: "\<forall>k. pe_models (ex_px_env self ms) n k = Inr ms"
  by (simp add: ex_px_env_def)

lemma ex_free: "GetModelRoute (px_router ex_px) (pn_ID (ex_peer ''b'')) = None" "GetModelRoute (px_router ex_px) (pn_ID ex_self) = None"
  "pn_ID (ex_peer ''b'') \<notin> wm_Name ` set ex_models" "pn_ID ex_self \<notin> wm_Name ` set ex_models"
  by code_simp+

lemma ex_chat_body:
  "pr_body (ex_chat path) = (''llama'', None)" "length ''llama'' \<le> maxBody" "peekModel (ex_px_env self ms) ''llama'' = ''llama''"
  by (simp_all add: ex_chat_def maxBody_def peekModel_def ex_px_env_def ToLower_def lower_char_def)

lemma mesh_no_forward: "fst (fst (MeshServeHTTP E r p)) \<noteq> ForwardPeer n body"
proof (cases "pr_path r \<in> set proxyHandleURLS")
  case True
  then show ?thesis by (simp add: MeshServeHTTP_def Let_def no_relay)
next
  case False
  then show ?thesis
    using mux_answers [of E "p\<lparr>px_cid := px_cid p + 1\<rparr>" r]
    by (auto simp: MeshServeHTTP_def Let_def is_forward_def)
qed

section \<open>Properties\<close>

text \<open>
  A request makes at most one hop. Whatever a peer asks of a node over the mesh, the node never
  forwards it to another peer.
\<close>

theorem mesh_requests_one_hop:
  "fst (fst (MeshServeHTTP E r p)) \<noteq> ForwardPeer n body"
  by (rule mesh_no_forward)

text \<open>
  C16. A removed peer gets no traffic. Once discovery has reported a peer as removed, and as long as
  the reports that follow announce other peers only, no request of a local client is forwarded
  to it.
\<close>

theorem removed_peer_gets_no_traffic:
  assumes "proxy_inv s" and "\<forall>(m, b) \<in> set reports. b \<or> pn_ID m \<noteq> pn_ID n"
    and "s' = fold (\<lambda>(m, b) s. snd (proxy_update m b s)) reports (snd (proxy_update n True s))"
    and "fst (fst (ServeHTTP E r (snd s'))) = ForwardPeer d body"
  shows "pn_ID d \<noteq> pn_ID n"
proof
  assume eq: "pn_ID d = pn_ID n"
  have inv: "proxy_inv (snd (proxy_update n True s))" by (rule proxy.keeps_inv [OF assms(1)])
  have inv': "proxy_inv s'" unfolding assms(3) by (rule proxy.run_inv [OF inv])
  have "linked (px_router (snd s')) (pn_ID n)"
    using forward_linked [OF ServeHTTP_forward [OF assms(4)]] inv' eq by (simp add: proxy_inv_def)
  then have "linked (px_router (snd (snd (proxy_update n True s)))) (pn_ID n)"
    using proxy.run_links [OF inv, of reports "pn_ID n"] assms(2,3) by fastforce
  then show False using proxy.removal_unlinks [OF assms(1)] by blast
qed

theorem removed_peer_gets_no_traffic_witness:
  "let E = ex_px_env ''me'' ex_models;
       s' = fold (\<lambda>(m, b) s. snd (proxy_update m b s)) [(ex_peer ''c'', False)] (snd (proxy_update (ex_peer ''b'') True (E, ex_px)))
   in fst (fst (ServeHTTP E (ex_chat ''/v1/chat/completions'') (snd s'))) = ForwardPeer (ex_peer ''c'') ''llama'' \<and>
      pn_ID (ex_peer ''c'') \<noteq> pn_ID (ex_peer ''b'')"
proof -
  let ?E = "ex_px_env ''me'' ex_models"
  let ?s = "fold (\<lambda>(m, b) s. snd (proxy_update m b s)) [(ex_peer ''c'', False)] (snd (proxy_update (ex_peer ''b'') True (?E, ex_px)))"
  let ?p = "snd (OnPeerUpdate ?E (ex_peer ''b'') True ex_px)"
  have s: "snd (proxy_update (ex_peer ''b'') True (?E, ex_px)) = (?E, ?p)" "snd ?s = snd (OnPeerUpdate ?E (ex_peer ''c'') False ?p)"
    by (simp_all add: proxy_update_def split_beta)
  have inv: "proxy_inv (?E, ?p)" using proxy.keeps_inv [OF ex_px_inv] s(1) by metis
  have "GetModelRoute (px_router ?p) (pn_ID (ex_peer ''c'')) = None" "pn_ID (ex_peer ''c'') \<notin> wm_Name ` set ex_models"
    "''llama'' \<in> wm_Name ` set ex_models" by code_simp+
  then have "proxyModelRequest ?E (snd (OnPeerUpdate ?E (ex_peer ''c'') False ?p)) (ex_chat ''/v1/chat/completions'') False =
      ForwardPeer (ex_peer ''c'') ''llama''"
    using announced_route [where b = False, OF inv ex_env_iter(1) ex_env_models _ _ _ ex_chat_body] by simp
  then have f: "fst (fst (ServeHTTP ?E (ex_chat ''/v1/chat/completions'') (snd ?s))) = ForwardPeer (ex_peer ''c'') ''llama''"
    unfolding s(2) by (subst ServeHTTP_model) (simp_all add: model_path_def ex_chat_def)
  have "\<forall>(m, b) \<in> set [(ex_peer ''c'', False)]. b \<or> pn_ID m \<noteq> pn_ID (ex_peer ''b'')" by code_simp
  then show ?thesis using removed_peer_gets_no_traffic [OF ex_px_inv _ refl f] f unfolding Let_def by blast
qed

text \<open>
  When node B has the list that node A answers on \<open>/.mesh/models\<close>, a chat request to B for a model A exports is forwarded to A, and A
  hands the same body to its own provider with the provider's token.
\<close>

lemma exported_served:
  assumes "proxy_inv (EB, pB)" and "is_iter (pe_peers EB)"
    and "meshModels EA pA = ReplyJson (ModelsReply ms)" and "\<forall>k. pe_models EB nA k = Inr ms"
    and "is_iter (pe_routes EA)" and "router_ok (px_router pA)"
    and "GetModelRoute (px_router pA) m = Some route" and "mr_Name route = m" and "mr_providers route = pv # pvs"
    and "\<not> IsPrivate route" and "pe_url_ok EA (mp_BaseURL pv)"
    and "pn_ID nA \<notin> wm_Name ` set ms" and "GetModelRoute (px_router pB) (pn_ID nA) = None"
    and "pr_path r = ''/v1/chat/completions'' \<or> pr_path r = ''/v1/responses''"
    and "pr_body r = (body, None)" and "length body \<le> maxBody" and "peekModel EB body = m" and "peekModel EA body = m"
  shows "fst (fst (ServeHTTP EB r (snd (OnPeerUpdate EB nA False pB)))) = ForwardPeer nA body \<and>
         fst (fst (MeshServeHTTP EA r pA)) = ForwardLocal (mp_BaseURL pv)
           (if mp_Token pv \<noteq> [] then Some (''Bearer '' @ mp_Token pv) else None) body"
proof -
  have "route \<in> set (ListExportedModels (pe_routes EA) (px_router pA))"
  proof -
    have "route \<in> snd ` set (rt_MeshModels (px_router pA))"
      using assms(7) by (force simp: GetModelRoute_def dest: map_of_SomeD)
    moreover have "distinct (map fst (rt_MeshModels (px_router pA)))" using assms(6) by (simp add: router_ok_def)
    ultimately show ?thesis
      using exported_iff [OF assms(5), of "px_router pA"] assms(9,10)
      by (metis (mono_tags, lifting) IsLocal_def length_0_conv list.distinct(1) mem_Collect_eq mset_map set_image_mset
          set_mset_filter set_mset_mset)
  qed
  then have "m \<in> wm_Name ` set ms"
    using assms(3,8) by (force simp: meshModels_def encode_route_def)
  then have "proxyModelRequest EB (snd (OnPeerUpdate EB nA False pB)) r False = ForwardPeer nA body"
    using announced_route [OF assms(1,2,4) _ assms(12,13,15,16,17), of False] by simp
  moreover have "model_path (pr_path r)" "pr_path r \<in> set proxyHandleURLS"
    using assms(14) by (auto simp: model_path_def proxyHandleURLS_def)
  moreover have "proxyModelRequest EA pA r True = ForwardLocal (mp_BaseURL pv)
      (if mp_Token pv \<noteq> [] then Some (''Bearer '' @ mp_Token pv) else None) body"
    by (rule request_local) (use assms in simp_all)
  ultimately show ?thesis
    using ServeHTTP_model [of r EB] by (simp add: MeshServeHTTP_def Let_def)
qed

text \<open>
  Two nodes that serve the same model lose it to each other. After each has fetched the other's
  list, a request at the first is forwarded to the second, which answers 404, although both still
  have a local provider for it.
\<close>

theorem shared_model_unreachable:
  assumes "proxy_inv (EA, pA)" and "is_iter (pe_peers EA)" and "\<forall>k. pe_models EA nB k = Inr msB"
    and "m \<in> wm_Name ` set msB" and "pn_ID nB \<notin> wm_Name ` set msB" and "GetModelRoute (px_router pA) (pn_ID nB) = None"
    and "proxy_inv (EB, pB)" and "is_iter (pe_peers EB)" and "\<forall>k. pe_models EB nA k = Inr msA"
    and "m \<in> wm_Name ` set msA" and "pn_ID nA \<notin> wm_Name ` set msA" and "GetModelRoute (px_router pB) (pn_ID nA) = None"
    and "pr_path r = ''/v1/chat/completions''" and "pr_body r = (body, None)" and "length body \<le> maxBody"
    and "peekModel EA body = m" and "peekModel EB body = m"
  shows "fst (fst (ServeHTTP EA r (snd (OnPeerUpdate EA nB False pA)))) = ForwardPeer nB body \<and>
         fst (fst (MeshServeHTTP EB r (snd (OnPeerUpdate EB nA False pB)))) = HttpError StatusNotFound ''model not found''"
proof -
  have "proxyModelRequest EA (snd (OnPeerUpdate EA nB False pA)) r False = ForwardPeer nB body"
    using announced_route [OF assms(1-6,14,15,16), of False] by simp
  moreover have "proxyModelRequest EB (snd (OnPeerUpdate EB nA False pB)) r True = HttpError StatusNotFound ''model not found''"
    using announced_route [OF assms(7-12,14,15,17), of True] by simp
  ultimately show ?thesis
    using ServeHTTP_model [of r EA] assms(13) by (simp add: model_path_def MeshServeHTTP_def proxyHandleURLS_def Let_def)
qed

theorem shared_model_unreachable_witness:
  "fst (fst (ServeHTTP (ex_px_env ''me'' ex_models) (ex_chat ''/v1/chat/completions'')
       (snd (OnPeerUpdate (ex_px_env ''me'' ex_models) (ex_peer ''b'') False ex_px)))) = ForwardPeer (ex_peer ''b'') ''llama'' \<and>
   fst (fst (MeshServeHTTP (ex_px_env ''b'' ex_models) (ex_chat ''/v1/chat/completions'')
       (snd (OnPeerUpdate (ex_px_env ''b'' ex_models) ex_self False ex_px)))) = HttpError StatusNotFound ''model not found''"
proof -
  have "''llama'' \<in> wm_Name ` set ex_models" by code_simp
  moreover have "pr_path (ex_chat ''/v1/chat/completions'') = ''/v1/chat/completions''" by (simp add: ex_chat_def)
  ultimately show ?thesis
    using shared_model_unreachable [OF ex_px_inv ex_env_iter(1) ex_env_models _ ex_free(3,1) ex_px_inv ex_env_iter(1) ex_env_models _
        ex_free(4,2) _ ex_chat_body(1,2,3,3)] by blast
qed

text \<open>
  Chat requests on \<open>/api/chat\<close> cannot cross the mesh. A node forwards them to a peer, but no peer
  treats the path as a model request: it answers the custom 404 whatever models it serves.
\<close>

theorem api_chat_stops_at_the_peer:
  "pr_path r = ''/api/chat'' \<Longrightarrow>
   fst (fst (MeshServeHTTP E r p)) = HttpError StatusNotFound ''Custom 404: The page you are looking for does not exist.''"
  by (simp add: MeshServeHTTP_def proxyHandleURLS_def mux_def Let_def)

theorem api_chat_stops_at_the_peer_witness:
  "fst (fst (ServeHTTP (ex_px_env ''me'' ex_models) (ex_chat ''/api/chat'')
       (snd (OnPeerUpdate (ex_px_env ''me'' ex_models) (ex_peer ''b'') False ex_px)))) = ForwardPeer (ex_peer ''b'') ''llama'' \<and>
   fst (fst (MeshServeHTTP (ex_px_env ''b'' []) (ex_chat ''/api/chat'') ex_px)) =
     HttpError StatusNotFound ''Custom 404: The page you are looking for does not exist.''"
proof -
  have "''llama'' \<in> wm_Name ` set ex_models" by code_simp
  then have "proxyModelRequest (ex_px_env ''me'' ex_models)
      (snd (OnPeerUpdate (ex_px_env ''me'' ex_models) (ex_peer ''b'') False ex_px)) (ex_chat ''/api/chat'') False =
      ForwardPeer (ex_peer ''b'') ''llama''"
    using announced_route [where b = False, OF ex_px_inv ex_env_iter(1) ex_env_models _ ex_free(3,1) ex_chat_body] by simp
  then have "fst (fst (ServeHTTP (ex_px_env ''me'' ex_models) (ex_chat ''/api/chat'')
       (snd (OnPeerUpdate (ex_px_env ''me'' ex_models) (ex_peer ''b'') False ex_px)))) = ForwardPeer (ex_peer ''b'') ''llama''"
    by (subst ServeHTTP_model) (simp_all add: model_path_def ex_chat_def)
  then show ?thesis
    using api_chat_stops_at_the_peer [of "ex_chat ''/api/chat''" "ex_px_env ''b'' []" ex_px] by (simp add: ex_chat_def)
qed

text \<open>
  Peers reach the private endpoints of a node. Everything that is not a model request is answered
  from the same table for peers as for local clients: a peer reads the node's \<open>config.yaml\<close>, and on
  a node with the admin controller it removes nodes with that node's admin key.
\<close>

theorem peers_reach_private_endpoints:
  assumes "i \<noteq> []" and "CHR ''/'' \<notin> set i" and "px_admin p = Some admin"
    and "pr_method kick = ''DELETE''" and "pr_path kick = ''/api/admin/node/'' @ i"
    and "pr_method get = ''GET''" and "pr_path get = ''/api/mesh/config''" and "pe_config E = Inr content"
  shows "snd (fst (MeshServeHTTP E kick p)) = [CallKickPeer i] \<and>
         fst (fst (MeshServeHTTP E get p)) = ReplyJson (UIConfigReply ''config.yaml'' content)"
proof -
  have seg: "slash_path (''/api/admin/node/'' @ i) = [[], ''api'', ''admin'', ''node'', i]"
    using Split_no_sep [OF assms(2)] by simp
  have path: "''/api/admin/node/'' @ i \<notin> set proxyHandleURLS" by (simp add: proxyHandleURLS_def)
  have "mux E (p\<lparr>px_cid := px_cid p + 1\<rparr>) kick = proxy_handle (withAdmin p (adminKickNodeHandler i))"
    using assms(1,4,5) seg by (simp add: mux_def px_get_def withAdmin_def)
  then have "snd (fst (MeshServeHTTP E kick p)) = [CallKickPeer i]"
    using assms(1,3,5) path
    by (simp add: MeshServeHTTP_def Let_def proxy_handle_def withAdmin_def adminKickNodeHandler_def split: sum.splits)
  moreover have "fst (fst (MeshServeHTTP E get p)) = ReplyJson (UIConfigReply ''config.yaml'' content)"
    using assms(6-8) by (simp add: MeshServeHTTP_def proxyHandleURLS_def mux_def px_get_def uiConfigHandler_def Let_def)
  ultimately show ?thesis by blast
qed

theorem peers_reach_private_endpoints_witness:
  "let p = WithAdminController (\<lambda>c. Inr (ReplyDeleted [])) ex_px;
       kick = (ex_chat ''/api/admin/node/b'')\<lparr>pr_method := ''DELETE''\<rparr>
   in snd (fst (MeshServeHTTP (ex_px_env ''me'' []) kick p)) = [CallKickPeer ''b'']"
proof -
  let ?p = "WithAdminController (\<lambda>c. Inr (ReplyDeleted [])) ex_px"
  have "px_admin ?p = Some (\<lambda>c. Inr (ReplyDeleted []))" by (simp add: WithAdminController_def)
  then show ?thesis
    using peers_reach_private_endpoints [of "''b''" ?p _ "(ex_chat ''/api/admin/node/b'')\<lparr>pr_method := ''DELETE''\<rparr>"
        "(ex_chat ''/api/mesh/config'')\<lparr>pr_method := ''GET''\<rparr>" "ex_px_env ''me'' []" "''secret: s''"]
    by (simp add: ex_chat_def ex_px_env_def)
qed

text \<open>
  Model names with upper-case letters cannot be requested. The name in a request is lowered before
  the lookup, the names in the table are not: a model stored under such a name is never the one
  that is served, and without a namesake in lower case the answer is 404.
\<close>

theorem uppercase_model_unreachable:
  assumes "pe_peek E body = Some m" and "ToLower m \<noteq> m" and "GetModelRoute (px_router p) m = Some route"
    and "GetModelRoute (px_router p) (ToLower m) = None"
    and "model_path (pr_path r)" and "pr_body r = (body, None)" and "length body \<le> maxBody"
  shows "fst (fst (ServeHTTP E r p)) = HttpError StatusNotFound ''model not found''"
proof -
  have "peekModel E body = ToLower m" using assms(1) by (simp add: peekModel_def)
  then have "proxyModelRequest E p r False = HttpError StatusNotFound ''model not found''"
    unfolding proxyModelRequest_def request_body [OF assms(6,7)] using assms(4) by simp
  then show ?thesis using ServeHTTP_model [OF assms(5), of E p] by simp
qed

text \<open>A node whose only model has a capital letter.\<close>

definition ex_capital :: Proxy where
  "ex_capital = ex_px\<lparr>px_router := Refresh (\<lambda>xs. xs) ex_env (NewModelDiscovery ex_self
     [ex_provider\<lparr>pv_Models := [\<lparr>mc_Model = ''Qwen'', mc_Private = False, mc_Capabilities = [], mc_Tools = []\<rparr>]\<rparr>])\<rparr>"

theorem uppercase_model_unreachable_witness:
  "fst (fst (ServeHTTP (ex_px_env ''me'' []) ((ex_chat ''/v1/responses'')\<lparr>pr_body := (''Qwen'', None)\<rparr>) ex_capital)) =
     HttpError StatusNotFound ''model not found''"
proof -
  let ?r = "(ex_chat ''/v1/responses'')\<lparr>pr_body := (''Qwen'', None)\<rparr>"
  have "GetModelRoute (px_router ex_capital) ''Qwen'' \<noteq> None" by code_simp
  then obtain route where "GetModelRoute (px_router ex_capital) ''Qwen'' = Some route" by blast
  moreover have "GetModelRoute (px_router ex_capital) (ToLower ''Qwen'') = None" by code_simp
  moreover have "ToLower ''Qwen'' \<noteq> ''Qwen''" by code_simp
  moreover have "model_path (pr_path ?r)" by (simp add: model_path_def ex_chat_def)
  ultimately show ?thesis
    using uppercase_model_unreachable [of "ex_px_env ''me'' []" "''Qwen''" "''Qwen''" ex_capital route ?r]
    by (simp add: ex_px_env_def maxBody_def)
qed

end
