(* ===== verification/ApiClient.thy ===== *)
theory ApiClient
  imports JsonClient ApiTypes
begin

text \<open>
  The clients of the admin API: \<open>api/client.go\<close>, \<open>client_mesh.go\<close>, \<open>client_admin.go\<close>, \<open>redeem.go\<close> and
  \<open>error.go\<close>. A method takes the JSON client (the Go structs share one by pointer, so \<open>Login\<close>
  returns the changed client) and the state of the server that answers. \<open>wire\<close> holds what
  \<open>encoding/json\<close> does with each struct that is sent; \<open>w_ack\<close> encodes the replies no client decodes.
\<close>

record wire =
  w_register :: "(string, RegisterNodeRequest) codec"
  w_node :: "(string, Node) codec"
  w_nodes :: "(string, Node list) codec"
  w_relay :: "(string, GetRelayResponse) codec"
  w_login :: "(string, NodeLoginRequest) codec"
  w_session :: "(string, NodeLoginResponse) codec"
  w_invite :: "(string, CreateInviteRequest) codec"
  w_invited :: "(string, CreateInviteResponse) codec"
  w_invites :: "(string, InviteInfo list) codec"
  w_admin_nodes :: "(string, AdminNode list) codec"
  w_redeem :: "(string, Node) codec"
  w_redeemed :: "(string, RedeemInviteResponse) codec"
  w_ack :: "reply \<Rightarrow> string"

definition NewError :: "int \<Rightarrow> string \<Rightarrow> goerr" where
  "NewError code msg = NewRequestError code msg"

section \<open>Nodes\<close>

record Registration =
  rg_node :: Node
  rg_token :: string

record MeshClient =
  mc_meshId :: string

definition contains :: "string \<Rightarrow> string \<Rightarrow> bool" where
  "contains s sub \<longleftrightarrow> list_ex (prefix sub) (suffixes s)"

text \<open>\<open>Refresh\<close>: an error whose text contains 409 means that the registration is no longer valid.\<close>

definition Registration_Refresh ::
  "RegisterNodeRequest result \<Rightarrow> Registration \<Rightarrow> (bool \<times> uint64) result \<times> Registration" where
  "Registration_Refresh resp r =
     (case resp of
        Inl e \<Rightarrow> (if contains (Error_string e) ''409'' then Inr (False, 0) else Inl e, r)
      | Inr v \<Rightarrow> (Inr (True, rr_LogicalTime v), r\<lparr>rg_token := rr_Token v\<rparr>))"

definition Register :: "RegisterNodeRequest result \<Rightarrow> Registration result" where
  "Register resp = (case resp of Inl e \<Rightarrow> Inl e | Inr v \<Rightarrow> Inr \<lparr>rg_node = rr_Node v, rg_token = rr_Token v\<rparr>)"

text \<open>The calls the two make, and the whole methods.\<close>

definition refresh_call :: "wire \<Rightarrow> 's Client \<Rightarrow> Registration \<Rightarrow> 's \<Rightarrow> RegisterNodeRequest result \<times> 's" where
  "refresh_call W c r =
     Client_Post c (''/api/v1/nodes/'' @ pn_ID (rg_node r)) (w_register W)
       \<lparr>rr_Node = rg_node r, rr_Token = rg_token r, rr_LogicalTime = 0, rr_LastUpdate = zero_time\<rparr> (w_register W)"

definition register_call :: "wire \<Rightarrow> 's Client \<Rightarrow> string \<Rightarrow> string \<Rightarrow> 's \<Rightarrow> RegisterNodeRequest result \<times> 's" where
  "register_call W c name i =
     Client_Post c ''/api/v1/nodes'' (w_register W)
       \<lparr>rr_Node = NewPeerNode i name, rr_Token = [], rr_LogicalTime = 0, rr_LastUpdate = zero_time\<rparr> (w_register W)"

definition MeshClient_Refresh ::
  "wire \<Rightarrow> 's Client \<Rightarrow> Registration \<Rightarrow> 's \<Rightarrow> (bool \<times> uint64) result \<times> Registration \<times> 's" where
  "MeshClient_Refresh W c r s =
     (let (resp, s') = refresh_call W c r s; (res, r') = Registration_Refresh resp r in (res, r', s'))"

definition MeshClient_Register :: "wire \<Rightarrow> 's Client \<Rightarrow> string \<Rightarrow> string \<Rightarrow> 's \<Rightarrow> Registration result \<times> 's" where
  "MeshClient_Register W c name i s = (let (resp, s') = register_call W c name i s in (Register resp, s'))"

definition GetPeers_call :: "wire \<Rightarrow> 's Client \<Rightarrow> 's \<Rightarrow> Node list result \<times> 's" where
  "GetPeers_call W c = Client_Get c ''/api/v1/nodes'' (w_nodes W)"

definition GetRelay :: "wire \<Rightarrow> 's Client \<Rightarrow> 's \<Rightarrow> (string list \<times> gotime \<times> uint64) result \<times> 's" where
  "GetRelay W c s =
     (let (resp, s') = Client_Get c ''/api/v1/relay'' (w_relay W) s in
      (case resp of
         Inl e \<Rightarrow> Inl e
       | Inr v \<Rightarrow> Inr (gr_MultiAddress v, gr_LastUpdate v, gr_LogicalTime v), s'))"

definition GetAddress :: "wire \<Rightarrow> 's Client \<Rightarrow> 's \<Rightarrow> string list result \<times> 's" where
  "GetAddress W c s =
     (let (r, s') = GetRelay W c s in (case r of Inl e \<Rightarrow> Inl e | Inr (relay, u, t) \<Rightarrow> Inr relay, s'))"

definition Login :: "wire \<Rightarrow> MeshClient \<Rightarrow> string \<Rightarrow> string \<Rightarrow> 's Client \<Rightarrow> 's \<Rightarrow> goerr option \<times> 's Client \<times> 's" where
  "Login W mc nodeID meshSecret c s =
     (let (resp, s') = Client_Post c ''/api/v1/login'' (w_login W)
                         \<lparr>nl_NodeID = nodeID, nl_MeshId = mc_meshId mc, nl_MeshSecret = meshSecret\<rparr> (w_session W) s
      in (case resp of
            Inl e \<Rightarrow> (Some e, c, s')
          | Inr v \<Rightarrow> (None, SetToken (nr_Token v) c, s')))"

definition Unregister :: "'s Client \<Rightarrow> string \<Rightarrow> 's \<Rightarrow> unit result \<times> 's" where
  "Unregister c i = Client_Delete c (''/api/v1/nodes/'' @ i)"

definition Authorize :: "wire \<Rightarrow> 's Client \<Rightarrow> string \<Rightarrow> 's \<Rightarrow> goerr option \<times> 's" where
  "Authorize W c i s =
     (let (resp, s') = Client_Post c ''/api/v1/authorize'' (w_register W)
                         \<lparr>rr_Node = NewPeerNode i [], rr_Token = [], rr_LogicalTime = 0, rr_LastUpdate = zero_time\<rparr> (w_node W) s
      in (case resp of Inl e \<Rightarrow> Some e | Inr v \<Rightarrow> None, s'))"

record MeshDetails =
  md_ID :: string
  md_Description :: string

definition MeshList :: "MeshDetails list" where
  "MeshList = [\<lparr>md_ID = ''default'', md_Description = ''Default mesh''\<rparr>]"

definition Mesh :: "string \<Rightarrow> MeshClient" where
  "Mesh meshId = \<lparr>mc_meshId = meshId\<rparr>"

section \<open>Administration\<close>

definition CreateInvite :: "wire \<Rightarrow> 's Client \<Rightarrow> CreateInviteRequest \<Rightarrow> 's \<Rightarrow> CreateInviteResponse result \<times> 's" where
  "CreateInvite W c req =
     Client_Post c ''/api/v1/admin/invite'' (w_invite W)
       (if ci_MeshId req = [] then req\<lparr>ci_MeshId := ''default''\<rparr> else req) (w_invited W)"

text \<open>\<open>lifetime\<close> is the value of \<open>uint64(lifetime.Seconds())\<close>.\<close>

definition InviteLink :: "wire \<Rightarrow> 's Client \<Rightarrow> string \<Rightarrow> uint64 \<Rightarrow> 's \<Rightarrow> (string \<times> string) result \<times> 's" where
  "InviteLink W c meshId lifetime s =
     (let (resp, s') = CreateInvite W c \<lparr>ci_Name = [], ci_LifetimeSec = lifetime, ci_OneTime = False, ci_MeshId = meshId\<rparr> s in
      (case resp of Inl e \<Rightarrow> Inl e | Inr v \<Rightarrow> Inr (cr_InviteId v, cr_InviteLink v), s'))"

definition DeleteInvite :: "'s Client \<Rightarrow> string \<Rightarrow> 's \<Rightarrow> unit result \<times> 's" where
  "DeleteInvite c inviteId = Client_Delete c (''/api/v1/admin/invite/'' @ inviteId)"

definition ListInvites :: "wire \<Rightarrow> 's Client \<Rightarrow> 's \<Rightarrow> InviteInfo list result \<times> 's" where
  "ListInvites W c = Client_Get c ''/api/v1/admin/invite'' (w_invites W)"

definition ListNodes :: "wire \<Rightarrow> 's Client \<Rightarrow> 's \<Rightarrow> AdminNode list result \<times> 's" where
  "ListNodes W c = Client_Get c ''/api/v1/admin/nodes'' (w_admin_nodes W)"

definition DeleteNode :: "'s Client \<Rightarrow> string \<Rightarrow> 's \<Rightarrow> unit result \<times> 's" where
  "DeleteNode c nodeId = Client_Delete c (''/api/v1/admin/nodes/'' @ nodeId)"

definition KickPeer :: "'s Client \<Rightarrow> string \<Rightarrow> 's \<Rightarrow> unit result \<times> 's" where
  "KickPeer c peerId = DeleteNode c peerId"

section \<open>Invites\<close>

text \<open>What \<open>url.Parse\<close> returns, as far as it is used.\<close>

record URL =
  u_Scheme :: string
  u_Host :: string
  u_Path :: string
  u_EscapedPath :: string
  u_RawQuery :: string

definition add_slash :: "string \<Rightarrow> string" where
  "add_slash raw =
     (if prefix ''https://'' raw then raw
      else if prefix ''http://'' raw then raw
      else if prefix ''https:/'' raw then ''https://'' @ TrimPrefix raw ''https:/''
      else if prefix ''http:/'' raw then ''http://'' @ TrimPrefix raw ''http:/''
      else raw)"

definition parseInviteURL :: "(string \<Rightarrow> URL result) \<Rightarrow> string \<Rightarrow> URL result" where
  "parseInviteURL url_Parse raw =
     (case url_Parse (add_slash (TrimSpace raw)) of
        Inl e \<Rightarrow> Inl (GoErr (''invite url: '' @ Error_string e))
      | Inr u \<Rightarrow>
          if u_Scheme u = [] \<or> u_Host u = [] \<or> u_Path u = [] then Inl (GoErr ''invalid invite url'')
          else Inr u)"

definition RedeemInvite ::
  "wire \<Rightarrow> 's net_http \<Rightarrow> (string \<Rightarrow> URL result) \<Rightarrow> string \<Rightarrow> Node \<Rightarrow> 's \<Rightarrow> RedeemInviteResponse result \<times> 's" where
  "RedeemInvite W http url_Parse inviteURL node s =
     (if pn_ID node = [] then (Inl (GoErr ''node peer id is required''), s)
      else
        (case parseInviteURL url_Parse inviteURL of
           Inl e \<Rightarrow> (Inl e, s)
         | Inr u \<Rightarrow>
             (let base = u_Scheme u @ ''://'' @ u_Host u;
                  path = (if u_RawQuery u \<noteq> [] then u_EscapedPath u @ ''?'' @ u_RawQuery u else u_EscapedPath u)
              in Client_Post (NewClient http base []) path (w_redeem W) node (w_redeemed W) s)))"

section \<open>Lemmas\<close>

lemma contains_iff: "contains s sub \<longleftrightarrow> (\<exists>a b. s = a @ sub @ b)"
proof
  assume "contains s sub"
  then show "\<exists>a b. s = a @ sub @ b" by (fastforce simp: contains_def list_ex_iff prefix_def suffix_def)
next
  assume "\<exists>a b. s = a @ sub @ b"
  then obtain a b where "s = a @ sub @ b" by blast
  then have "suffix (sub @ b) s" "prefix sub (sub @ b)" by (simp_all add: suffix_def)
  then show "contains s sub" unfolding contains_def list_ex_iff by (meson in_set_suffixes)
qed

text \<open>The client repairs a lost slash: both spellings of an invite are the same invite.\<close>

lemma add_slash_repairs:
  assumes "\<not> prefix ''/'' rest"
  shows "add_slash (''http:/'' @ rest) = add_slash (''http://'' @ rest)"
    and "add_slash (''https:/'' @ rest) = add_slash (''https://'' @ rest)"
  using assms by (auto simp: add_slash_def TrimPrefix_def)

end
