(* ===== verification/Discovery.thy ===== *)
theory Discovery
  imports ProxyService ApiClient
begin

text \<open>
  Discovery of peers: \<open>pkg/mesh/discovery.go\<close>.
  \<open>poll\<close> is one turn of the loop of \<open>listenForPeerUpdates\<close>. What the admin server answers in that
  turn is \<open>poll_input\<close>; the handler \<open>onUpdate\<close> acts on a state of its own, threaded through.
  A panic of the loop is a \<open>GoPanic\<close>. Maps are association lists; \<open>ord\<close> is the order of a loop.
\<close>

section \<open>Comparing peer maps\<close>

type_synonym peer_map = "(string \<times> Node) list"

definition GetPeerMap :: "Node list result \<Rightarrow> peer_map result" where
  "GetPeerMap resp = (case resp of Inl e \<Rightarrow> Inl e | Inr ps \<Rightarrow> Inr (fold (\<lambda>p. AList.update (pn_ID p) p) ps []))"

definition diffNodes :: "(peer_map \<Rightarrow> peer_map) \<Rightarrow> string \<Rightarrow> peer_map \<Rightarrow> peer_map \<Rightarrow> peer_map \<times> peer_map" where
  "diffNodes ord selfID old new =
     (filter (\<lambda>(i, n). i \<noteq> selfID \<and>
        (case map_of old i of None \<Rightarrow> True | Some o' \<Rightarrow> pn_LogicalTime o' \<noteq> pn_LogicalTime n)) (ord new),
      filter (\<lambda>(i, n). i \<noteq> selfID \<and> map_of new i = None) (ord old))"

section \<open>The loop\<close>

record disc =
  ds_reg :: Registration
  ds_last :: uint64
  ds_peers :: peer_map

record poll_input =
  pi_refresh :: "RegisterNodeRequest result"
  pi_register :: "RegisterNodeRequest result"
  pi_peers :: "Node list result"

text \<open>One report of the two loops: current peers, whether all went well, and the handler's state.\<close>

definition report_removed ::
  "(Node \<Rightarrow> bool \<Rightarrow> 's \<Rightarrow> goerr option \<times> 's) \<Rightarrow> peer_map \<Rightarrow> Node \<Rightarrow> peer_map \<times> bool \<times> 's \<Rightarrow> (peer_map \<times> bool \<times> 's) result" where
  "report_removed onUpdate lastPeers node st =
     (let (cur, good, s) = st;
          (err, s') = onUpdate (NewPeerNode (pn_ID node) (pn_Name node)) True s
      in (case err of
            None \<Rightarrow> Inr (cur, good, s')
          | Some e \<Rightarrow>
              (case map_of lastPeers (pn_ID node) of
                 None \<Rightarrow> Inl (GoPanic ''node not found in lastPeers'')
               | Some n \<Rightarrow> Inr (AList.update (pn_ID n) n cur, False, s'))))"

definition report_updated ::
  "(Node \<Rightarrow> bool \<Rightarrow> 's \<Rightarrow> goerr option \<times> 's) \<Rightarrow> Node \<Rightarrow> peer_map \<times> bool \<times> 's \<Rightarrow> (peer_map \<times> bool \<times> 's) result" where
  "report_updated onUpdate node st =
     (let (cur, good, s) = st;
          (err, s') = onUpdate (NewPeerNode (pn_ID node) (pn_Name node)) False s
      in (case err of
            None \<Rightarrow> Inr (cur, good, s')
          | Some e \<Rightarrow>
              (case map_of cur (pn_ID node) of
                 None \<Rightarrow> Inl (GoPanic ''node not found in currentPeers'')
               | Some n \<Rightarrow> Inr (AList.update (pn_ID n) (n\<lparr>pn_LastUpdate := zero_time\<rparr>) cur, False, s'))))"

fun report_all :: "('a \<Rightarrow> 'b \<Rightarrow> 'b result) \<Rightarrow> (string \<times> 'a) list \<Rightarrow> 'b \<Rightarrow> 'b result" where
  "report_all f [] st = Inr st"
| "report_all f ((i, n) # rest) st =
     (case f n st of Inl e \<Rightarrow> Inl e | Inr st' \<Rightarrow> report_all f rest st')"

definition sync ::
  "(peer_map \<Rightarrow> peer_map) \<Rightarrow> string \<Rightarrow> (Node \<Rightarrow> bool \<Rightarrow> 's \<Rightarrow> goerr option \<times> 's) \<Rightarrow> uint64 \<Rightarrow> peer_map \<Rightarrow>
   disc \<times> 's \<Rightarrow> (disc \<times> 's) result" where
  "sync ord selfID onUpdate logicalTime currentPeers st =
     (let (d, s) = st;
          (updatedPeers, removedPeers) = diffNodes ord selfID (ds_peers d) currentPeers
      in (case report_all (report_removed onUpdate (ds_peers d)) (ord removedPeers) (currentPeers, True, s) of
            Inl e \<Rightarrow> Inl e
          | Inr st1 \<Rightarrow>
              (case report_all (report_updated onUpdate) (ord updatedPeers) st1 of
                 Inl e \<Rightarrow> Inl e
               | Inr (cur, good, s') \<Rightarrow>
                   Inr (d\<lparr>ds_peers := cur, ds_last := (if good then logicalTime else ds_last d)\<rparr>, s'))))"

definition poll ::
  "(peer_map \<Rightarrow> peer_map) \<Rightarrow> string \<Rightarrow> (Node \<Rightarrow> bool \<Rightarrow> 's \<Rightarrow> goerr option \<times> 's) option \<Rightarrow> poll_input \<Rightarrow>
   disc \<times> 's \<Rightarrow> (disc \<times> 's) result" where
  "poll ord selfID onUpdate inp st =
     (let (d, s) = st;
          (refreshed, reg) = Registration_Refresh (pi_refresh inp) (ds_reg d);
          d1 = d\<lparr>ds_reg := reg\<rparr>
      in (case refreshed of
            Inl e \<Rightarrow> Inr (d1, s)
          | Inr (valid, logicalTime) \<Rightarrow>
              if \<not> valid then
                (case Register (pi_register inp) of
                   Inl e \<Rightarrow> Inr (d1, s)
                 | Inr newReg \<Rightarrow> Inr (d1\<lparr>ds_reg := newReg, ds_last := logicalTime\<rparr>, s))
              else
                (case onUpdate of
                   None \<Rightarrow> Inr (d1, s)
                 | Some f \<Rightarrow>
                     if ds_last d1 \<noteq> logicalTime then
                       (case GetPeerMap (pi_peers inp) of
                          Inl e \<Rightarrow> Inr (d1, s)
                        | Inr currentPeers \<Rightarrow> sync ord selfID f logicalTime currentPeers (d1, s))
                     else Inr (d1, s))))"

section \<open>Lemmas\<close>

definition keyed :: "peer_map \<Rightarrow> bool" where
  "keyed m \<longleftrightarrow> distinct (map fst m) \<and> (\<forall>i n. map_of m i = Some n \<longrightarrow> pn_ID n = i)"

lemma keyed_Nil: "keyed []"
  by (simp add: keyed_def)

lemma keyed_update: "keyed m \<Longrightarrow> keyed (AList.update (pn_ID n) n m)"
  by (simp add: keyed_def distinct_update AList.update_conv')

lemma GetPeerMap_keyed: "GetPeerMap resp = Inr m \<Longrightarrow> keyed m"
proof -
  have "keyed (fold (\<lambda>p. AList.update (pn_ID p) p) ps t)" if "keyed t" for ps t
    using that by (induction ps arbitrary: t) (simp_all add: keyed_update)
  then show "GetPeerMap resp = Inr m \<Longrightarrow> keyed m" by (auto simp: GetPeerMap_def keyed_Nil split: sum.splits)
qed

lemma keyed_entry: "keyed m \<Longrightarrow> (i, n) \<in> set m \<Longrightarrow> map_of m i = Some n \<and> pn_ID n = i"
  by (simp add: keyed_def)

text \<open>The entries of the two results, in whatever order they are visited.\<close>

lemma diff_entries:
  assumes "is_iter ord" and "keyed old" and "keyed new" and "diffNodes ord selfID old new = (upd, rem)"
  shows "(i, n) \<in> set upd \<longleftrightarrow> map_of new i = Some n \<and> i \<noteq> selfID \<and>
           (\<forall>n'. map_of old i = Some n' \<longrightarrow> pn_LogicalTime n' \<noteq> pn_LogicalTime n)"
    and "(i, n) \<in> set rem \<longleftrightarrow> map_of old i = Some n \<and> i \<noteq> selfID \<and> map_of new i = None"
proof -
  have "(i, n) \<in> set (ord new) \<longleftrightarrow> map_of new i = Some n" "(i, n) \<in> set (ord old) \<longleftrightarrow> map_of old i = Some n"
    using assms(2,3) is_iter_set [OF assms(1)] by (simp_all add: keyed_def)
  then show "(i, n) \<in> set upd \<longleftrightarrow> map_of new i = Some n \<and> i \<noteq> selfID \<and>
        (\<forall>n'. map_of old i = Some n' \<longrightarrow> pn_LogicalTime n' \<noteq> pn_LogicalTime n)"
    "(i, n) \<in> set rem \<longleftrightarrow> map_of old i = Some n \<and> i \<noteq> selfID \<and> map_of new i = None"
    using assms(4) by (auto simp: diffNodes_def split: option.splits)
qed

text \<open>The reports a loop makes, when none of them panics.\<close>

lemma removed_loop:
  assumes "keyed prev" and "\<forall>(i, n) \<in> set rem. map_of prev i = Some n" and "keyed cur"
  shows "\<exists>cur' good' s'. report_all (report_removed f prev) rem (cur, good, s) = Inr (cur', good', s') \<and> keyed cur' \<and>
           (\<forall>i. map_of cur' i = map_of cur i \<or> (i \<in> fst ` set rem \<and> map_of cur' i = map_of prev i)) \<and>
           (good' \<longrightarrow> good \<and> cur' = cur) \<and>
           s' = fold (\<lambda>(n, b) s. snd (f n b s)) (map (\<lambda>(i, n). (NewPeerNode (pn_ID n) (pn_Name n), True)) rem) s"
  using assms(2,3)
proof (induction rem arbitrary: cur good s)
  case (Cons x rem)
  obtain i n where x: "x = (i, n)" by (cases x)
  have n: "map_of prev i = Some n" "pn_ID n = i" using Cons.prems(1) assms(1) x by (auto simp: keyed_def)
  obtain err s1 where f: "f (NewPeerNode (pn_ID n) (pn_Name n)) True s = (err, s1)" by fastforce
  obtain cur1 good1 where r: "report_removed f prev n (cur, good, s) = Inr (cur1, good1, s1)" "keyed cur1"
    "\<forall>j. map_of cur1 j = map_of cur j \<or> (j = i \<and> map_of cur1 j = map_of prev i)" "good1 \<longrightarrow> good \<and> cur1 = cur"
  proof (cases err)
    case None
    then show thesis using f Cons.prems(2) by (intro that [of cur good]) (auto simp: report_removed_def)
  next
    case (Some e)
    then show thesis using f n keyed_update [OF Cons.prems(2), of n]
      by (intro that [of "AList.update (pn_ID n) n cur" False]) (auto simp: report_removed_def AList.update_conv')
  qed
  have "\<forall>(i, n) \<in> set rem. map_of prev i = Some n" using Cons.prems(1) by simp
  from Cons.IH [OF this r(2), of good1 s1] obtain cur' good' s' where
    ih: "report_all (report_removed f prev) rem (cur1, good1, s1) = Inr (cur', good', s')" "keyed cur'"
      "\<forall>i. map_of cur' i = map_of cur1 i \<or> (i \<in> fst ` set rem \<and> map_of cur' i = map_of prev i)"
      "good' \<longrightarrow> good1 \<and> cur' = cur1"
      "s' = fold (\<lambda>(n, b) s. snd (f n b s)) (map (\<lambda>(i, n). (NewPeerNode (pn_ID n) (pn_Name n), True)) rem) s1"
    by blast
  have "map_of cur' j = map_of cur j \<or> (j \<in> fst ` set (x # rem) \<and> map_of cur' j = map_of prev j)" for j
    using ih(3) [rule_format, of j] r(3) [rule_format, of j] x by auto
  moreover have "report_all (report_removed f prev) (x # rem) (cur, good, s) = Inr (cur', good', s')"
    using ih(1) r(1) x by simp
  moreover have "s' = fold (\<lambda>(n, b) s. snd (f n b s))
      (map (\<lambda>(i, n). (NewPeerNode (pn_ID n) (pn_Name n), True)) (x # rem)) s"
    using ih(5) f x by simp
  ultimately show ?case using ih(2,4) r(4) by blast
qed simp

lemma updated_loop:
  assumes "\<forall>(i, n) \<in> set upd. pn_ID n = i \<and> map_of cur i \<noteq> None" and "keyed cur"
  shows "\<exists>cur' good' s'. report_all (report_updated f) upd (cur, good, s) = Inr (cur', good', s') \<and> keyed cur' \<and>
           dom (map_of cur') = dom (map_of cur) \<and>
           (\<forall>i. map_option pn_LogicalTime (map_of cur' i) = map_option pn_LogicalTime (map_of cur i)) \<and>
           (good' \<longrightarrow> good \<and> cur' = cur) \<and>
           s' = fold (\<lambda>(n, b) s. snd (f n b s)) (map (\<lambda>(i, n). (NewPeerNode (pn_ID n) (pn_Name n), False)) upd) s"
  using assms
proof (induction upd arbitrary: cur good s)
  case (Cons x upd)
  obtain i n where x: "x = (i, n)" by (cases x)
  obtain m where m: "map_of cur i = Some m" "pn_ID n = i" "pn_ID m = i"
    using Cons.prems x by (auto simp: keyed_def)
  obtain err s1 where f: "f (NewPeerNode (pn_ID n) (pn_Name n)) False s = (err, s1)" by fastforce
  obtain cur1 good1 where r: "report_updated f n (cur, good, s) = Inr (cur1, good1, s1)" "keyed cur1"
    "dom (map_of cur1) = dom (map_of cur)"
    "\<forall>j. map_option pn_LogicalTime (map_of cur1 j) = map_option pn_LogicalTime (map_of cur j)" "good1 \<longrightarrow> good \<and> cur1 = cur"
  proof (cases err)
    case None
    then show thesis using f Cons.prems(2) by (intro that [of cur good]) (auto simp: report_updated_def)
  next
    case (Some e)
    then show thesis using f m keyed_update [OF Cons.prems(2), of "m\<lparr>pn_LastUpdate := zero_time\<rparr>"]
      by (intro that [of "AList.update (pn_ID m) (m\<lparr>pn_LastUpdate := zero_time\<rparr>) cur" False])
        (auto simp: report_updated_def AList.update_conv')
  qed
  have "\<forall>(i, n) \<in> set upd. pn_ID n = i \<and> map_of cur1 i \<noteq> None" using Cons.prems(1) r(3) by auto
  from Cons.IH [OF this r(2), of good1 s1] obtain cur' good' s' where
    ih: "report_all (report_updated f) upd (cur1, good1, s1) = Inr (cur', good', s')" "keyed cur'"
      "dom (map_of cur') = dom (map_of cur1)"
      "\<forall>i. map_option pn_LogicalTime (map_of cur' i) = map_option pn_LogicalTime (map_of cur1 i)"
      "good' \<longrightarrow> good1 \<and> cur' = cur1"
      "s' = fold (\<lambda>(n, b) s. snd (f n b s)) (map (\<lambda>(i, n). (NewPeerNode (pn_ID n) (pn_Name n), False)) upd) s1"
    by blast
  have "report_all (report_updated f) (x # upd) (cur, good, s) = Inr (cur', good', s')"
    using ih(1) r(1) x by simp
  moreover have "s' = fold (\<lambda>(n, b) s. snd (f n b s))
      (map (\<lambda>(i, n). (NewPeerNode (pn_ID n) (pn_Name n), False)) (x # upd)) s"
    using ih(6) f x by simp
  ultimately show ?case using ih(2-5) r(3-5) by fastforce
qed simp

text \<open>A handler that refuses every report about a peer: its removal is undone, and the round is not good.\<close>

definition refuses :: "(Node \<Rightarrow> bool \<Rightarrow> 's \<Rightarrow> goerr option \<times> 's) \<Rightarrow> string \<Rightarrow> bool" where
  "refuses f i \<longleftrightarrow> (\<forall>n b s. pn_ID n = i \<longrightarrow> fst (f n b s) \<noteq> None)"

lemma refusesD: "refuses f i \<Longrightarrow> f (NewPeerNode i nm) b s \<noteq> (None, s')"
  unfolding refuses_def by (metis NewPeerNode_def PeerNode.select_convs(1) fst_conv)

lemma report_removed_refused:
  assumes "refuses f i" and "report_removed f prev n (c, g, s) = Inr (c', g', s')" and "map_of prev k = Some n" and "keyed prev"
  shows "k = i \<Longrightarrow> map_of c' i = map_of prev i \<and> \<not> g'"
    and "map_of c i = map_of prev i \<and> \<not> g \<Longrightarrow> map_of c' i = map_of prev i \<and> \<not> g'"
proof -
  have k: "pn_ID n = k" using assms(3,4) by (simp add: keyed_def)
  show "k = i \<Longrightarrow> map_of c' i = map_of prev i \<and> \<not> g'"
    using assms(2,3) k refusesD [OF assms(1)]
    by (auto simp: report_removed_def AList.update_conv' Let_def simp del: map_of_eq_Some_iff split: prod.splits option.splits)
  show "map_of c i = map_of prev i \<and> \<not> g \<Longrightarrow> map_of c' i = map_of prev i \<and> \<not> g'"
    using assms(2,3) k
    by (auto simp: report_removed_def AList.update_conv' Let_def simp del: map_of_eq_Some_iff split: prod.splits option.splits)
qed

lemma removed_loop_refused:
  assumes "refuses f i" and "keyed prev" and "\<forall>(j, n) \<in> set rem. map_of prev j = Some n"
    and "report_all (report_removed f prev) rem (cur, good, s) = Inr (cur', good', s')"
    and "i \<in> fst ` set rem \<or> (map_of cur i = map_of prev i \<and> \<not> good)"
  shows "map_of cur' i = map_of prev i \<and> \<not> good'"
  using assms(3-)
proof (induction rem arbitrary: cur good s)
  case (Cons x rem)
  obtain k n where x: "x = (k, n)" by (cases x)
  obtain c g s1 where r: "report_removed f prev n (cur, good, s) = Inr (c, g, s1)"
    "report_all (report_removed f prev) rem (c, g, s1) = Inr (cur', good', s')"
    using Cons.prems(2) x by (auto split: sum.splits)
  have k: "map_of prev k = Some n" using Cons.prems(1) x by simp
  have "i \<in> fst ` set rem \<or> (map_of c i = map_of prev i \<and> \<not> g)"
    using Cons.prems(3) report_removed_refused [OF assms(1) r(1) k assms(2)] x by auto
  then show ?case using Cons.IH [OF _ r(2)] Cons.prems(1) by simp
qed simp

lemma updated_loop_refused:
  assumes "refuses f i" and "\<forall>(j, n) \<in> set upd. pn_ID n = j"
    and "report_all (report_updated f) upd (cur, good, s) = Inr (cur', good', s')"
    and "\<not> good \<or> i \<in> fst ` set upd"
  shows "\<not> good'"
  using assms(2-)
proof (induction upd arbitrary: cur good s)
  case (Cons x upd)
  obtain k n where x: "x = (k, n)" by (cases x)
  obtain c g s1 where r: "report_updated f n (cur, good, s) = Inr (c, g, s1)"
    "report_all (report_updated f) upd (c, g, s1) = Inr (cur', good', s')"
    using Cons.prems(2) x by (auto split: sum.splits)
  have "\<not> g \<or> i \<in> fst ` set upd"
    using r(1) Cons.prems(1,3) refusesD [OF assms(1)] x
    by (auto simp: report_updated_def Let_def simp del: map_of_eq_Some_iff split: prod.splits option.splits)
  then show ?case using Cons.IH [OF _ r(2)] Cons.prems(1) by simp
qed simp

section \<open>One round\<close>

text \<open>The reports of a round, in the order they are made.\<close>

definition reports :: "(peer_map \<Rightarrow> peer_map) \<Rightarrow> string \<Rightarrow> peer_map \<Rightarrow> peer_map \<Rightarrow> (Node \<times> bool) list" where
  "reports ord selfID old new =
     (let (upd, rem) = diffNodes ord selfID old new
      in map (\<lambda>(i, n). (NewPeerNode (pn_ID n) (pn_Name n), True)) (ord rem) @
         map (\<lambda>(i, n). (NewPeerNode (pn_ID n) (pn_Name n), False)) (ord upd))"

definition stamp :: "peer_map \<Rightarrow> string \<Rightarrow> uint64 option" where
  "stamp m i = map_option pn_LogicalTime (map_of m i)"

lemma stamp_changed:
  "map_of new i = Some n \<Longrightarrow>
     (\<forall>n'. map_of old i = Some n' \<longrightarrow> pn_LogicalTime n' \<noteq> pn_LogicalTime n) \<longleftrightarrow> stamp old i \<noteq> stamp new i"
  by (cases "map_of old i") (simp_all add: stamp_def)

lemma reports_set:
  assumes "is_iter ord" and "keyed old" and "keyed new"
  shows "(p, b) \<in> set (reports ord selfID old new) \<longleftrightarrow>
    (\<exists>n. p = NewPeerNode (pn_ID n) (pn_Name n) \<and> pn_ID n \<noteq> selfID \<and>
      (if b then map_of old (pn_ID n) = Some n \<and> map_of new (pn_ID n) = None
       else map_of new (pn_ID n) = Some n \<and> stamp old (pn_ID n) \<noteq> stamp new (pn_ID n)))"
proof -
  obtain upd rem where d: "diffNodes ord selfID old new = (upd, rem)" by (cases "diffNodes ord selfID old new")
  have id: "pn_ID n = i" if "map_of old i = Some n \<or> map_of new i = Some n" for i n
    using that assms(2,3) by (auto simp: keyed_def)
  have "(p, b) \<in> set (reports ord selfID old new) \<longleftrightarrow>
      (\<exists>(i, n) \<in> (if b then set rem else set upd). p = NewPeerNode (pn_ID n) (pn_Name n))"
    by (auto simp: reports_def d is_iter_set [OF assms(1)])
  also have "\<dots> \<longleftrightarrow> (\<exists>i n. (i, n) \<in> (if b then set rem else set upd) \<and> p = NewPeerNode (pn_ID n) (pn_Name n))"
    by auto
  also have "\<dots> \<longleftrightarrow> (\<exists>n. p = NewPeerNode (pn_ID n) (pn_Name n) \<and> (pn_ID n, n) \<in> (if b then set rem else set upd))"
  proof -
    have "pn_ID n = i" if "(i, n) \<in> (if b then set rem else set upd)" for i n
      using that id diff_entries [OF assms d] by (cases b) auto
    then show ?thesis by metis
  qed
  finally show ?thesis
    by (cases b) (simp_all add: diff_entries [OF assms d] stamp_changed conj_ac cong: conj_cong)
qed

lemma diff_distinct:
  assumes "is_iter ord" and "keyed old" and "keyed new" and "diffNodes ord selfID old new = (upd, rem)"
  shows "distinct (map fst (ord upd))" and "distinct (map fst (ord rem))"
proof -
  have "distinct (map fst (filter P (ord m)))" if "keyed m" for P m
    using that is_iter_distinct [OF assms(1)] by (simp add: keyed_def distinct_map_filter)
  then show "distinct (map fst (ord upd))" "distinct (map fst (ord rem))"
    using assms(2-4) unfolding is_iter_distinct [OF assms(1)] by (auto simp: diffNodes_def)
qed

lemma reports_distinct:
  assumes "is_iter ord" and "keyed old" and "keyed new"
  shows "distinct (map (pn_ID \<circ> fst) (reports ord selfID old new))"
proof -
  obtain upd rem where d: "diffNodes ord selfID old new = (upd, rem)" by (cases "diffNodes ord selfID old new")
  note e = diff_entries [OF assms d] and it = is_iter_set [OF assms(1)]
  have "pn_ID n = i" if "(i, n) \<in> set (ord rem) \<union> set (ord upd)" for i n
    using that e it assms(2,3) by (auto simp: keyed_def)
  then have ids: "map (pn_ID \<circ> fst \<circ> (\<lambda>(i, n). (NewPeerNode (pn_ID n) (pn_Name n), b))) xs = map fst xs"
    if "set xs \<subseteq> set (ord rem) \<union> set (ord upd)" for xs b
    using that by (induction xs) (auto simp: NewPeerNode_def)
  have "fst ` set (ord rem) \<inter> fst ` set (ord upd) = {}"
    using e it by auto
  moreover have "map (pn_ID \<circ> fst) (reports ord selfID old new) = map fst (ord rem) @ map fst (ord upd)"
    using ids [of "ord rem" True] ids [of "ord upd" False] by (simp only: reports_def d Let_def prod.case map_append map_map) simp
  ultimately show ?thesis using diff_distinct [OF assms d] by simp
qed

lemma reported_key:
  assumes "is_iter ord" and "keyed old" and "keyed new" and "diffNodes ord selfID old new = (upd, rem)"
    and "i \<in> (pn_ID \<circ> fst) ` set (reports ord selfID old new)"
  shows "i \<in> fst ` set (ord rem) \<or> i \<in> fst ` set (ord upd)"
proof -
  note e = diff_entries [OF assms(1-4)] and it = is_iter_set [OF assms(1)]
  obtain p b where p: "(p, b) \<in> set (reports ord selfID old new)" "pn_ID p = i" using assms(5) by auto
  then have "\<exists>j n. (j, n) \<in> set (ord rem) \<union> set (ord upd) \<and> pn_ID n = i"
    by (auto simp: reports_def assms(4) NewPeerNode_def; blast)
  then obtain j n where j: "(j, n) \<in> set (ord rem) \<union> set (ord upd)" "pn_ID n = i" by blast
  then have "pn_ID n = j" using e it assms(2,3) by (auto simp: keyed_def)
  then show ?thesis using j by force
qed

lemma sync_run:
  assumes "is_iter ord" and "keyed (ds_peers d)" and "keyed new"
  shows "\<exists>cur good. sync ord selfID f t new (d, s) =
      Inr (d\<lparr>ds_peers := cur, ds_last := (if good then t else ds_last d)\<rparr>,
           fold (\<lambda>(n, b) s. snd (f n b s)) (reports ord selfID (ds_peers d) new) s) \<and>
    keyed cur \<and> (good \<longrightarrow> cur = new) \<and>
    (\<forall>i. map_of new i \<noteq> None \<longrightarrow> stamp cur i = stamp new i) \<and>
    dom (map_of cur) \<subseteq> dom (map_of new) \<union> dom (map_of (ds_peers d)) \<and>
    (\<forall>i. refuses f i \<longrightarrow> i \<in> (pn_ID \<circ> fst) ` set (reports ord selfID (ds_peers d) new) \<longrightarrow> \<not> good \<and> map_of cur i \<noteq> None)"
proof -
  let ?old = "ds_peers d"
  obtain upd rem where d: "diffNodes ord selfID ?old new = (upd, rem)" by (cases "diffNodes ord selfID ?old new")
  note e = diff_entries [OF assms d] and it = is_iter_set [OF assms(1)]
  have rem: "\<forall>(i, n) \<in> set (ord rem). map_of ?old i = Some n" using e(2) it by auto
  obtain cur1 good1 s1 where l1:
    "report_all (report_removed f ?old) (ord rem) (new, True, s) = Inr (cur1, good1, s1)" "keyed cur1"
    "\<forall>i. map_of cur1 i = map_of new i \<or> (i \<in> fst ` set (ord rem) \<and> map_of cur1 i = map_of ?old i)"
    "good1 \<longrightarrow> cur1 = new"
    "s1 = fold (\<lambda>(n, b) s. snd (f n b s)) (map (\<lambda>(i, n). (NewPeerNode (pn_ID n) (pn_Name n), True)) (ord rem)) s"
    using removed_loop [OF assms(2) rem assms(3), of f True s] by blast
  have new: "map_of cur1 i = map_of new i" if "map_of new i \<noteq> None" for i
    using l1(3) [rule_format, of i] that e(2) it by auto
  have upd: "\<forall>(i, n) \<in> set (ord upd). pn_ID n = i \<and> map_of cur1 i \<noteq> None"
    using e(1) it new assms(3) unfolding keyed_def by fastforce
  obtain cur good s2 where l2:
    "report_all (report_updated f) (ord upd) (cur1, good1, s1) = Inr (cur, good, s2)" "keyed cur"
    "dom (map_of cur) = dom (map_of cur1)"
    "\<forall>i. map_option pn_LogicalTime (map_of cur i) = map_option pn_LogicalTime (map_of cur1 i)"
    "good \<longrightarrow> good1 \<and> cur = cur1"
    "s2 = fold (\<lambda>(n, b) s. snd (f n b s)) (map (\<lambda>(i, n). (NewPeerNode (pn_ID n) (pn_Name n), False)) (ord upd)) s1"
    using updated_loop [OF upd l1(2), of f good1 s1] by blast
  have present: "map_of cur i \<noteq> None \<longleftrightarrow> map_of cur1 i \<noteq> None" for i using l2(3) by (simp add: set_eq_iff domIff)
  have "\<not> good \<and> map_of cur i \<noteq> None"
    if r: "refuses f i" and i: "i \<in> (pn_ID \<circ> fst) ` set (reports ord selfID ?old new)" for i
  proof -
    have "i \<in> fst ` set (ord rem) \<or> i \<in> fst ` set (ord upd)" by (rule reported_key [OF assms d i])
    then show ?thesis
    proof
      assume "i \<in> fst ` set (ord rem)"
      then have "map_of cur1 i = map_of ?old i \<and> \<not> good1" "map_of ?old i \<noteq> None"
        using removed_loop_refused [OF r assms(2) rem l1(1)] rem by auto
      then show ?thesis using l2(5) present by metis
    next
      assume "i \<in> fst ` set (ord upd)"
      then obtain n where n: "(i, n) \<in> set (ord upd)" by auto
      have "\<forall>(j, n) \<in> set (ord upd). pn_ID n = j" using upd by blast
      then have "\<not> good" by (rule updated_loop_refused [OF r _ l2(1)]) (use \<open>i \<in> fst ` set (ord upd)\<close> in simp)
      moreover have "map_of cur1 i \<noteq> None" using upd n by blast
      ultimately show ?thesis using present by blast
    qed
  qed
  moreover have "sync ord selfID f t new (d, s) =
      Inr (d\<lparr>ds_peers := cur, ds_last := (if good then t else ds_last d)\<rparr>,
           fold (\<lambda>(n, b) s. snd (f n b s)) (reports ord selfID ?old new) s)"
    using l1(1,5) l2(1,6) by (simp add: sync_def d reports_def)
  moreover have "dom (map_of cur) \<subseteq> dom (map_of new) \<union> dom (map_of ?old)"
  proof
    fix i
    assume "i \<in> dom (map_of cur)"
    then have "map_of cur1 i \<noteq> None" using present by (simp add: domIff)
    then show "i \<in> dom (map_of new) \<union> dom (map_of ?old)" using l1(3) [rule_format, of i] by auto
  qed
  moreover have "\<forall>i. map_of new i \<noteq> None \<longrightarrow> stamp cur i = stamp new i"
    using new l2(4) by (simp add: stamp_def)
  ultimately show ?thesis using l1(4) l2(2,5) by blast
qed

end
