(* ===== verification/DiscoveryRounds.thy ===== *)
theory DiscoveryRounds
  imports Discovery
begin

text \<open>
  The rounds of the discovery loop: what a round reports to the handler, that no round panics, and, for
  every handler that satisfies the contract \<open>peer_sink\<close>, that the peers the handler is linked to are
  the ones the admin server lists. The proxy of \<open>pkg/proxy\<close> is such a handler.
\<close>

section \<open>Rounds\<close>

text \<open>A round in which the admin server confirms the registration at time \<open>t\<close> and lists \<open>ns\<close>.\<close>

definition answered :: "poll_input \<Rightarrow> uint64 \<Rightarrow> Node list \<Rightarrow> bool" where
  "answered inp t ns \<longleftrightarrow>
     (case pi_refresh inp of Inl e \<Rightarrow> False | Inr v \<Rightarrow> rr_LogicalTime v = t) \<and> pi_peers inp = Inr ns"

definition listing :: "Node list \<Rightarrow> peer_map" where
  "listing ns = fold (\<lambda>p. AList.update (pn_ID p) p) ns []"

lemma GetPeerMap_listing: "GetPeerMap (Inr ns) = Inr (listing ns)"
  by (simp add: GetPeerMap_def listing_def)

lemma listing_keyed: "keyed (listing ns)"
  using GetPeerMap_keyed GetPeerMap_listing by blast

lemma listing_lookup: "map_of (listing ns) = (\<lambda>i. List.find (\<lambda>p. pn_ID p = i) (rev ns))"
proof -
  have "map_of (fold (\<lambda>p. AList.update (pn_ID p) p) ns m) i =
      (case List.find (\<lambda>p. pn_ID p = i) (rev ns) of None \<Rightarrow> map_of m i | Some p \<Rightarrow> Some p)" for m i
  proof (induction ns rule: rev_induct)
    case (snoc p ns)
    then show ?case by (simp add: AList.update_conv')
  qed simp
  from this [of "[]"] show ?thesis by (auto simp: listing_def fun_eq_iff split: option.splits)
qed

lemma listing_dom: "dom (map_of (listing ns)) = pn_ID ` set ns"
  by (force simp: listing_lookup dom_def find_None_iff)

lemma listing_distinct:
  assumes "distinct (map pn_ID ns)"
  shows "map_of (listing ns) i = Some n \<longleftrightarrow> n \<in> set ns \<and> pn_ID n = i"
proof -
  have "map_of (listing ns) i = Some n \<Longrightarrow> n \<in> set ns \<and> pn_ID n = i" for n
    by (auto simp: listing_lookup find_Some_iff) (metis nth_mem set_rev length_rev)
  moreover have "map_of (listing ns) i \<noteq> None" if "n \<in> set ns" "pn_ID n = i"
    using listing_dom [of ns] that by blast
  ultimately show ?thesis using assms by (metis distinct_map inj_onD not_None_eq)
qed

lemma poll_answered:
  assumes "answered inp t ns" and "ds_last d \<noteq> t"
  shows "\<exists>reg. poll ord selfID (Some f) inp (d, s) = sync ord selfID f t (listing ns) (d\<lparr>ds_reg := reg\<rparr>, s)"
  using assms by (auto simp: answered_def poll_def Registration_Refresh_def GetPeerMap_listing split: sum.splits)

lemma poll_otherwise:
  assumes "\<nexists>t ns. answered inp t ns \<and> ds_last d \<noteq> t"
  shows "\<exists>d'. poll ord selfID (Some f) inp (d, s) = Inr (d', s) \<and> ds_peers d' = ds_peers d"
  using assms
  by (auto simp: answered_def poll_def Registration_Refresh_def GetPeerMap_def Let_def split: sum.splits prod.splits)

section \<open>Handlers under the contract\<close>

definition listening :: "('s \<Rightarrow> bool) \<Rightarrow> ('s \<Rightarrow> string \<Rightarrow> bool) \<Rightarrow> string \<Rightarrow> disc \<Rightarrow> 's \<Rightarrow> bool" where
  "listening ok link selfID d s \<longleftrightarrow>
     ok s \<and> keyed (ds_peers d) \<and> (\<forall>i. link s i \<longrightarrow> i = selfID \<or> map_of (ds_peers d) i \<noteq> None)"

context peer_sink
begin

lemma removals_succeed:
  assumes "inv s"
  shows "report_all (report_removed handle prev) rem (cur, good, s) =
    Inr (cur, good, fold (\<lambda>(n, b) s. snd (handle n b s))
      (map (\<lambda>(i, n). (NewPeerNode (pn_ID n) (pn_Name n), True)) rem) s)"
  using assms
proof (induction rem arbitrary: s)
  case (Cons x rem)
  obtain i n where x: "x = (i, n)" by (cases x)
  let ?p = "NewPeerNode (pn_ID n) (pn_Name n)"
  obtain s1 where h: "handle ?p True s = (None, s1)" using removal_ok [OF Cons.prems, of ?p] by (cases "handle ?p True s") simp
  then have "report_removed handle prev n (cur, good, s) = Inr (cur, good, s1)" by (simp add: report_removed_def)
  then show ?case using Cons.IH [OF keeps_inv [OF Cons.prems, of ?p True]] x h by simp
qed simp

lemma run_removed:
  assumes "inv s" and "\<forall>(n, b) \<in> set rs. b" and "i \<in> (pn_ID \<circ> fst) ` set rs"
  shows "\<not> link (fold (\<lambda>(n, b) s. snd (handle n b s)) rs s) i"
  using assms
proof (induction rs rule: rev_induct)
  case (snoc x rs)
  obtain n where x: "x = (n, True)" using snoc.prems(2) by (cases x) auto
  let ?s = "fold (\<lambda>(n, b) s. snd (handle n b s)) rs s"
  have inv: "inv ?s" by (rule run_inv [OF snoc.prems(1)])
  show ?case
  proof (cases "i = pn_ID n")
    case True
    then show ?thesis using removal_unlinks [OF inv, of n] x by simp
  next
    case False
    then have "\<not> link ?s i" using snoc x by auto
    then show ?thesis using no_other [OF inv, of n True i] False x by auto
  qed
qed simp

text \<open>After the reports of one comparison only listed nodes are linked.\<close>

lemma reported_links:
  assumes "is_iter ord" and "inv s" and "keyed old" and "keyed new"
    and old: "\<And>i. link s i \<Longrightarrow> i = selfID \<or> map_of old i \<noteq> None"
    and linked: "link (fold (\<lambda>(n, b) s. snd (handle n b s)) (reports ord selfID old new) s) i"
  shows "i = selfID \<or> map_of new i \<noteq> None"
proof -
  obtain upd rem where d: "diffNodes ord selfID old new = (upd, rem)" by (cases "diffNodes ord selfID old new")
  let ?call = "\<lambda>(n, b) s. snd (handle n b s)"
  let ?R = "map (\<lambda>(i, n). (NewPeerNode (pn_ID n) (pn_Name n), True)) (ord rem)"
  let ?U = "map (\<lambda>(i, n). (NewPeerNode (pn_ID n) (pn_Name n), False)) (ord upd)"
  have e: "(i, n) \<in> set upd \<Longrightarrow> map_of new i = Some n \<and> i \<noteq> selfID \<and> pn_ID n = i"
      "(i, n) \<in> set rem \<longleftrightarrow> map_of old i = Some n \<and> i \<noteq> selfID \<and> map_of new i = None" for i n
    using diff_entries [OF assms(1,3,4) d] assms(4) by (auto simp: keyed_def)
  have rem_id: "pn_ID n = i" if "(i, n) \<in> set rem" for i n using that e(2) assms(3) by (auto simp: keyed_def)
  have "link (fold ?call ?R s) i \<or> (\<exists>n. (n, False) \<in> set ?U \<and> pn_ID n = i)"
    using run_links [OF run_inv [OF assms(2)], of ?U ?R i] linked by (simp add: reports_def d)
  then show ?thesis
  proof
    assume lk: "link (fold ?call ?R s) i"
    then have "link s i" using run_links [OF assms(2) lk] by auto
    moreover have "\<forall>(n, b) \<in> set ?R. b" by auto
    then have "i \<notin> (pn_ID \<circ> fst) ` set ?R" using run_removed [OF assms(2), of ?R i] lk by blast
    then have "(i, n) \<notin> set rem" for n
      using rem_id [of i n] is_iter_set [OF assms(1), of rem] by (force simp: NewPeerNode_def)
    ultimately show ?thesis using old [of i] e(2) [of i] by auto
  next
    assume "\<exists>n. (n, False) \<in> set ?U \<and> pn_ID n = i"
    then obtain j n where j: "(j, n) \<in> set upd" "pn_ID n = i"
      using is_iter_set [OF assms(1), of upd] by (auto simp: NewPeerNode_def)
    then show ?thesis using e(1) [OF j(1)] by auto
  qed
qed

lemma sync_listening:
  assumes "is_iter ord" and "listening inv link selfID d s" and "keyed new"
  shows "\<exists>d' s'. sync ord selfID handle t new (d, s) = Inr (d', s') \<and> listening inv link selfID d' s' \<and>
    (\<forall>i. link s' i \<longrightarrow> i = selfID \<or> map_of new i \<noteq> None)"
proof -
  have l: "inv s" "keyed (ds_peers d)" "\<And>i. link s i \<Longrightarrow> i = selfID \<or> map_of (ds_peers d) i \<noteq> None"
    using assms(2) by (auto simp: listening_def)
  let ?s = "fold (\<lambda>(n, b) s. snd (handle n b s)) (reports ord selfID (ds_peers d) new) s"
  obtain cur good where run: "sync ord selfID handle t new (d, s) =
      Inr (d\<lparr>ds_peers := cur, ds_last := (if good then t else ds_last d)\<rparr>, ?s)"
    "keyed cur" "\<forall>i. map_of new i \<noteq> None \<longrightarrow> stamp cur i = stamp new i"
    using sync_run [OF assms(1) l(2) assms(3), of selfID handle t s] by blast
  let ?d = "d\<lparr>ds_peers := cur, ds_last := (if good then t else ds_last d)\<rparr>"
  have links: "i = selfID \<or> map_of new i \<noteq> None" if "link ?s i" for i
    by (rule reported_links [OF assms(1) l(1,2) assms(3) l(3) that])
  have inv: "inv ?s" by (rule run_inv [OF l(1)])
  have kept: "map_of cur i \<noteq> None" if "map_of new i \<noteq> None" for i
    using run(3) [rule_format, OF that] that by (auto simp: stamp_def)
  have "i = selfID \<or> map_of (ds_peers ?d) i \<noteq> None" if "link ?s i" for i
    using links [OF that] kept [of i] by (simp del: not_None_eq) blast
  then have "listening inv link selfID ?d ?s" using inv run(2) by (simp add: listening_def)
  with run(1) links show ?thesis by blast
qed

lemma poll_listening:
  assumes "is_iter ord" and "listening inv link selfID d s"
  shows "\<exists>d' s'. poll ord selfID (Some handle) inp (d, s) = Inr (d', s') \<and> listening inv link selfID d' s' \<and>
    (\<forall>t ns i. answered inp t ns \<longrightarrow> ds_last d \<noteq> t \<longrightarrow> link s' i \<longrightarrow> i = selfID \<or> i \<in> pn_ID ` set ns)"
proof (cases "\<exists>t ns. answered inp t ns \<and> ds_last d \<noteq> t")
  case True
  then obtain t ns where a: "answered inp t ns" "ds_last d \<noteq> t" by blast
  have uniq: "ns' = ns" if "answered inp t' ns'" for t' ns' using that a(1) by (simp add: answered_def)
  obtain reg where p: "poll ord selfID (Some handle) inp (d, s) = sync ord selfID handle t (listing ns) (d\<lparr>ds_reg := reg\<rparr>, s)"
    using poll_answered [OF a, of ord selfID handle s] by blast
  have "listening inv link selfID (d\<lparr>ds_reg := reg\<rparr>) s" using assms(2) by (simp add: listening_def)
  from sync_listening [OF assms(1) this listing_keyed [of ns], of t] obtain d' s' where
    r: "sync ord selfID handle t (listing ns) (d\<lparr>ds_reg := reg\<rparr>, s) = Inr (d', s')" "listening inv link selfID d' s'"
      "\<forall>i. link s' i \<longrightarrow> i = selfID \<or> map_of (listing ns) i \<noteq> None" by blast
  have "i = selfID \<or> i \<in> pn_ID ` set ns" if "link s' i" for i using r(3) that listing_dom [of ns] by blast
  then show ?thesis using p r(1,2) uniq by auto
next
  case False
  then obtain d' where "poll ord selfID (Some handle) inp (d, s) = Inr (d', s)" "ds_peers d' = ds_peers d"
    using poll_otherwise [of inp d ord selfID handle s] by blast
  then show ?thesis using assms(2) False by (auto simp: listening_def)
qed

end

section \<open>Sequences of rounds\<close>

fun rounds ::
  "(peer_map \<Rightarrow> peer_map) \<Rightarrow> string \<Rightarrow> (Node \<Rightarrow> bool \<Rightarrow> 's \<Rightarrow> goerr option \<times> 's) option \<Rightarrow> poll_input list \<Rightarrow>
   disc \<times> 's \<Rightarrow> (disc \<times> 's) result" where
  "rounds ord selfID onUpdate [] st = Inr st"
| "rounds ord selfID onUpdate (inp # inps) st =
     (case poll ord selfID onUpdate inp st of Inl e \<Rightarrow> Inl e | Inr st' \<Rightarrow> rounds ord selfID onUpdate inps st')"

lemma poll_round:
  assumes "is_iter ord" and "keyed (ds_peers d)" and "answered inp t ns" and "ds_last d \<noteq> t"
    and "poll ord selfID (Some f) inp (d, s) = Inr (d', s')"
  shows "keyed (ds_peers d')"
    and "map_of (listing ns) i \<noteq> None \<Longrightarrow> stamp (ds_peers d') i = stamp (listing ns) i"
    and "refuses f i \<Longrightarrow> i \<in> (pn_ID \<circ> fst) ` set (reports ord selfID (ds_peers d) (listing ns)) \<Longrightarrow>
      ds_last d' = ds_last d \<and> map_of (ds_peers d') i \<noteq> None"
    and "ds_last d' = t \<and> ds_peers d' = listing ns \<or> ds_last d' = ds_last d"
    and "s' = fold (\<lambda>(n, b) s. snd (f n b s)) (reports ord selfID (ds_peers d) (listing ns)) s"
proof -
  obtain reg where p: "poll ord selfID (Some f) inp (d, s) = sync ord selfID f t (listing ns) (d\<lparr>ds_reg := reg\<rparr>, s)"
    using poll_answered [OF assms(3,4), of ord selfID f s] by blast
  let ?d = "d\<lparr>ds_reg := reg\<rparr>" and ?rs = "reports ord selfID (ds_peers (d\<lparr>ds_reg := reg\<rparr>)) (listing ns)"
  have "keyed (ds_peers ?d)" using assms(2) by simp
  from sync_run [OF assms(1) this listing_keyed [of ns], of selfID f t s] obtain cur good where
    sync: "sync ord selfID f t (listing ns) (?d, s) =
      Inr (?d\<lparr>ds_peers := cur, ds_last := (if good then t else ds_last ?d)\<rparr>, fold (\<lambda>(n, b) s. snd (f n b s)) ?rs s)" and
    run: "keyed cur" "\<forall>i. map_of (listing ns) i \<noteq> None \<longrightarrow> stamp cur i = stamp (listing ns) i"
      "\<forall>i. refuses f i \<longrightarrow> i \<in> (pn_ID \<circ> fst) ` set ?rs \<longrightarrow> \<not> good \<and> map_of cur i \<noteq> None"
      "good \<longrightarrow> cur = listing ns"
    by blast
  have d': "d' = ?d\<lparr>ds_peers := cur, ds_last := (if good then t else ds_last ?d)\<rparr>" using assms(5) p sync by simp
  show "keyed (ds_peers d')" using run(1) by (simp add: d')
  show "map_of (listing ns) i \<noteq> None \<Longrightarrow> stamp (ds_peers d') i = stamp (listing ns) i"
    using run(2) by (simp add: d')
  show "refuses f i \<Longrightarrow> i \<in> (pn_ID \<circ> fst) ` set (reports ord selfID (ds_peers d) (listing ns)) \<Longrightarrow>
      ds_last d' = ds_last d \<and> map_of (ds_peers d') i \<noteq> None"
    using run(3) by (simp add: d')
  show "ds_last d' = t \<and> ds_peers d' = listing ns \<or> ds_last d' = ds_last d" using run(4) by (simp add: d')
  show "s' = fold (\<lambda>(n, b) s. snd (f n b s)) (reports ord selfID (ds_peers d) (listing ns)) s"
    using assms(5) p sync by simp
qed

lemma listing_None: "map_of (listing ns) i = None \<longleftrightarrow> i \<notin> pn_ID ` set ns"
  unfolding listing_dom [symmetric] by (simp add: domIff)

lemma NewPeerNode_ID [simp]: "pn_ID (NewPeerNode i name) = i"
  by (simp add: NewPeerNode_def)

lemma stamp_Some: "map_of m i = Some n \<Longrightarrow> stamp m i = Some (pn_LogicalTime n)"
  by (simp add: stamp_def)

text \<open>Which peers a round reports.\<close>

lemma reported_gone:
  assumes "is_iter ord" and "keyed old" and "map_of old i \<noteq> None" and "i \<notin> pn_ID ` set ns" and "i \<noteq> selfID"
  shows "\<exists>p. (p, True) \<in> set (reports ord selfID old (listing ns)) \<and> pn_ID p = i"
proof -
  obtain n where n: "map_of old i = Some n" using assms(3) by blast
  moreover have "pn_ID n = i" using n assms(2) by (simp add: keyed_def)
  ultimately have "(NewPeerNode i (pn_Name n), True) \<in> set (reports ord selfID old (listing ns))"
    unfolding reports_set [OF assms(1,2) listing_keyed [of ns]] using assms(4,5) listing_None [of ns i] by auto
  then show ?thesis by (intro exI [of _ "NewPeerNode i (pn_Name n)"]) simp
qed

lemma reported_present:
  assumes "is_iter ord" and "keyed old" and "i \<in> pn_ID ` set ns" and "i \<noteq> selfID"
  shows "(\<exists>p b. (p, b) \<in> set (reports ord selfID old (listing ns)) \<and> pn_ID p = i) \<longleftrightarrow> stamp old i \<noteq> stamp (listing ns) i"
proof -
  obtain n where n: "map_of (listing ns) i = Some n" using assms(3) listing_None [of ns i] by auto
  have i: "pn_ID n = i" using n listing_keyed [of ns] by (simp add: keyed_def)
  show ?thesis
  proof
    assume "\<exists>p b. (p, b) \<in> set (reports ord selfID old (listing ns)) \<and> pn_ID p = i"
    then obtain p b where p: "(p, b) \<in> set (reports ord selfID old (listing ns))" "pn_ID p = i" by blast
    then show "stamp old i \<noteq> stamp (listing ns) i"
      using n unfolding reports_set [OF assms(1,2) listing_keyed [of ns]] by (cases b) auto
  next
    assume "stamp old i \<noteq> stamp (listing ns) i"
    then have "(NewPeerNode i (pn_Name n), False) \<in> set (reports ord selfID old (listing ns))"
      unfolding reports_set [OF assms(1,2) listing_keyed [of ns]] using n i assms(4) by auto
    then show "\<exists>p b. (p, b) \<in> set (reports ord selfID old (listing ns)) \<and> pn_ID p = i" by force
  qed
qed

lemma poll_total:
  assumes "is_iter ord" and "keyed (ds_peers d)"
  shows "\<exists>d' s'. poll ord selfID onUpdate inp (d, s) = Inr (d', s') \<and> keyed (ds_peers d')"
proof (cases "\<exists>f t ns. onUpdate = Some f \<and> answered inp t ns \<and> ds_last d \<noteq> t")
  case True
  then obtain f t ns where a: "onUpdate = Some f" "answered inp t ns" "ds_last d \<noteq> t" by blast
  then obtain reg where p: "poll ord selfID onUpdate inp (d, s) = sync ord selfID f t (listing ns) (d\<lparr>ds_reg := reg\<rparr>, s)"
    using poll_answered [of inp t ns d ord selfID f s] by blast
  have "keyed (ds_peers (d\<lparr>ds_reg := reg\<rparr>))" using assms(2) by simp
  from sync_run [OF assms(1) this listing_keyed [of ns], of selfID f t s] show ?thesis unfolding p by fastforce
next
  case False
  then show ?thesis
  proof (cases onUpdate)
    case None
    then show ?thesis using assms(2)
      by (auto simp: poll_def Registration_Refresh_def Let_def split: sum.splits prod.splits)
  next
    case (Some f)
    then have "\<nexists>t ns. answered inp t ns \<and> ds_last d \<noteq> t" using False by blast
    from poll_otherwise [OF this, of ord selfID f s] show ?thesis using Some assms(2) by auto
  qed
qed

lemma rounds_total:
  assumes "is_iter ord" and "keyed (ds_peers d)"
  shows "\<exists>d' s'. rounds ord selfID onUpdate inps (d, s) = Inr (d', s') \<and> keyed (ds_peers d')"
  using assms(2)
proof (induction inps arbitrary: d s)
  case (Cons inp inps)
  obtain d1 s1 where "poll ord selfID onUpdate inp (d, s) = Inr (d1, s1)" "keyed (ds_peers d1)"
    using poll_total [OF assms(1) Cons.prems, of selfID onUpdate inp s] by blast
  then show ?case using Cons.IH [of d1 s1] by simp
qed simp

context peer_sink
begin

lemma rounds_listening:
  assumes "is_iter ord" and "listening inv link selfID d s" and "rounds ord selfID (Some handle) inps (d, s) = Inr (d', s')"
  shows "listening inv link selfID d' s'"
  using assms(2,3)
proof (induction inps arbitrary: d s)
  case (Cons inp inps)
  obtain d1 s1 where "poll ord selfID (Some handle) inp (d, s) = Inr (d1, s1)" "listening inv link selfID d1 s1"
    using poll_listening [OF assms(1) Cons.prems(1)] by blast
  then show ?case using Cons.IH [of d1 s1] Cons.prems(2) by simp
qed simp

end

section \<open>An example\<close>

text \<open>A handler that records every report and refuses it; node \<open>b\<close> is listed at time 1.\<close>

definition ex_refuse :: "Node \<Rightarrow> bool \<Rightarrow> (Node \<times> bool) list \<Rightarrow> goerr option \<times> (Node \<times> bool) list" where
  "ex_refuse n b s = (Some (GoErr ''refused''), s @ [(n, b)])"

definition ex_listed :: "string \<Rightarrow> uint64 \<Rightarrow> Node" where
  "ex_listed i t = (NewPeerNode i ''peer'')\<lparr>pn_LogicalTime := t\<rparr>"

definition ex_disc :: "Node list \<Rightarrow> disc" where
  "ex_disc ns = \<lparr>ds_reg = \<lparr>rg_node = ex_listed ''me'' 0, rg_token = ''t''\<rparr>, ds_last = 0, ds_peers = listing ns\<rparr>"

definition ex_poll :: "uint64 \<Rightarrow> Node list \<Rightarrow> poll_input" where
  "ex_poll t ns =
     (let v = \<lparr>rr_Node = ex_listed ''me'' 0, rr_Token = ''t'', rr_LogicalTime = t, rr_LastUpdate = zero_time\<rparr>
      in \<lparr>pi_refresh = Inr v, pi_register = Inr v, pi_peers = Inr ns\<rparr>)"

lemma ex_disc_keyed: "keyed (ds_peers (ex_disc ns))"
  by (simp add: ex_disc_def listing_keyed)

lemma ex_poll_answered: "answered (ex_poll t ns) t ns"
  by (simp add: ex_poll_def answered_def Let_def)

lemma ex_refuses: "refuses ex_refuse i"
  by (simp add: ex_refuse_def refuses_def)

lemma ex_last: "ds_last (ex_disc ns) \<noteq> 1"
  by (simp add: ex_disc_def)

lemma ex_polled:
  "\<exists>d' s'. poll (\<lambda>xs. xs) ''me'' (Some ex_refuse) (ex_poll 1 ns) (ex_disc ms, []) = Inr (d', s')"
  using poll_total [OF is_iter_id ex_disc_keyed, of "''me''" "Some ex_refuse" "ex_poll 1 ns" ms "[]"] by blast

section \<open>Properties\<close>

text \<open>
  C18. The discovery loop never panics: starting with no known peers, whatever the admin server
  answers in each round, whatever the handler returns and in whatever order maps are visited,
  neither of the two panics of the loop is reached.
\<close>

theorem discovery_never_panics:
  assumes "is_iter ord" and "ds_peers d = []"
  shows "\<exists>st. rounds ord selfID onUpdate inps (d, s) = Inr st"
  using rounds_total [OF assms(1), of d selfID onUpdate inps s] assms(2) keyed_Nil by auto

theorem discovery_never_panics_witness:
  "\<exists>st. rounds (\<lambda>xs. xs) ''me'' (Some ex_refuse) [ex_poll 1 [ex_listed ''b'' 1], ex_poll 2 []] (ex_disc [], []) = Inr st"
  by (rule discovery_never_panics [OF is_iter_id]) (simp add: ex_disc_def listing_def)

text \<open>
  C19. What a round reports. When the server's time has moved, each known peer that is no longer listed
  is reported as removed, each listed peer that is new or carries another logical time is reported
  as present, the node itself is never reported, and no peer is reported twice; the removals come
  first. When the round went well, the listing and its time are remembered; otherwise the old time
  is kept, so that the next round compares again.
\<close>

theorem poll_round_exact:
  assumes "is_iter ord" and "keyed (ds_peers d)" and "answered inp t ns" and "ds_last d \<noteq> t"
  shows "\<exists>gone came d'.
    poll ord selfID (Some f) inp (d, s) = Inr (d', fold (\<lambda>(n, b) s. snd (f n b s)) (gone @ came) s) \<and>
    distinct (map (pn_ID \<circ> fst) (gone @ came)) \<and>
    (\<forall>p b. (p, b) \<in> set gone \<longleftrightarrow> b \<and> (\<exists>n. map_of (ds_peers d) (pn_ID n) = Some n \<and>
       p = NewPeerNode (pn_ID n) (pn_Name n) \<and> pn_ID n \<noteq> selfID \<and> pn_ID n \<notin> pn_ID ` set ns)) \<and>
    (\<forall>p b. (p, b) \<in> set came \<longleftrightarrow> \<not> b \<and> (\<exists>n. map_of (listing ns) (pn_ID n) = Some n \<and>
       p = NewPeerNode (pn_ID n) (pn_Name n) \<and> pn_ID n \<noteq> selfID \<and>
       stamp (ds_peers d) (pn_ID n) \<noteq> Some (pn_LogicalTime n))) \<and>
    keyed (ds_peers d') \<and>
    (ds_last d' = t \<and> ds_peers d' = listing ns \<or> ds_last d' = ds_last d)"
proof -
  obtain reg where p: "poll ord selfID (Some f) inp (d, s) = sync ord selfID f t (listing ns) (d\<lparr>ds_reg := reg\<rparr>, s)"
    using poll_answered [OF assms(3,4), of ord selfID f s] by blast
  let ?d = "d\<lparr>ds_reg := reg\<rparr>"
  have k: "keyed (ds_peers ?d)" using assms(2) by simp
  obtain upd rem where df: "diffNodes ord selfID (ds_peers ?d) (listing ns) = (upd, rem)"
    by (cases "diffNodes ord selfID (ds_peers ?d) (listing ns)")
  let ?gone = "map (\<lambda>(i, n). (NewPeerNode (pn_ID n) (pn_Name n), True)) (ord rem)"
  let ?came = "map (\<lambda>(i, n). (NewPeerNode (pn_ID n) (pn_Name n), False)) (ord upd)"
  have r: "reports ord selfID (ds_peers ?d) (listing ns) = ?gone @ ?came" unfolding reports_def df by simp
  obtain cur good where run: "sync ord selfID f t (listing ns) (?d, s) =
      Inr (?d\<lparr>ds_peers := cur, ds_last := (if good then t else ds_last ?d)\<rparr>, fold (\<lambda>(n, b) s. snd (f n b s)) (?gone @ ?came) s)"
    "keyed cur" "good \<longrightarrow> cur = listing ns"
    using sync_run [OF assms(1) k listing_keyed [of ns], of selfID f t s] unfolding r by blast
  have mem: "(p, b) \<in> set (?gone @ ?came) \<longleftrightarrow>
    (\<exists>n. p = NewPeerNode (pn_ID n) (pn_Name n) \<and> pn_ID n \<noteq> selfID \<and>
      (if b then map_of (ds_peers d) (pn_ID n) = Some n \<and> map_of (listing ns) (pn_ID n) = None
       else map_of (listing ns) (pn_ID n) = Some n \<and> stamp (ds_peers d) (pn_ID n) \<noteq> stamp (listing ns) (pn_ID n)))" for p b
    using reports_set [OF assms(1) k listing_keyed [of ns], of p b selfID] unfolding r by simp
  have gone: "(p, b) \<in> set ?gone \<longleftrightarrow> b \<and> (p, True) \<in> set (?gone @ ?came)" and
    came: "(p, b) \<in> set ?came \<longleftrightarrow> \<not> b \<and> (p, False) \<in> set (?gone @ ?came)" for p b by auto
  have dist: "distinct (map (pn_ID \<circ> fst) (?gone @ ?came))"
    using reports_distinct [OF assms(1) k listing_keyed [of ns], of selfID] unfolding r .
  show ?thesis
  proof (rule exI [of _ ?gone], rule exI [of _ ?came],
      rule exI [of _ "?d\<lparr>ds_peers := cur, ds_last := (if good then t else ds_last ?d)\<rparr>"], intro conjI allI)
    show "(p, b) \<in> set ?gone \<longleftrightarrow> b \<and> (\<exists>n. map_of (ds_peers d) (pn_ID n) = Some n \<and>
       p = NewPeerNode (pn_ID n) (pn_Name n) \<and> pn_ID n \<noteq> selfID \<and> pn_ID n \<notin> pn_ID ` set ns)" for p b
      unfolding gone mem by (auto simp: listing_None)
    show "(p, b) \<in> set ?came \<longleftrightarrow> \<not> b \<and> (\<exists>n. map_of (listing ns) (pn_ID n) = Some n \<and>
       p = NewPeerNode (pn_ID n) (pn_Name n) \<and> pn_ID n \<noteq> selfID \<and>
       stamp (ds_peers d) (pn_ID n) \<noteq> Some (pn_LogicalTime n))" for p b
      unfolding came mem by (auto simp: stamp_Some)
  qed (use p run dist in auto)
qed

theorem poll_round_exact_witness:
  "\<exists>rs d'. poll (\<lambda>xs. xs) ''me'' (Some ex_refuse) (ex_poll 1 [ex_listed ''b'' 1]) (ex_disc [], []) =
      Inr (d', fold (\<lambda>(n, b) s. snd (ex_refuse n b s)) rs []) \<and> distinct (map (pn_ID \<circ> fst) rs) \<and>
      (NewPeerNode ''b'' ''peer'', False) \<in> set rs"
proof -
  let ?n = "ex_listed ''b'' 1"
  obtain gone came d' where
    r: "poll (\<lambda>xs. xs) ''me'' (Some ex_refuse) (ex_poll 1 [?n]) (ex_disc [], []) =
        Inr (d', fold (\<lambda>(n, b) s. snd (ex_refuse n b s)) (gone @ came) [])"
      "distinct (map (pn_ID \<circ> fst) (gone @ came))"
    and c: "\<forall>p b. (p, b) \<in> set came \<longleftrightarrow> \<not> b \<and> (\<exists>n. map_of (listing [?n]) (pn_ID n) = Some n \<and>
       p = NewPeerNode (pn_ID n) (pn_Name n) \<and> pn_ID n \<noteq> ''me'' \<and>
       stamp (ds_peers (ex_disc [])) (pn_ID n) \<noteq> Some (pn_LogicalTime n))"
    by (rule exE [OF poll_round_exact [OF is_iter_id ex_disc_keyed ex_poll_answered ex_last,
          where selfID = "''me''" and f = ex_refuse and s = "[]"]], elim exE conjE) (rule that)
  have "map_of (listing [?n]) (pn_ID ?n) = Some ?n \<and> NewPeerNode ''b'' ''peer'' = NewPeerNode (pn_ID ?n) (pn_Name ?n) \<and>
      pn_ID ?n \<noteq> ''me'' \<and> stamp (ds_peers (ex_disc [])) (pn_ID ?n) \<noteq> Some (pn_LogicalTime ?n)"
    by (simp add: ex_listed_def ex_disc_def listing_def stamp_def NewPeerNode_def)
  then have "(NewPeerNode ''b'' ''peer'', False) \<in> set (gone @ came)" using c by auto
  with r show ?thesis by blast
qed

text \<open>
  C20. A refused removal is retried. When the handler refuses the removal of a peer, the round keeps the
  peer and the old time, so the next round whose answer carries another time and does not list the
  peer either reports it as removed again.
\<close>

theorem refused_removal_retried:
  assumes "is_iter ord" and "keyed (ds_peers d)" and "refuses f i" and "i \<noteq> selfID"
    and "map_of (ds_peers d) i \<noteq> None" and "i \<notin> pn_ID ` set ns"
    and "answered inp t ns" and "ds_last d \<noteq> t" and "poll ord selfID (Some f) inp (d, s) = Inr (d', s')"
    and "i \<notin> pn_ID ` set ns'"
  shows "ds_last d' = ds_last d \<and> map_of (ds_peers d') i \<noteq> None \<and>
    (\<exists>p. (p, True) \<in> set (reports ord selfID (ds_peers d') (listing ns')) \<and> pn_ID p = i)"
proof -
  note round = poll_round [OF assms(1,2,7,8,9)]
  have "i \<in> (pn_ID \<circ> fst) ` set (reports ord selfID (ds_peers d) (listing ns))"
    using reported_gone [OF assms(1,2,5,6,4)] by force
  then have "ds_last d' = ds_last d \<and> map_of (ds_peers d') i \<noteq> None" by (rule round(3) [OF assms(3)])
  then show ?thesis using reported_gone [OF assms(1) round(1) _ assms(10,4)] by blast
qed

theorem refused_removal_retried_witness:
  "\<exists>d' s' p. poll (\<lambda>xs. xs) ''me'' (Some ex_refuse) (ex_poll 1 []) (ex_disc [ex_listed ''b'' 1], []) = Inr (d', s') \<and>
     (p, True) \<in> set (reports (\<lambda>xs. xs) ''me'' (ds_peers d') (listing [ex_listed ''c'' 2])) \<and> pn_ID p = ''b''"
proof -
  obtain d' s' where p: "poll (\<lambda>xs. xs) ''me'' (Some ex_refuse) (ex_poll 1 []) (ex_disc [ex_listed ''b'' 1], []) = Inr (d', s')"
    using ex_polled by blast
  have "map_of (ds_peers (ex_disc [ex_listed ''b'' 1])) ''b'' \<noteq> None" "''b'' \<notin> pn_ID ` set [ex_listed ''c'' 2]"
    by (simp_all add: ex_disc_def listing_def ex_listed_def)
  then show ?thesis
    using refused_removal_retried [OF is_iter_id ex_disc_keyed ex_refuses _ _ _ ex_poll_answered ex_last p, of "''b''" "[ex_listed ''c'' 2]"] p
    by auto
qed

text \<open>
  A refused update is not retried. When the handler refuses to take over a listed peer, the old time
  is kept and the next round compares again; but as the remembered entry carries the listed
  logical time, the peer is not reported as long as it does not register anew. (The loop
  resets the entry's \<open>LastUpdate\<close>, which nothing compares.)
\<close>

theorem refused_update_lost:
  assumes "is_iter ord" and "keyed (ds_peers d)" and "refuses f i" and "i \<noteq> selfID"
    and "stamp (ds_peers d) i \<noteq> stamp (listing ns) i" and "i \<in> pn_ID ` set ns"
    and "answered inp t ns" and "ds_last d \<noteq> t" and "poll ord selfID (Some f) inp (d, s) = Inr (d', s')"
    and "stamp (listing ns') i = stamp (listing ns) i"
  shows "ds_last d' = ds_last d \<and> (\<forall>p b. (p, b) \<in> set (reports ord selfID (ds_peers d') (listing ns')) \<longrightarrow> pn_ID p \<noteq> i)"
proof -
  note round = poll_round [OF assms(1,2,7,8,9)]
  have "i \<in> (pn_ID \<circ> fst) ` set (reports ord selfID (ds_peers d) (listing ns))"
    using reported_present [OF assms(1,2,6,4)] assms(5) by force
  then have last: "ds_last d' = ds_last d" using round(3) [OF assms(3)] by blast
  have "map_of (listing ns) i \<noteq> None" using assms(6) listing_None [of ns i] by blast
  then have "stamp (ds_peers d') i = stamp (listing ns') i" and "stamp (listing ns') i \<noteq> None"
    using round(2) assms(10) by (auto simp: stamp_def)
  moreover from this(2) have "i \<in> pn_ID ` set ns'" using listing_None [of ns' i] by (auto simp: stamp_def)
  ultimately show ?thesis using last reported_present [OF assms(1) round(1) _ assms(4), of ns'] by blast
qed

theorem refused_update_lost_witness:
  "\<exists>d' s'. poll (\<lambda>xs. xs) ''me'' (Some ex_refuse) (ex_poll 1 [ex_listed ''b'' 1]) (ex_disc [], []) = Inr (d', s') \<and>
     ds_last d' = 0 \<and> reports (\<lambda>xs. xs) ''me'' (ds_peers d') (listing [ex_listed ''b'' 1]) = []"
proof -
  let ?ns = "[ex_listed ''b'' 1]"
  obtain d' s' where p: "poll (\<lambda>xs. xs) ''me'' (Some ex_refuse) (ex_poll 1 ?ns) (ex_disc [], []) = Inr (d', s')"
    using ex_polled by blast
  have "stamp (ds_peers (ex_disc [])) ''b'' \<noteq> stamp (listing ?ns) ''b''" "''b'' \<in> pn_ID ` set ?ns"
    by (simp_all add: ex_disc_def listing_def ex_listed_def stamp_def)
  then have "ds_last d' = ds_last (ex_disc [])"
    and r: "\<forall>q b. (q, b) \<in> set (reports (\<lambda>xs. xs) ''me'' (ds_peers d') (listing ?ns)) \<longrightarrow> pn_ID q \<noteq> ''b''"
    using refused_update_lost [OF is_iter_id ex_disc_keyed ex_refuses _ _ _ ex_poll_answered ex_last p, of "''b''" ?ns] by auto
  moreover have "ds_peers d' = listing [(ex_listed ''b'' 1)\<lparr>pn_LastUpdate := zero_time\<rparr>]"
    using p by (auto simp: poll_def ex_poll_def ex_disc_def Registration_Refresh_def GetPeerMap_def sync_def diffNodes_def
        report_removed_def report_updated_def ex_refuse_def ex_listed_def listing_def NewPeerNode_def Let_def)
  ultimately show ?thesis
    using p by (auto simp: ex_disc_def reports_def diffNodes_def listing_def ex_listed_def NewPeerNode_def)
qed

end
