(* ===== verification/AllowList.thy ===== *)
theory AllowList
  imports Prelude
begin

text \<open>
  The peer allow list of \<open>pkg/admin/allow.go\<close> and the connection gate of
  \<open>pkg/mesh/gatekeeper.go\<close> that consults it.
  An \<open>AllowList\<close> keeps the set of admitted peer ids and rewrites its file after every change;
  \<open>al_file\<close> is the contents of that file (\<open>None\<close> when there is none). What
  \<open>os.WriteFile\<close> leaves in the file is the argument \<open>wr\<close>, because the code ignores its error.
  Go's \<open>GateProvider\<close> interface is the locale \<open>gate_provider\<close>; the allow list is the provider
  the relay is started with.
\<close>

section \<open>The allow list\<close>

record AllowList =
  al_allow :: "string set"
  al_path :: string
  al_file :: "string option"

text \<open>What \<open>os.Open\<close> and reading the file can give.\<close>

datatype open_result =
    NotExist
  | OpenErr goerr
  | Opened string "goerr option"

abbreviation newline :: char where "newline \<equiv> CHR 0x0A"
abbreviation MaxScanTokenSize :: nat where "MaxScanTokenSize \<equiv> 65536"
abbreviation ErrTooLong :: goerr where "ErrTooLong \<equiv> GoErr ''bufio.Scanner: token too long''"

definition add_line :: "string \<Rightarrow> string set \<Rightarrow> string set" where
  "add_line text A =
     (let line = TrimSpace text in
      if line = [] \<or> prefix ''#'' line then A else insert line A)"

text \<open>The scan loop; the scanner gives up at a line that does not fit its buffer.\<close>

fun scan_lines :: "string list \<Rightarrow> string set \<Rightarrow> string set \<times> bool" where
  "scan_lines [] A = (A, False)"
| "scan_lines (l # ls) A =
     (if MaxScanTokenSize \<le> length l then (A, True)
      else scan_lines ls (add_line (dropCR l) A))"

definition NewAllowList :: "string \<Rightarrow> open_result \<Rightarrow> AllowList option \<times> goerr option" where
  "NewAllowList path f =
     (let l = \<lparr>al_allow = {}, al_path = path, al_file = None\<rparr> in
      if path = [] then (Some l, None)
      else (case f of
              NotExist \<Rightarrow> (Some l, None)
            | OpenErr e \<Rightarrow> (None, Some e)
            | Opened contents rderr \<Rightarrow>
                (let (A, tooLong) = scan_lines (raw_lines contents) {} in
                 (Some (l\<lparr>al_allow := A, al_file := Some contents\<rparr>),
                  if tooLong then Some ErrTooLong else rderr))))"

definition Has :: "AllowList \<Rightarrow> string \<Rightarrow> bool" where
  "Has l pid \<longleftrightarrow> pid \<in> al_allow l"

definition persist :: "string list \<Rightarrow> string" where
  "persist ids = concat (map (\<lambda>pid. pid @ [newline]) ids)"

definition save ::
  "(string set \<Rightarrow> string list) \<Rightarrow> (string \<Rightarrow> string option \<Rightarrow> string option) \<Rightarrow> AllowList \<Rightarrow> AllowList" where
  "save ord wr l =
     (let snapshot = ord (al_allow l) in
      if al_path l \<noteq> [] then l\<lparr>al_file := wr (persist snapshot) (al_file l)\<rparr> else l)"

definition Add ::
  "(string set \<Rightarrow> string list) \<Rightarrow> (string \<Rightarrow> string option \<Rightarrow> string option) \<Rightarrow> AllowList \<Rightarrow> string \<Rightarrow> AllowList" where
  "Add ord wr l pid = save ord wr (l\<lparr>al_allow := insert pid (al_allow l)\<rparr>)"

definition Remove ::
  "(string set \<Rightarrow> string list) \<Rightarrow> (string \<Rightarrow> string option \<Rightarrow> string option) \<Rightarrow> AllowList \<Rightarrow> string \<Rightarrow> AllowList" where
  "Remove ord wr l pid = save ord wr (l\<lparr>al_allow := al_allow l - {pid}\<rparr>)"

definition Peers :: "(string set \<Rightarrow> string list) \<Rightarrow> AllowList \<Rightarrow> string list" where
  "Peers ord l = ord (al_allow l)"

text \<open>A write that succeeds leaves exactly the data in the file.\<close>

definition write_ok :: "string \<Rightarrow> string option \<Rightarrow> string option" where
  "write_ok data old = Some data"

section \<open>The gate\<close>

record GateKeeper =
  provider_Has :: "string \<Rightarrow> bool"

definition NewGateKeeper :: "(string \<Rightarrow> bool) \<Rightarrow> GateKeeper" where
  "NewGateKeeper p = \<lparr>provider_Has = p\<rparr>"

definition AllowReserve :: "GateKeeper \<Rightarrow> string \<Rightarrow> bool" where
  "AllowReserve g p = provider_Has g p"

definition AllowConnect :: "GateKeeper \<Rightarrow> string \<Rightarrow> string \<Rightarrow> bool" where
  "AllowConnect g src dest = (provider_Has g src \<and> provider_Has g dest)"

definition InterceptPeerDial :: "GateKeeper \<Rightarrow> string \<Rightarrow> bool" where
  "InterceptPeerDial g p = provider_Has g p"

definition InterceptAddrDial :: "GateKeeper \<Rightarrow> string \<Rightarrow> bool" where
  "InterceptAddrDial g p = True"

definition InterceptAccept :: "GateKeeper \<Rightarrow> bool" where
  "InterceptAccept g = True"

definition InterceptSecured :: "GateKeeper \<Rightarrow> string \<Rightarrow> bool" where
  "InterceptSecured g p = provider_Has g p"

definition InterceptUpgraded :: "GateKeeper \<Rightarrow> bool \<times> int" where
  "InterceptUpgraded g = (True, 0)"

text \<open>
  A connection is set up when every hook libp2p calls on it agrees: for an outbound one the
  dial hooks and the secured hook, for an inbound one the accept and the secured hook.
\<close>

definition gate_outbound :: "GateKeeper \<Rightarrow> string \<Rightarrow> bool" where
  "gate_outbound g p =
     (InterceptPeerDial g p \<and> InterceptAddrDial g p \<and> InterceptSecured g p \<and> fst (InterceptUpgraded g))"

definition gate_inbound :: "GateKeeper \<Rightarrow> string \<Rightarrow> bool" where
  "gate_inbound g p = (InterceptAccept g \<and> InterceptSecured g p \<and> fst (InterceptUpgraded g))"

lemmas gate_defs = NewGateKeeper_def AllowReserve_def AllowConnect_def InterceptPeerDial_def
  InterceptAddrDial_def InterceptAccept_def InterceptSecured_def InterceptUpgraded_def
  gate_outbound_def gate_inbound_def

text \<open>The interface \<open>GateProvider\<close>, and what the gate promises over any provider.\<close>

locale gate_provider =
  fixes has :: "'p \<Rightarrow> string \<Rightarrow> bool" and members :: "'p \<Rightarrow> string set"
  assumes has_iff: "has p s \<longleftrightarrow> s \<in> members p"
begin

lemma gate_admits:
  "gate_outbound (NewGateKeeper (has p)) s \<longleftrightarrow> s \<in> members p"
  "gate_inbound (NewGateKeeper (has p)) s \<longleftrightarrow> s \<in> members p"
  "AllowReserve (NewGateKeeper (has p)) s \<longleftrightarrow> s \<in> members p"
  by (simp_all add: gate_defs has_iff)

lemma gate_connects:
  "AllowConnect (NewGateKeeper (has p)) s t \<longleftrightarrow> s \<in> members p \<and> t \<in> members p"
  by (simp add: gate_defs has_iff)

end

interpretation acl: gate_provider Has al_allow
  by unfold_locales (simp add: Has_def)

section \<open>Lemmas\<close>

lemma save_simps [simp]:
  "al_allow (save ord wr l) = al_allow l"
  "al_path (save ord wr l) = al_path l"
  by (simp_all add: save_def Let_def)

lemma allow_Add [simp]: "al_allow (Add ord wr l pid) = insert pid (al_allow l)"
  by (simp add: Add_def)

lemma allow_Remove [simp]: "al_allow (Remove ord wr l pid) = al_allow l - {pid}"
  by (simp add: Remove_def)

lemma path_Add_Remove [simp]:
  "al_path (Add ord wr l pid) = al_path l" "al_path (Remove ord wr l pid) = al_path l"
  by (simp_all add: Add_def Remove_def)

text \<open>An id that survives a round trip through the file.\<close>

definition persistable :: "string \<Rightarrow> bool" where
  "persistable pid \<longleftrightarrow>
     pid \<noteq> [] \<and> TrimSpace pid = pid \<and> \<not> prefix ''#'' pid \<and> newline \<notin> set pid \<and>
     last pid \<noteq> CHR 0x0D \<and> length pid < MaxScanTokenSize"

lemma raw_lines_persist:
  assumes "\<forall>pid \<in> set ids. newline \<notin> set pid"
  shows "raw_lines (persist ids) = ids"
proof -
  have "Split newline (persist ids) = ids @ [[]]"
    using assms
  proof (induction ids)
    case (Cons x xs)
    then show ?case by (simp add: persist_def Split_sep)
  qed (simp add: persist_def)
  then show ?thesis by (simp add: raw_lines_def)
qed

lemma scan_persistable:
  assumes "\<forall>pid \<in> set ids. persistable pid"
  shows "scan_lines ids A = (A \<union> set ids, False)"
  using assms
proof (induction ids arbitrary: A)
  case (Cons x xs)
  then have x: "persistable x" by simp
  then have "add_line (dropCR x) A = insert x A"
    by (simp add: persistable_def add_line_def dropCR_def Let_def)
  with Cons x show ?case by (simp add: persistable_def)
qed simp

lemma load_persisted:
  assumes "path \<noteq> []" and "\<forall>pid \<in> set ids. persistable pid"
  shows "NewAllowList path (Opened (persist ids) None) =
    (Some \<lparr>al_allow = set ids, al_path = path, al_file = Some (persist ids)\<rparr>, None)"
proof -
  have "raw_lines (persist ids) = ids"
    using assms(2) by (intro raw_lines_persist) (auto simp: persistable_def)
  with assms show ?thesis by (simp add: NewAllowList_def scan_persistable)
qed

lemma persistable_printable:
  assumes "pid \<noteq> []" and "\<forall>c \<in> set pid. printable c" and "hd pid \<noteq> CHR ''#''"
    and "length pid < MaxScanTokenSize"
  shows "persistable pid"
proof -
  have p: "printable (hd pid)" "printable (last pid)" using assms(1,2) by auto
  have "\<not> printable newline" "\<not> printable (CHR 0x0D)" by (simp_all add: printable_def)
  then have "newline \<notin> set pid" "last pid \<noteq> CHR 0x0D" using assms(2) p(2) by auto
  moreover have "\<not> prefix ''#'' pid" using assms(1,3) by (cases pid) auto
  ultimately show ?thesis
    using assms TrimSpace_printable [OF assms(1) p] by (simp add: persistable_def)
qed

section \<open>Properties\<close>

text \<open>
  C22. Restart safety of the allow list. After \<open>Add\<close> or \<open>Remove\<close> with a successful file write,
  loading the file again gives back the same list, whatever order the map was written in,
  provided every listed id is one line that trimming and the comment rule leave alone.
\<close>

theorem allow_list_reload:
  assumes "range_order ord" and "finite (al_allow l)" and "al_path l \<noteq> []"
    and "l' = Add ord write_ok l pid \<or> l' = Remove ord write_ok l pid"
    and "\<forall>x \<in> al_allow l'. persistable x"
  shows "\<exists>contents. al_file l' = Some contents \<and>
           NewAllowList (al_path l) (Opened contents None) = (Some l', None)"
proof -
  have fin: "finite (al_allow l')" using assms(2,4) by auto
  have "al_file l' = Some (persist (ord (al_allow l')))"
    using assms(3,4) by (auto simp: Add_def Remove_def save_def write_ok_def Let_def)
  moreover have "al_path l' = al_path l" using assms(4) by auto
  moreover have "set (ord (al_allow l')) = al_allow l'"
    using assms(1) fin by (rule range_orderD)
  ultimately show ?thesis
    using load_persisted [OF assms(3), of "ord (al_allow l')"] assms(5) by simp
qed

theorem allow_list_reload_witness:
  "\<exists>contents.
     al_file (Add ascending write_ok \<lparr>al_allow = {''peer-1''}, al_path = ''allow.list'', al_file = None\<rparr>
        ''peer-2'') = Some contents \<and>
     NewAllowList ''allow.list'' (Opened contents None) =
       (Some (Add ascending write_ok
          \<lparr>al_allow = {''peer-1''}, al_path = ''allow.list'', al_file = None\<rparr> ''peer-2''), None)"
proof -
  have "\<forall>x \<in> {''peer-2'', ''peer-1''}. persistable x"
    by (auto intro!: persistable_printable simp: printable_def)
  then show ?thesis
    using allow_list_reload [of ascending
        "\<lparr>al_allow = {''peer-1''}, al_path = ''allow.list'', al_file = None\<rparr>" _ "''peer-2''"]
    by simp
qed

text \<open>
  The relay's gate is the allow list. A connection with a peer is set up, in either
  direction, exactly when the peer is on the list: adding an id admits that peer and no other,
  removing it shuts that peer out and no other.
\<close>

theorem gate_follows_allow_list:
  "(gate_inbound (NewGateKeeper (Has (Add ord wr l pid))) p \<longleftrightarrow> p = pid \<or> p \<in> al_allow l) \<and>
   (gate_outbound (NewGateKeeper (Has (Add ord wr l pid))) p \<longleftrightarrow> p = pid \<or> p \<in> al_allow l) \<and>
   (gate_inbound (NewGateKeeper (Has (Remove ord wr l pid))) p \<longleftrightarrow> p \<noteq> pid \<and> p \<in> al_allow l) \<and>
   (gate_outbound (NewGateKeeper (Has (Remove ord wr l pid))) p \<longleftrightarrow> p \<noteq> pid \<and> p \<in> al_allow l)"
  by (auto simp: acl.gate_admits)

text \<open>
  A peer id that contains a newline is admitted as one id but comes back from the file as
  two: after a restart the list admits a peer that was never added.
\<close>

theorem allow_list_newline_injection:
  assumes "range_order ord" and "persistable a" and "persistable b" and "path \<noteq> []"
    and l: "l = Add ord write_ok \<lparr>al_allow = {}, al_path = path, al_file = None\<rparr> (a @ newline # b)"
  shows "\<not> Has l b \<and>
         (\<exists>contents l'. al_file l = Some contents \<and>
            NewAllowList path (Opened contents None) = (Some l', None) \<and>
            Has l' b \<and> \<not> Has l' (a @ newline # b))"
proof -
  let ?x = "a @ newline # b"
  have "distinct (ord {?x})" "set (ord {?x}) = {?x}" using assms(1) by (auto simp: go_maps)
  then have ord: "ord {?x} = [?x]" by (cases "ord {?x}") (auto simp: subset_singleton_iff)
  have written: "al_file l = Some (persist [a, b])"
    using assms(4) ord by (simp add: l Add_def save_def write_ok_def persist_def)
  have load: "NewAllowList path (Opened (persist [a, b]) None) =
      (Some \<lparr>al_allow = set [a, b], al_path = path, al_file = Some (persist [a, b])\<rparr>, None)"
    using assms by (intro load_persisted) auto
  have "newline \<notin> set a" "newline \<notin> set b" using assms(2,3) by (simp_all add: persistable_def)
  then have "?x \<noteq> a" "?x \<noteq> b" by auto
  with written load show ?thesis by (auto simp: l Has_def)
qed

theorem allow_list_newline_injection_witness:
  "let l = Add ascending write_ok \<lparr>al_allow = {}, al_path = ''allow.list'', al_file = None\<rparr>
        (''a'' @ newline # ''b'')
   in \<not> Has l ''b'' \<and>
      (\<exists>contents l'. al_file l = Some contents \<and>
         NewAllowList ''allow.list'' (Opened contents None) = (Some l', None) \<and>
         Has l' ''b'' \<and> \<not> Has l' (''a'' @ newline # ''b''))"
proof -
  have p: "persistable ''a''" "persistable ''b''"
    by (auto intro!: persistable_printable simp: printable_def)
  show ?thesis
    unfolding Let_def
    by (rule allow_list_newline_injection [OF range_order_ascending p _ refl]) simp
qed

end
