(* ===== verification/TokenAuth.thy ===== *)
theory TokenAuth
  imports Prelude
begin

text \<open>
  Authentication of API requests: \<open>pkg/admin/auth/provider.go\<close> and \<open>pkg/admin/auth/token.go\<close>.
  The argument \<open>hdr\<close> of \<open>DoAuth\<close> is the value of the \<open>Authorization\<close> header (empty when there is
  none). The session callback reads the clock, so it takes the time of the request.
  Go's \<open>auth.Provider\<close> interface is the locale \<open>auth_provider\<close>.
\<close>

record Properties =
  prop_User :: string
  prop_Group :: string

record TokenUser =
  tu_User :: string
  tu_Group :: string

type_synonym SessionAuthFunc = "gotime \<Rightarrow> string \<Rightarrow> Properties option \<times> bool"

record TokenAuth =
  ta_users :: "string \<rightharpoonup> TokenUser"
  ta_session :: "SessionAuthFunc option"

definition SessionTokenPrefix :: string where
  "SessionTokenPrefix = ''mesh-''"

definition NewTokenAuth :: TokenAuth where
  "NewTokenAuth = \<lparr>ta_users = Map.empty, ta_session = None\<rparr>"

definition SetSessionAuth :: "TokenAuth \<Rightarrow> SessionAuthFunc \<Rightarrow> TokenAuth" where
  "SetSessionAuth a fn = a\<lparr>ta_session := Some fn\<rparr>"

definition AddUser :: "TokenAuth \<Rightarrow> string \<Rightarrow> string \<Rightarrow> string \<Rightarrow> TokenAuth" where
  "AddUser a user grp password =
     a\<lparr>ta_users := (ta_users a)(password \<mapsto> \<lparr>tu_User = user, tu_Group = grp\<rparr>)\<rparr>"

definition DeleteUser :: "TokenAuth \<Rightarrow> string \<Rightarrow> TokenAuth" where
  "DeleteUser a user = a"

definition DoAuth :: "TokenAuth \<Rightarrow> gotime \<Rightarrow> string \<Rightarrow> Properties option \<times> int" where
  "DoAuth a now hdr =
     (let pre = ''bearer '' in
      if length pre < length hdr \<and> EqualFold (take (length pre) hdr) pre then
        (let token = TrimSpace (drop (length pre) hdr) in
         if prefix SessionTokenPrefix token then
           (case ta_session a of
              None \<Rightarrow> (None, StatusUnauthorized)
            | Some session \<Rightarrow>
                (let (user, ok) = session now token in
                 if \<not> ok \<or> user = None then (None, StatusUnauthorized) else (user, StatusOK)))
         else
           (case ta_users a token of
              None \<Rightarrow> (None, StatusUnauthorized)
            | Some u \<Rightarrow> (Some \<lparr>prop_User = tu_User u, prop_Group = tu_Group u\<rparr>, StatusOK)))
      else (None, StatusUnauthorized))"

section \<open>The interface the server relies on\<close>

locale auth_provider =
  fixes do_auth :: "'a \<Rightarrow> gotime \<Rightarrow> string \<Rightarrow> Properties option \<times> int"
  assumes ok_user: "do_auth a now hdr = (u, StatusOK) \<Longrightarrow> u \<noteq> None"
begin

lemma ok_obtains:
  assumes "snd (do_auth a now hdr) = StatusOK"
  obtains u where "do_auth a now hdr = (Some u, StatusOK)"
  using assms ok_user [of a now hdr] by (cases "do_auth a now hdr") auto

end

interpretation token: auth_provider DoAuth
  by unfold_locales
    (auto simp: DoAuth_def Let_def split: if_splits option.splits prod.splits)

section \<open>Lemmas\<close>

text \<open>The token a well-formed header carries.\<close>

definition bearer_token :: "string \<Rightarrow> string option" where
  "bearer_token hdr =
     (if length ''bearer '' < length hdr \<and> EqualFold (take (length ''bearer '') hdr) ''bearer ''
      then Some (TrimSpace (drop (length ''bearer '') hdr)) else None)"

lemma DoAuth_cases:
  "DoAuth a now hdr =
     (case bearer_token hdr of
        None \<Rightarrow> (None, StatusUnauthorized)
      | Some token \<Rightarrow>
          if prefix SessionTokenPrefix token then
            (case ta_session a of
               None \<Rightarrow> (None, StatusUnauthorized)
             | Some session \<Rightarrow>
                 (let (user, ok) = session now token in
                  if \<not> ok \<or> user = None then (None, StatusUnauthorized) else (user, StatusOK)))
          else
            (case ta_users a token of
               None \<Rightarrow> (None, StatusUnauthorized)
             | Some u \<Rightarrow> (Some \<lparr>prop_User = tu_User u, prop_Group = tu_Group u\<rparr>, StatusOK)))"
  by (simp add: DoAuth_def bearer_token_def Let_def)

lemma DoAuth_status: "snd (DoAuth a now hdr) = StatusOK \<or> snd (DoAuth a now hdr) = StatusUnauthorized"
  by (auto simp: DoAuth_cases Let_def split: option.splits prod.splits)

end
