(* ===== verification/MagicLink.thy ===== *)
theory MagicLink
  imports JsonKV
begin

text \<open>
  Authenticated encryption of JSON values: \<open>pkg/admin/magiclink/crypt.go\<close>.
  The raw URL-safe base64 text of the sealed bytes is computed here; the block cipher is a
  parameter, a record \<open>gcm\<close>, and \<open>gcm_ok\<close> names what AES-GCM promises: \<open>Open\<close> undoes \<open>Seal\<close>, and
  only sealed text opens.
\<close>

section \<open>Base64, URL alphabet, no padding\<close>

definition b64_alphabet :: string where
  "b64_alphabet = ''ABCDEFGHIJKLMNOPQRSTUVWXYZabcdefghijklmnopqrstuvwxyz0123456789-_''"

definition b64_char :: "nat \<Rightarrow> char" where
  "b64_char n = b64_alphabet ! n"

fun index_of :: "char \<Rightarrow> string \<Rightarrow> nat option" where
  "index_of c [] = None"
| "index_of c (x # xs) = (if x = c then Some 0 else map_option Suc (index_of c xs))"

fun sextets :: "nat list \<Rightarrow> nat list" where
  "sextets [] = []"
| "sextets [a] = [a div 4, (a mod 4) * 16]"
| "sextets [a, b] = [a div 4, (a mod 4) * 16 + b div 16, (b mod 16) * 4]"
| "sextets (a # b # c # rest) =
     (a div 4) # ((a mod 4) * 16 + b div 16) # ((b mod 16) * 4 + c div 64) # (c mod 64) # sextets rest"

fun octets :: "nat list \<Rightarrow> nat list option" where
  "octets [] = Some []"
| "octets [x] = None"
| "octets [x, y] = Some [x * 4 + y div 16]"
| "octets [x, y, z] = Some [x * 4 + y div 16, (y mod 16) * 16 + z div 4]"
| "octets (x # y # z # w # rest) =
     map_option (\<lambda>r. (x * 4 + y div 16) # ((y mod 16) * 16 + z div 4) # ((z mod 4) * 64 + w) # r)
       (octets rest)"

definition b64_EncodeToString :: "string \<Rightarrow> string" where
  "b64_EncodeToString s = map b64_char (sextets (map of_char s))"

text \<open>The decoder skips line breaks and rejects every other character outside the alphabet.\<close>

definition b64_DecodeString :: "string \<Rightarrow> string result" where
  "b64_DecodeString s =
     (let t = filter (\<lambda>c. c \<noteq> CHR 0x0A \<and> c \<noteq> CHR 0x0D) s;
          xs = map (\<lambda>c. index_of c b64_alphabet) t
      in if None \<in> set xs then Inl (GoErr ''illegal base64 data'')
         else (case octets (map the xs) of
                 None \<Rightarrow> Inl (GoErr ''illegal base64 data'')
               | Some bs \<Rightarrow> Inr (map char_of bs)))"

section \<open>Sealing\<close>

record gcm =
  gcm_Seal :: "string \<Rightarrow> string \<Rightarrow> string \<Rightarrow> string"
  gcm_Open :: "string \<Rightarrow> string \<Rightarrow> string \<Rightarrow> string result"

definition gcm_ok :: "gcm \<Rightarrow> bool" where
  "gcm_ok G \<longleftrightarrow>
     (\<forall>k n p. gcm_Open G k n (gcm_Seal G k n p) = Inr p) \<and>
     (\<forall>k n c p. gcm_Open G k n c = Inr p \<longrightarrow> c = gcm_Seal G k n p)"

type_synonym EncryptionKey = string

definition keySize :: nat where "keySize = 32"
definition gcm_NonceSize :: nat where "gcm_NonceSize = 12"

text \<open>\<open>rand.Read\<close> fills the key; the bytes it reads, or its error, are an input.\<close>

definition GenerateKey :: "string result \<Rightarrow> EncryptionKey result" where
  "GenerateKey rand_bytes =
     (case rand_bytes of Inl e \<Rightarrow> Inl e | Inr key \<Rightarrow> Inr (take keySize key))"

definition aes_NewCipher :: "EncryptionKey \<Rightarrow> unit result" where
  "aes_NewCipher key =
     (if length key = 16 \<or> length key = 24 \<or> length key = 32 then Inr ()
      else Inl (GoErr ''crypto/aes: invalid key size''))"

definition Encrypt :: "gcm \<Rightarrow> string result \<Rightarrow> string \<Rightarrow> EncryptionKey \<Rightarrow> string result" where
  "Encrypt G nonce_bytes plaintext key =
     (case aes_NewCipher key of
        Inl e \<Rightarrow> Inl e
      | Inr _ \<Rightarrow>
          (case nonce_bytes of
             Inl e \<Rightarrow> Inl e
           | Inr nonce \<Rightarrow> Inr (b64_EncodeToString (nonce @ gcm_Seal G key nonce plaintext))))"

definition Decrypt :: "gcm \<Rightarrow> string \<Rightarrow> EncryptionKey \<Rightarrow> string result" where
  "Decrypt G ciphertextB64 key =
     (case b64_DecodeString ciphertextB64 of
        Inl e \<Rightarrow> Inl e
      | Inr sealed \<Rightarrow>
          (case aes_NewCipher key of
             Inl e \<Rightarrow> Inl e
           | Inr _ \<Rightarrow>
               if length sealed < gcm_NonceSize then Inl (GoErr ''ciphertext too short'')
               else (case gcm_Open G key (take gcm_NonceSize sealed) (drop gcm_NonceSize sealed) of
                       Inl e \<Rightarrow> Inl (GoErr ''decrypt failed'')
                     | Inr plain \<Rightarrow> Inr plain)))"

definition MagicLink_Encrypt ::
  "gcm \<Rightarrow> (string, 'v) codec \<Rightarrow> string result \<Rightarrow> EncryptionKey \<Rightarrow> 'v \<Rightarrow> string result" where
  "MagicLink_Encrypt G c nonce_bytes key v =
     (case Marshal c v of Inl e \<Rightarrow> Inl e | Inr js \<Rightarrow> Encrypt G nonce_bytes js key)"

definition MagicLink_Decrypt ::
  "gcm \<Rightarrow> (string, 'v) codec \<Rightarrow> EncryptionKey \<Rightarrow> string \<Rightarrow> 'v result" where
  "MagicLink_Decrypt G c key value =
     (case Decrypt G value key of Inl e \<Rightarrow> Inl e | Inr data \<Rightarrow> Unmarshal c data)"

section \<open>Lemmas\<close>

lemma b64_alphabet_simps: "length b64_alphabet = 64" "distinct b64_alphabet"
  by (simp_all add: b64_alphabet_def)

lemma index_of_nth: "distinct xs \<Longrightarrow> n < length xs \<Longrightarrow> index_of (xs ! n) xs = Some n"
  by (induction xs arbitrary: n) (auto simp: nth_Cons split: nat.splits)

lemma index_of_b64: "n < 64 \<Longrightarrow> index_of (b64_char n) b64_alphabet = Some n"
  by (simp add: b64_char_def index_of_nth b64_alphabet_simps)

lemma b64_alphabet_no_breaks: "CHR 0x0A \<notin> set b64_alphabet" "CHR 0x0D \<notin> set b64_alphabet"
  by (simp_all add: b64_alphabet_def)

lemma b64_char_in: "n < 64 \<Longrightarrow> b64_char n \<in> set b64_alphabet"
  by (simp add: b64_char_def b64_alphabet_simps)

lemma sextets_bound: "\<forall>b \<in> set bs. b < 256 \<Longrightarrow> \<forall>x \<in> set (sextets bs). x < 64"
  by (induction bs rule: sextets.induct) auto

lemma pack: "(y::nat) < m \<Longrightarrow> (x * m + y) div m = x" "(y::nat) < m \<Longrightarrow> (x * m + y) mod m = y"
  by simp_all

lemma byte_parts: "(b::nat) < 256 \<Longrightarrow> b div 16 < 16" "(b::nat) < 256 \<Longrightarrow> b div 64 < 4"
  by (simp_all add: div_less_iff_less_mult)

lemma octets_sextets: "\<forall>b \<in> set bs. b < 256 \<Longrightarrow> octets (sextets bs) = Some bs"
proof (induction bs rule: sextets.induct)
  case (4 a b c rest)
  then have "b div 16 < 16" "c div 64 < 4" by (simp_all add: byte_parts)
  with 4 show ?case by (simp add: pack)
next
  case (3 a b)
  then have "b div 16 < 16" by (simp add: byte_parts)
  then show ?case by (simp add: pack)
qed simp_all

lemma b64_roundtrip: "b64_DecodeString (b64_EncodeToString s) = Inr s"
proof -
  let ?xs = "sextets (map of_char s)"
  have bound: "\<forall>x \<in> set ?xs. x < 64" by (rule sextets_bound) auto
  have keep: "filter (\<lambda>c. c \<noteq> CHR 0x0A \<and> c \<noteq> CHR 0x0D) (map b64_char ?xs) = map b64_char ?xs"
    using bound b64_char_in b64_alphabet_no_breaks by (fastforce simp: filter_id_conv)
  have idx: "map (\<lambda>c. index_of c b64_alphabet) (map b64_char ?xs) = map Some ?xs"
    using bound by (simp add: index_of_b64)
  have "octets ?xs = Some (map of_char s)" by (rule octets_sextets) auto
  then show ?thesis
    unfolding b64_DecodeString_def b64_EncodeToString_def Let_def keep idx
    by (simp add: comp_def image_iff)
qed

lemma Decrypt_sealed:
  assumes "Decrypt G c key = Inr p" and "gcm_ok G"
  shows "\<exists>nonce. length nonce = gcm_NonceSize \<and>
           b64_DecodeString c = Inr (nonce @ gcm_Seal G key nonce p)"
proof -
  obtain sealed where s: "b64_DecodeString c = Inr sealed" "gcm_NonceSize \<le> length sealed"
    "gcm_Open G key (take gcm_NonceSize sealed) (drop gcm_NonceSize sealed) = Inr p"
    using assms(1) by (auto simp: Decrypt_def split: sum.splits if_splits)
  then have "drop gcm_NonceSize sealed = gcm_Seal G key (take gcm_NonceSize sealed) p"
    using assms(2) by (auto simp: gcm_ok_def)
  then have "sealed = take gcm_NonceSize sealed @ gcm_Seal G key (take gcm_NonceSize sealed) p"
    by (metis append_take_drop_id)
  with s show ?thesis by (intro exI [of _ "take gcm_NonceSize sealed"]) auto
qed

lemma Decrypt_Encrypt:
  assumes "gcm_ok G" and "length nonce = gcm_NonceSize"
    and "Encrypt G (Inr nonce) p key = Inr c"
  shows "Decrypt G c key = Inr p"
  using assms by (auto simp: Encrypt_def Decrypt_def b64_roundtrip gcm_ok_def split: sum.splits)

lemma MagicLink_roundtrip:
  assumes "gcm_ok G" and "length nonce = gcm_NonceSize" and "codec_faithful c v"
    and "MagicLink_Encrypt G c (Inr nonce) key v = Inr t"
  shows "MagicLink_Decrypt G c key t = Inr v"
  using assms
  by (auto simp: MagicLink_Encrypt_def MagicLink_Decrypt_def codec_faithful_def
      dest: Decrypt_Encrypt split: sum.splits)

text \<open>
  A cipher for examples, which copies the plaintext between the key and the nonce. It shows that
  \<open>gcm_ok\<close> can hold.
\<close>

definition clear_gcm :: gcm where
  "clear_gcm =
     \<lparr>gcm_Seal = (\<lambda>k n p. k @ p),
      gcm_Open = (\<lambda>k n c. if prefix k c then Inr (drop (length k) c) else Inl (GoErr ''open''))\<rparr>"

lemma clear_gcm_ok: "gcm_ok clear_gcm"
  by (auto simp: gcm_ok_def clear_gcm_def prefix_def split: if_splits)

end
