(* ===== verification/AdminServer.thy ===== *)
theory AdminServer
  imports ApiTypes AllowList TokenAuth MagicLink
begin

text \<open>
  The state of the admin server (\<open>pkg/admin/server.go\<close>), the request context
  (\<open>pkg/admin/rpc.go\<close>) and the node API (\<open>pkg/admin/api_node.go\<close>).
  A handler maps the server state to its reply or error and the new state. What it reads from
  outside is explicit: \<open>deps\<close> bundles the packages that are not part of the repository (badger,
  bcrypt, AES-GCM, SHA-256, the JSON codecs at the three stored types), \<open>inputs\<close> holds the
  clock readings, random bytes, map iteration order and file-write outcome of one request.
  \<open>rpc_body\<close> is the request body decoded into the handler's request struct, \<open>None\<close> when decoding
  fails.
\<close>

section \<open>State and environment\<close>

record inviteSecret =
  iv_UUID :: string
  iv_MeshId :: string
  iv_OneTime :: bool
  iv_Expires :: int
  iv_InviteAs :: string

record meshNodeRecord =
  mn_NodeID :: string
  mn_Name :: string
  mn_AddedAt :: gotime
  mn_InvitedAs :: string
  mn_PasswordHash :: string

record sessionClaims =
  sc_NodeID :: string
  sc_Expires :: int

record 'db Server =
  srv_mainAddress :: string
  srv_adminKey :: string
  srv_relayAddress :: "string list"
  srv_lastUpdate :: gotime
  srv_logicalTime :: uint64
  srv_nodes :: "string \<rightharpoonup> NodeReference"
  srv_acl :: AllowList
  srv_kv :: "'db Store"
  srv_auth :: TokenAuth
  srv_advertiseURL :: string
  srv_magicKey :: EncryptionKey

record ('db, 'd) deps =
  dep_badger :: "('db, 'd) badger"
  dep_invite :: "('d, inviteSecret) codec"
  dep_node :: "('d, meshNodeRecord) codec"
  dep_claims :: "(string, sessionClaims) codec"
  dep_gcm :: gcm
  dep_sha256 :: "string \<Rightarrow> string"
  dep_bcrypt_Generate :: "string \<Rightarrow> string \<Rightarrow> string result"
  dep_bcrypt_Compare :: "string \<Rightarrow> string \<Rightarrow> bool"
  dep_RFC3339Nano :: "gotime \<Rightarrow> string"

record inputs =
  in_auth_now :: gotime
  in_now :: gotime
  in_now2 :: gotime
  in_rand :: "string result"
  in_uuid :: "string result"
  in_salt :: string
  in_nonce :: "string result"
  in_order :: "string set \<Rightarrow> string list"
  in_range :: "string list"
  in_write :: "string \<Rightarrow> string option \<Rightarrow> string option"

section \<open>The request context\<close>

record 'b JsonRPC =
  rpc_user :: "Properties option"
  rpc_id :: string
  rpc_body :: "'b option"

text \<open>Both accessors dereference the user pointer.\<close>

definition rpc_User :: "'b JsonRPC \<Rightarrow> string result" where
  "rpc_User ctx = (case rpc_user ctx of
     None \<Rightarrow> Inl (GoPanic ''nil pointer: user'') | Some u \<Rightarrow> Inr (prop_User u))"

definition rpc_Group :: "'b JsonRPC \<Rightarrow> string result" where
  "rpc_Group ctx = (case rpc_user ctx of
     None \<Rightarrow> Inl (GoPanic ''nil pointer: user'') | Some u \<Rightarrow> Inr (prop_Group u))"

definition GetObject :: "'b JsonRPC \<Rightarrow> 'b result" where
  "GetObject ctx = (case rpc_body ctx of
     None \<Rightarrow> Inl (ApiErr StatusBadRequest ''bad request'') | Some v \<Rightarrow> Inr v)"

section \<open>Registration of nodes\<close>

definition newNodeToken :: "('db, 'd) deps \<Rightarrow> inputs \<Rightarrow> string" where
  "newNodeToken D inp = (case in_rand inp of
     Inl e \<Rightarrow> hex_EncodeToString (dep_RFC3339Nano D (in_now2 inp))
   | Inr b \<Rightarrow> hex_EncodeToString (take 16 b))"

definition acl_Add :: "inputs \<Rightarrow> string \<Rightarrow> 'db Server \<Rightarrow> 'db Server" where
  "acl_Add inp i s = s\<lparr>srv_acl := Add (in_order inp) (in_write inp) (srv_acl s) i\<rparr>"

definition acl_Remove :: "inputs \<Rightarrow> string \<Rightarrow> 'db Server \<Rightarrow> 'db Server" where
  "acl_Remove inp i s = s\<lparr>srv_acl := Remove (in_order inp) (in_write inp) (srv_acl s) i\<rparr>"

definition apiNodeAuthorize ::
  "inputs \<Rightarrow> RegisterNodeRequest JsonRPC \<Rightarrow> 'db Server \<Rightarrow> reply result \<times> 'db Server" where
  "apiNodeAuthorize inp ctx s =
     (case GetObject ctx of
        Inl e \<Rightarrow> (Inl (ApiErr StatusBadRequest (Error_string e)), s)
      | Inr req \<Rightarrow>
          if pn_ID (rr_Node req) = [] then
            (Inl (ApiErr StatusBadRequest ''node peer id is required''), s)
          else (Inr (ReplyNode (rr_Node req)), acl_Add inp (pn_ID (rr_Node req)) s))"

text \<open>
  \<open>apiNodeRegister\<close> checks the request, with the allow list under its own lock, and then updates
  the registrations under the server lock.
\<close>

definition register_check :: "RegisterNodeRequest JsonRPC \<Rightarrow> 'db Server \<Rightarrow> Node result" where
  "register_check ctx s =
     (case GetObject ctx of
        Inl e \<Rightarrow> Inl (ApiErr StatusBadRequest (Error_string e))
      | Inr req \<Rightarrow>
          if pn_Name (rr_Node req) = [] then Inl (ApiErr StatusBadRequest ''node name is required'')
          else if pn_ID (rr_Node req) = [] then Inl (ApiErr StatusBadRequest ''node peer id is required'')
          else if \<not> Has (srv_acl s) (pn_ID (rr_Node req)) then
            Inl (ApiErr StatusBadRequest ''node not Authorized'')
          else Inr (rr_Node req))"

definition register_locked ::
  "('db, 'd) deps \<Rightarrow> inputs \<Rightarrow> Node \<Rightarrow> 'db Server \<Rightarrow> RegisterNodeRequest \<times> 'db Server" where
  "register_locked D inp node s =
     (let s1 = s\<lparr>srv_lastUpdate := in_now inp, srv_logicalTime := srv_logicalTime s + 1\<rparr>;
          node' = node\<lparr>pn_LastUpdate := srv_lastUpdate s1, pn_LogicalTime := srv_logicalTime s1\<rparr>;
          resp = \<lparr>rr_Node = node', rr_Token = newNodeToken D inp,
                  rr_LogicalTime = srv_logicalTime s1, rr_LastUpdate = srv_lastUpdate s1\<rparr>;
          ref = \<lparr>ref_Node = node', ref_Token = rr_Token resp, ref_LastPing = in_now2 inp\<rparr>
      in (resp, s1\<lparr>srv_nodes := (srv_nodes s1)(pn_ID node' \<mapsto> ref)\<rparr>))"

definition apiNodeRegister ::
  "('db, 'd) deps \<Rightarrow> inputs \<Rightarrow> RegisterNodeRequest JsonRPC \<Rightarrow> 'db Server \<Rightarrow> reply result \<times> 'db Server" where
  "apiNodeRegister D inp ctx s =
     (case register_check ctx s of
        Inl e \<Rightarrow> (Inl e, s)
      | Inr node \<Rightarrow>
          (let (resp, s') = register_locked D inp node s in (Inr (ReplyRegister resp), s')))"

text \<open>The closure \<open>updateNode\<close> of \<open>apiNodeRefresh\<close>; it writes through the stored pointer.\<close>

definition updateNode ::
  "inputs \<Rightarrow> string \<Rightarrow> RegisterNodeRequest \<Rightarrow> 'db Server \<Rightarrow> bool \<times> 'db Server" where
  "updateNode inp i req s =
     (if rr_Token req = [] then (False, s)
      else (case srv_nodes s i of
              None \<Rightarrow> (False, s)
            | Some ref \<Rightarrow>
                if ref_Token ref \<noteq> rr_Token req then (False, s)
                else (True, s\<lparr>srv_nodes := (srv_nodes s)(i \<mapsto> ref\<lparr>ref_LastPing := in_now inp\<rparr>)\<rparr>)))"

definition apiNodeRefresh ::
  "inputs \<Rightarrow> RegisterNodeRequest JsonRPC \<Rightarrow> 'db Server \<Rightarrow> reply result \<times> 'db Server" where
  "apiNodeRefresh inp ctx s =
     (let i = rpc_id ctx in
      if i = [] then (Inl (ApiErr StatusBadRequest ''node id is required''), s)
      else (case GetObject ctx of
              Inl e \<Rightarrow> (Inl (ApiErr StatusBadRequest (Error_string e)), s)
            | Inr req \<Rightarrow>
                if pn_ID (rr_Node req) \<noteq> i then
                  (Inl (ApiErr StatusBadRequest ''node id mismatch''), s)
                else
                  (let resp = \<lparr>rr_Node = rr_Node req, rr_Token = rr_Token req,
                               rr_LogicalTime = srv_logicalTime s, rr_LastUpdate = srv_lastUpdate s\<rparr>;
                       (valid, s') = updateNode inp i req s
                   in if \<not> valid then (Inl (ApiErr StatusConflict ''node registration invalid''), s')
                      else (Inr (ReplyRegister resp), s'))))"

definition apiNodeUnregister ::
  "inputs \<Rightarrow> 'b JsonRPC \<Rightarrow> 'db Server \<Rightarrow> reply result \<times> 'db Server" where
  "apiNodeUnregister inp ctx s =
     (let i = rpc_id ctx in
      if i = [] then (Inl (ApiErr StatusBadRequest ''node id is required''), s)
      else
        (let node = srv_nodes s i;
             s1 = (if node \<noteq> None
                   then s\<lparr>srv_lastUpdate := in_now inp, srv_logicalTime := srv_logicalTime s + 1\<rparr>
                   else s);
             s2 = s1\<lparr>srv_nodes := (srv_nodes s1)(i := None)\<rparr>;
             s3 = acl_Remove inp i s2
         in (case node of
               None \<Rightarrow> (Inl (ApiErr StatusNotFound ''node not found''), s3)
             | Some ref \<Rightarrow> (Inr (ReplyReference ref), s3))))"

definition apiNodeList :: "inputs \<Rightarrow> 'b JsonRPC \<Rightarrow> 'db Server \<Rightarrow> reply result \<times> 'db Server" where
  "apiNodeList inp ctx s =
     (Inr (ReplyNodes (map (\<lambda>i. ref_Node (the (srv_nodes s i)))
                        (filter (\<lambda>i. srv_nodes s i \<noteq> None) (in_range inp)))), s)"

text \<open>
  The loop over the map visits its keys in an unspecified order: \<open>in_range\<close> is a list of ids, the
  registered ones among them in the order of the visit.
\<close>

definition visits_all :: "inputs \<Rightarrow> 'db Server \<Rightarrow> bool" where
  "visits_all inp s \<longleftrightarrow> distinct (in_range inp) \<and> dom (srv_nodes s) \<subseteq> set (in_range inp)"

definition apiRelayGet :: "'b JsonRPC \<Rightarrow> 'db Server \<Rightarrow> reply result \<times> 'db Server" where
  "apiRelayGet ctx s =
     (Inr (ReplyRelay \<lparr>gr_ID = [], gr_MultiAddress = srv_relayAddress s,
                       gr_LastUpdate = srv_lastUpdate s, gr_LogicalTime = srv_logicalTime s\<rparr>), s)"

section \<open>Sessions and login\<close>

definition issueSessionToken ::
  "('db, 'd) deps \<Rightarrow> inputs \<Rightarrow> 'db Server \<Rightarrow> string \<Rightarrow> int \<Rightarrow> (string \<times> int) result" where
  "issueSessionToken D inp s nodeID lifetime =
     (let claims = \<lparr>sc_NodeID = nodeID,
                    sc_Expires = (if lifetime > 0 then time_Unix (in_now inp + lifetime) else 0)\<rparr>
      in (case MagicLink_Encrypt (dep_gcm D) (dep_claims D) (in_nonce inp) (srv_magicKey s) claims of
            Inl e \<Rightarrow> Inl e
          | Inr raw \<Rightarrow> Inr (SessionTokenPrefix @ raw, sc_Expires claims)))"

definition authenticateSessionToken ::
  "('db, 'd) deps \<Rightarrow> EncryptionKey \<Rightarrow> gotime \<Rightarrow> string \<Rightarrow> Properties result" where
  "authenticateSessionToken D magicKey now token =
     (if \<not> prefix SessionTokenPrefix token then Inl (GoErr ''not a session token'')
      else
        (let payload = TrimPrefix token SessionTokenPrefix in
         (case MagicLink_Decrypt (dep_gcm D) (dep_claims D) magicKey payload of
            Inl e \<Rightarrow> Inl e
          | Inr claims \<Rightarrow>
              if sc_NodeID claims = [] then Inl (GoErr ''invalid session'')
              else if sc_Expires claims \<noteq> 0 \<and> sc_Expires claims \<le> time_Unix now
                   then Inl (GoErr ''session expired'')
              else Inr \<lparr>prop_User = sc_NodeID claims, prop_Group = ''mesh''\<rparr>)))"

definition meshNodeKVKey :: "string \<Rightarrow> string \<Rightarrow> string" where
  "meshNodeKVKey meshID nodeID = ''/mesh/'' @ meshID @ ''/nodes/'' @ nodeID"

definition apiNodeLogin ::
  "('db, 'd) deps \<Rightarrow> inputs \<Rightarrow> NodeLoginRequest JsonRPC \<Rightarrow> 'db Server \<Rightarrow> reply result \<times> 'db Server" where
  "apiNodeLogin D inp ctx s =
     (case GetObject ctx of
        Inl e \<Rightarrow> (Inl e, s)
      | Inr req \<Rightarrow>
          if nl_NodeID req = [] \<or> nl_MeshSecret req = [] then
            (Inl (ApiErr StatusBadRequest ''node id and mesh secret are required''), s)
          else
            (let meshID = (if nl_MeshId req = [] then ''default'' else nl_MeshId req) in
             (case Store_Get (dep_badger D) (dep_node D) (srv_kv s) (meshNodeKVKey meshID (nl_NodeID req)) of
                Inl e \<Rightarrow>
                  (if e = ErrKeyNotFound then Inl (ApiErr StatusUnauthorized ''invalid credentials'') else Inl e, s)
              | Inr rec \<Rightarrow>
                  if mn_PasswordHash rec = [] \<or>
                     \<not> dep_bcrypt_Compare D (mn_PasswordHash rec) (nl_MeshSecret req) then
                    (Inl (ApiErr StatusUnauthorized ''invalid credentials''), s)
                  else
                    (case issueSessionToken D inp s (nl_NodeID req) 0 of
                       Inl e \<Rightarrow> (Inl e, s)
                     | Inr (token, expires) \<Rightarrow>
                         (Inr (ReplyLogin \<lparr>nr_Token = token, nr_NodeID = nl_NodeID req,
                                           nr_Expires = expires\<rparr>), s)))))"

section \<open>Wrappers\<close>

text \<open>
  An HTTP response: the status and either the encoded reply or an error text. \<open>handle\<close> runs a
  handler without a user, \<open>authenticated\<close> only after \<open>DoAuth\<close> accepted the request, \<open>asAdmin\<close> only
  for the group \<open>admin\<close>. A panic of the handler aborts the connection (no response).
\<close>

datatype http_body = JsonBody reply | TextBody string | NoBody

record http_response =
  resp_status :: int
  resp_body :: http_body

definition reply_or_error :: "reply result \<Rightarrow> http_response" where
  "reply_or_error r = (case r of
     Inr obj \<Rightarrow> \<lparr>resp_status = StatusOK, resp_body = JsonBody obj\<rparr>
   | Inl (ApiErr c m) \<Rightarrow> \<lparr>resp_status = c, resp_body = TextBody m\<rparr>
   | Inl (GoPanic m) \<Rightarrow> \<lparr>resp_status = 0, resp_body = NoBody\<rparr>
   | Inl e \<Rightarrow> \<lparr>resp_status = StatusInternalServerError, resp_body = TextBody (Error_string e)\<rparr>)"

definition handle ::
  "('b JsonRPC \<Rightarrow> 's \<Rightarrow> reply result \<times> 's) \<Rightarrow> string \<Rightarrow> 'b option \<Rightarrow> 's \<Rightarrow> http_response \<times> 's" where
  "handle fn i body s =
     (let ctx = \<lparr>rpc_user = None, rpc_id = i, rpc_body = body\<rparr>; (r, s') = fn ctx s
      in (reply_or_error r, s'))"

definition authenticated ::
  "(gotime \<Rightarrow> string \<Rightarrow> Properties option \<times> int) \<Rightarrow> gotime \<Rightarrow> string \<Rightarrow>
   ('b JsonRPC \<Rightarrow> 's \<Rightarrow> reply result \<times> 's) \<Rightarrow> string \<Rightarrow> 'b option \<Rightarrow> 's \<Rightarrow> http_response \<times> 's" where
  "authenticated do_auth now hdr fn i body s =
     (let (user, code) = do_auth now hdr in
      if code \<noteq> StatusOK then (\<lparr>resp_status = StatusUnauthorized, resp_body = TextBody ''unauthorized''\<rparr>, s)
      else
        (let ctx = \<lparr>rpc_user = user, rpc_id = i, rpc_body = body\<rparr>; (r, s') = fn ctx s
         in (reply_or_error r, s')))"

definition asAdmin ::
  "('b JsonRPC \<Rightarrow> 's \<Rightarrow> reply result \<times> 's) \<Rightarrow> 'b JsonRPC \<Rightarrow> 's \<Rightarrow> reply result \<times> 's" where
  "asAdmin fn ctx s =
     (case rpc_Group ctx of
        Inl e \<Rightarrow> (Inl e, s)
      | Inr g \<Rightarrow>
          if g \<noteq> ''admin'' then (Inl (ApiErr StatusUnauthorized ''not authorized''), s)
          else fn ctx s)"

text \<open>
  Over any provider that keeps its contract, a wrapped handler runs with a user, so the
  accessors of the context never dereference nil.
\<close>

context auth_provider
begin

lemma authenticated_runs:
  "authenticated (do_auth a) now hdr fn i body s =
     (if snd (do_auth a now hdr) = StatusOK then
        (let u = the (fst (do_auth a now hdr));
             (r, s') = fn \<lparr>rpc_user = Some u, rpc_id = i, rpc_body = body\<rparr> s
         in (reply_or_error r, s'))
      else (\<lparr>resp_status = StatusUnauthorized, resp_body = TextBody ''unauthorized''\<rparr>, s))"
proof (cases "snd (do_auth a now hdr) = StatusOK")
  case True
  then obtain u where "do_auth a now hdr = (Some u, StatusOK)" by (rule ok_obtains)
  then show ?thesis by (simp add: authenticated_def)
next
  case False
  then show ?thesis by (simp add: authenticated_def Let_def split_beta)
qed

lemma authenticated_admin:
  "authenticated (do_auth a) now hdr (asAdmin fn) i body s =
     (if snd (do_auth a now hdr) = StatusOK \<and> prop_Group (the (fst (do_auth a now hdr))) = ''admin'' then
        (let (r, s') = fn \<lparr>rpc_user = fst (do_auth a now hdr), rpc_id = i, rpc_body = body\<rparr> s
         in (reply_or_error r, s'))
      else if snd (do_auth a now hdr) = StatusOK then
        (\<lparr>resp_status = StatusUnauthorized, resp_body = TextBody ''not authorized''\<rparr>, s)
      else (\<lparr>resp_status = StatusUnauthorized, resp_body = TextBody ''unauthorized''\<rparr>, s))"
proof (cases "snd (do_auth a now hdr) = StatusOK")
  case True
  then obtain u where "do_auth a now hdr = (Some u, StatusOK)" by (rule ok_obtains)
  then show ?thesis
    by (simp add: authenticated_runs asAdmin_def rpc_Group_def reply_or_error_def)
next
  case False
  then show ?thesis by (simp add: authenticated_runs)
qed

end

end
