(* ===== verification/AdminInvites.thy ===== *)
theory AdminInvites
  imports AdminServer
begin

text \<open>
  Invitations and the administration of stored nodes: \<open>pkg/admin/api_admin.go\<close>.
  The negrel assertions at the head of the handlers are compiled in only under a build tag and
  are left out; \<open>asAdmin\<close> checks the same condition before a handler runs.
  \<open>adminRedeemInviteLink\<close> is split where the code's database transactions end: \<open>redeem_lookup\<close>
  reads and validates the invite, \<open>redeem_commit\<close> records the node and consumes the invite.
\<close>

section \<open>Keys and secrets\<close>

definition invitePublicID :: "('db, 'd) deps \<Rightarrow> string \<Rightarrow> string" where
  "invitePublicID D uuid = hex_EncodeToString (dep_sha256 D uuid)"

definition inviteKVKey :: "string \<Rightarrow> string \<Rightarrow> string" where
  "inviteKVKey meshID inviteID = ''/invites/'' @ meshID @ ''/'' @ inviteID"

definition newInviteID :: "inputs \<Rightarrow> string result" where
  "newInviteID inp = (case in_uuid inp of Inl e \<Rightarrow> Inl e | Inr u \<Rightarrow> Inr u)"

definition newNodeLoginSecret :: "inputs \<Rightarrow> string result" where
  "newNodeLoginSecret inp = (case in_rand inp of
     Inl e \<Rightarrow> Inl e | Inr b \<Rightarrow> Inr (hex_EncodeToString (take 32 b)))"

definition hashLoginSecret :: "('db, 'd) deps \<Rightarrow> inputs \<Rightarrow> string \<Rightarrow> string result" where
  "hashLoginSecret D inp secret = (case dep_bcrypt_Generate D (in_salt inp) secret of
     Inl e \<Rightarrow> Inl e | Inr h \<Rightarrow> Inr h)"

definition parseMeshNodeKVKey :: "string \<Rightarrow> (string \<times> string) option" where
  "parseMeshNodeKVKey key =
     (if \<not> prefix ''/mesh/'' key then None
      else
        (let parts = Split (CHR ''/'') (TrimPrefix key ''/mesh/'') in
         if length parts \<noteq> 3 \<or> parts ! 1 \<noteq> ''nodes'' \<or> parts ! 0 = [] \<or> parts ! 2 = [] then None
         else Some (parts ! 0, parts ! 2)))"

section \<open>Creating and redeeming invites\<close>

definition redeem_link :: "string \<Rightarrow> string \<Rightarrow> string" where
  "redeem_link advertiseURL inviteID =
     TrimRight advertiseURL (CHR ''/'') @ ''/api/v1/redeem/'' @ inviteID"

definition adminCreateInviteLink ::
  "('db, 'd) deps \<Rightarrow> inputs \<Rightarrow> CreateInviteRequest JsonRPC \<Rightarrow> 'db Server \<Rightarrow> reply result \<times> 'db Server" where
  "adminCreateInviteLink D inp ctx s =
     (case GetObject ctx of
        Inl e \<Rightarrow> (Inl e, s)
      | Inr req0 \<Rightarrow>
          if ci_MeshId req0 = [] then (Inl (ApiErr StatusBadRequest ''mesh id is required''), s)
          else
            (let req = req0\<lparr>ci_MeshId := ''default''\<rparr> in
             (case newInviteID inp of
                Inl e \<Rightarrow> (Inl e, s)
              | Inr inviteUUID \<Rightarrow>
                  (let invite = \<lparr>iv_UUID = inviteUUID, iv_MeshId = ci_MeshId req,
                                 iv_OneTime = ci_OneTime req,
                                 iv_Expires = (if ci_LifetimeSec req \<noteq> 0
                                               then time_Unix (in_now inp + seconds (ci_LifetimeSec req))
                                               else 0),
                                 iv_InviteAs = ci_Name req\<rparr>;
                       inviteID = invitePublicID D inviteUUID
                   in (case Store_Put (dep_badger D) (dep_invite D) (srv_kv s)
                              (inviteKVKey (ci_MeshId req) inviteID) invite of
                         Inl e \<Rightarrow> (Inl e, s)
                       | Inr kv \<Rightarrow>
                           (Inr (ReplyInvite \<lparr>cr_InviteId = inviteID,
                                              cr_InviteLink = redeem_link (srv_advertiseURL s) inviteID\<rparr>),
                            s\<lparr>srv_kv := kv\<rparr>))))))"

text \<open>\<open>_ = s.kv.Delete(key)\<close>: the error is dropped, the store stays as it was.\<close>

definition delete_ignore :: "('db, 'd) deps \<Rightarrow> string \<Rightarrow> 'db Server \<Rightarrow> 'db Server" where
  "delete_ignore D key s =
     (case Store_Delete (dep_badger D) (srv_kv s) key of Inl e \<Rightarrow> s | Inr kv \<Rightarrow> s\<lparr>srv_kv := kv\<rparr>)"

definition redeem_lookup ::
  "('db, 'd) deps \<Rightarrow> inputs \<Rightarrow> Node JsonRPC \<Rightarrow> 'db Server \<Rightarrow> (string \<times> inviteSecret \<times> Node) result \<times> 'db Server" where
  "redeem_lookup D inp ctx s =
     (let inviteID = rpc_id ctx in
      if inviteID = [] then (Inl (ApiErr StatusBadRequest ''invite id is required''), s)
      else
        (let key = inviteKVKey ''default'' inviteID in
         (case Store_Get (dep_badger D) (dep_invite D) (srv_kv s) key of
            Inl e \<Rightarrow>
              (if e = ErrKeyNotFound then Inl (ApiErr StatusNotFound ''invite not found'') else Inl e, s)
          | Inr invite \<Rightarrow>
              if iv_Expires invite \<noteq> 0 \<and> iv_Expires invite \<le> time_Unix (in_now inp) then
                (Inl (ApiErr StatusGone ''invite expired''), delete_ignore D key s)
              else
                (case GetObject ctx of
                   Inl e \<Rightarrow> (Inl e, s)
                 | Inr node \<Rightarrow>
                     if pn_ID node = [] then
                       (Inl (ApiErr StatusBadRequest ''node peer id is required''), s)
                     else
                       (Inr (key, invite,
                             if pn_Name node = [] then node\<lparr>pn_Name := iv_InviteAs invite\<rparr> else node), s)))))"

definition redeem_commit ::
  "('db, 'd) deps \<Rightarrow> inputs \<Rightarrow> string \<times> inviteSecret \<times> Node \<Rightarrow> 'db Server \<Rightarrow> reply result \<times> 'db Server" where
  "redeem_commit D inp found s =
     (let (key, invite, node) = found;
          s1 = acl_Add inp (pn_ID node) s
      in (case newNodeLoginSecret inp of
            Inl e \<Rightarrow> (Inl e, s1)
          | Inr secret \<Rightarrow>
              (case hashLoginSecret D inp secret of
                 Inl e \<Rightarrow> (Inl e, s1)
               | Inr hash \<Rightarrow>
                   (case Store_Put (dep_badger D) (dep_node D) (srv_kv s1)
                           (meshNodeKVKey (iv_MeshId invite) (pn_ID node))
                           \<lparr>mn_NodeID = pn_ID node, mn_Name = pn_Name node, mn_AddedAt = in_now2 inp,
                            mn_InvitedAs = iv_InviteAs invite, mn_PasswordHash = hash\<rparr> of
                      Inl e \<Rightarrow> (Inl e, s1)
                    | Inr kv \<Rightarrow>
                        (let s2 = s1\<lparr>srv_kv := kv\<rparr>;
                             resp = \<lparr>ri_MeshId = iv_MeshId invite, ri_MeshSecret = secret,
                                     ri_MeshServer = srv_advertiseURL s2\<rparr>
                         in if iv_OneTime invite then
                              (case Store_Delete (dep_badger D) (srv_kv s2) key of
                                 Inl e \<Rightarrow> (Inl e, s2)
                               | Inr kv' \<Rightarrow> (Inr (ReplyRedeem resp), s2\<lparr>srv_kv := kv'\<rparr>))
                            else (Inr (ReplyRedeem resp), s2))))))"

definition adminRedeemInviteLink ::
  "('db, 'd) deps \<Rightarrow> inputs \<Rightarrow> Node JsonRPC \<Rightarrow> 'db Server \<Rightarrow> reply result \<times> 'db Server" where
  "adminRedeemInviteLink D inp ctx s =
     (let (r, s') = redeem_lookup D inp ctx s in
      (case r of Inl e \<Rightarrow> (Inl e, s') | Inr found \<Rightarrow> redeem_commit D inp found s'))"

section \<open>Listing and deleting invites\<close>

definition list_invite ::
  "('db, 'd) deps \<Rightarrow> int \<Rightarrow> string \<Rightarrow> string \<Rightarrow> 'd \<Rightarrow> InviteInfo list \<times> string list \<Rightarrow>
   (InviteInfo list \<times> string list) result" where
  "list_invite D now advertiseURL key data acc =
     (let (invites, expired) = acc in
      (case Unmarshal (dep_invite D) data of
         Inl e \<Rightarrow> Inl e
       | Inr invite \<Rightarrow>
           (let i = TrimPrefix key ''/invites/default/'' in
            if i = [] then Inr acc
            else if iv_Expires invite \<noteq> 0 \<and> iv_Expires invite \<le> now then Inr (invites, expired @ [key])
            else Inr (invites @ [\<lparr>ii_InviteId = i, ii_InviteLink = redeem_link advertiseURL i,
                                  ii_Name = iv_InviteAs invite, ii_OneTime = iv_OneTime invite,
                                  ii_Expires = iv_Expires invite, ii_MeshId = iv_MeshId invite\<rparr>],
                      expired))))"

definition adminListInviteLinks ::
  "('db, 'd) deps \<Rightarrow> inputs \<Rightarrow> 'b JsonRPC \<Rightarrow> 'db Server \<Rightarrow> reply result \<times> 'db Server" where
  "adminListInviteLinks D inp ctx s =
     (case Store_ForEach (dep_badger D) (srv_kv s) ''/invites/default/''
             (list_invite D (time_Unix (in_now inp)) (srv_advertiseURL s)) ([], []) of
        Inl e \<Rightarrow> (Inl e, s)
      | Inr (invites, expired) \<Rightarrow>
          (Inr (ReplyInvites invites), fold (delete_ignore D) expired s))"

definition adminDeleteInviteLink ::
  "('db, 'd) deps \<Rightarrow> 'b JsonRPC \<Rightarrow> 'db Server \<Rightarrow> reply result \<times> 'db Server" where
  "adminDeleteInviteLink D ctx s =
     (let inviteID = rpc_id ctx in
      if inviteID = [] then (Inl (ApiErr StatusBadRequest ''invite id is required''), s)
      else
        (let key = inviteKVKey ''default'' inviteID in
         (case Store_Get (dep_badger D) (dep_invite D) (srv_kv s) key of
            Inl e \<Rightarrow>
              (if e = ErrKeyNotFound then Inl (ApiErr StatusNotFound ''invite not found'') else Inl e, s)
          | Inr invite \<Rightarrow>
              (case Store_Delete (dep_badger D) (srv_kv s) key of
                 Inl e \<Rightarrow> (Inl e, s)
               | Inr kv \<Rightarrow> (Inr (ReplyDeleted inviteID), s\<lparr>srv_kv := kv\<rparr>)))))"

section \<open>Listing and deleting nodes\<close>

definition list_node ::
  "('db, 'd) deps \<Rightarrow> string \<Rightarrow> 'd \<Rightarrow> AdminNode list \<Rightarrow> AdminNode list result" where
  "list_node D key data nodes =
     (case parseMeshNodeKVKey key of
        None \<Rightarrow> Inr nodes
      | Some (meshID, nodeID) \<Rightarrow>
          (case Unmarshal (dep_node D) data of
             Inl e \<Rightarrow> Inl e
           | Inr rec \<Rightarrow>
               (let i = (if mn_NodeID rec = [] then nodeID else mn_NodeID rec) in
                Inr (nodes @ [\<lparr>an_ID = i, an_Name = mn_Name rec, an_MeshId = meshID,
                               an_AddedAt = mn_AddedAt rec, an_InvitedAs = mn_InvitedAs rec\<rparr>]))))"

text \<open>\<open>sort.Slice\<close> with the comparison by mesh, then name, then id.\<close>

definition sort_nodes :: "AdminNode list \<Rightarrow> AdminNode list" where
  "sort_nodes = sort_key (\<lambda>n. (an_MeshId n, an_Name n, an_ID n))"

definition adminListNodes ::
  "('db, 'd) deps \<Rightarrow> 'b JsonRPC \<Rightarrow> 'db Server \<Rightarrow> reply result \<times> 'db Server" where
  "adminListNodes D ctx s =
     (case Store_ForEach (dep_badger D) (srv_kv s) ''/mesh/'' (list_node D) [] of
        Inl e \<Rightarrow> (Inl e, s)
      | Inr nodes \<Rightarrow> (Inr (ReplyAdminNodes (sort_nodes nodes)), s))"

definition node_key ::
  "('db, 'd) deps \<Rightarrow> string \<Rightarrow> string \<Rightarrow> 'd \<Rightarrow> string list \<Rightarrow> string list result" where
  "node_key D i key data keys =
     (case parseMeshNodeKVKey key of
        None \<Rightarrow> Inr keys
      | Some (meshID, nodeID) \<Rightarrow>
          if nodeID = i then Inr (keys @ [key])
          else (case Unmarshal (dep_node D) data of
                  Inl e \<Rightarrow> Inl e
                | Inr rec \<Rightarrow> if mn_NodeID rec = i then Inr (keys @ [key]) else Inr keys))"

definition meshKeysForNode :: "('db, 'd) deps \<Rightarrow> 'db Server \<Rightarrow> string \<Rightarrow> string list result" where
  "meshKeysForNode D s i = Store_ForEach (dep_badger D) (srv_kv s) ''/mesh/'' (node_key D i) []"

text \<open>The deletion loop stops at the first error, with the keys before it already gone.\<close>

fun delete_keys :: "('db, 'd) deps \<Rightarrow> string list \<Rightarrow> 'db Server \<Rightarrow> unit result \<times> 'db Server" where
  "delete_keys D [] s = (Inr (), s)"
| "delete_keys D (key # keys) s =
     (case Store_Delete (dep_badger D) (srv_kv s) key of
        Inl e \<Rightarrow> (Inl e, s)
      | Inr kv \<Rightarrow> delete_keys D keys (s\<lparr>srv_kv := kv\<rparr>))"

text \<open>The section of \<open>adminDeleteNode\<close> that runs under the server lock.\<close>

definition drop_registration :: "inputs \<Rightarrow> string \<Rightarrow> 'db Server \<Rightarrow> 'db Server" where
  "drop_registration inp i s =
     (if srv_nodes s i \<noteq> None
      then s\<lparr>srv_lastUpdate := in_now inp, srv_logicalTime := srv_logicalTime s + 1,
             srv_nodes := (srv_nodes s)(i := None)\<rparr>
      else s)"

definition adminDeleteNode ::
  "('db, 'd) deps \<Rightarrow> inputs \<Rightarrow> 'b JsonRPC \<Rightarrow> 'db Server \<Rightarrow> reply result \<times> 'db Server" where
  "adminDeleteNode D inp ctx s =
     (let i = rpc_id ctx in
      if i = [] then (Inl (ApiErr StatusBadRequest ''node id is required''), s)
      else
        (case meshKeysForNode D s i of
           Inl e \<Rightarrow> (Inl e, s)
         | Inr keys \<Rightarrow>
             (let registered = (srv_nodes s i \<noteq> None);
                  s1 = acl_Remove inp i (drop_registration inp i s)
              in if keys = [] \<and> \<not> registered then
                   (Inl (ApiErr StatusNotFound ''node not found''), s1)
                 else
                   (let (r, s2) = delete_keys D keys s1 in
                    (case r of Inl e \<Rightarrow> (Inl e, s2) | Inr _ \<Rightarrow> (Inr (ReplyDeleted i), s2))))))"

definition adminKickPeer ::
  "('db, 'd) deps \<Rightarrow> inputs \<Rightarrow> 'b JsonRPC \<Rightarrow> 'db Server \<Rightarrow> reply result \<times> 'db Server" where
  "adminKickPeer D inp ctx s = adminDeleteNode D inp ctx s"

end
