(* ===== verification/AdminExample.thy ===== *)
theory AdminExample
  imports AdminRoutes
begin

text \<open>
  A small concrete environment in which every law the admin server relies on holds: an in-memory
  backend whose stored documents are the records themselves, and simple stand-ins for the
  cryptographic packages. Theorems about every environment are applied to it on concrete requests.
\<close>

datatype doc = DocInvite inviteSecret | DocNode meshNodeRecord

definition ex_invite_codec :: "(doc, inviteSecret) codec" where
  "ex_invite_codec =
     \<lparr>Marshal = (\<lambda>v. Inr (DocInvite v)),
      Unmarshal = (\<lambda>d. case d of DocInvite v \<Rightarrow> Inr v | DocNode r \<Rightarrow> Inl (GoErr ''json''))\<rparr>"

definition ex_node_codec :: "(doc, meshNodeRecord) codec" where
  "ex_node_codec =
     \<lparr>Marshal = (\<lambda>r. Inr (DocNode r)),
      Unmarshal = (\<lambda>d. case d of DocNode r \<Rightarrow> Inr r | DocInvite v \<Rightarrow> Inl (GoErr ''json''))\<rparr>"

definition ex_claims_codec :: "(string, sessionClaims) codec" where
  "ex_claims_codec =
     \<lparr>Marshal = (\<lambda>c. if sc_Expires c = 0 then Inr (sc_NodeID c) else Inl (GoErr ''json'')),
      Unmarshal = (\<lambda>d. Inr \<lparr>sc_NodeID = d, sc_Expires = 0\<rparr>)\<rparr>"

definition ex_deps :: "((string \<times> doc) list, doc) deps" where
  "ex_deps =
     \<lparr>dep_badger = mem_badger, dep_invite = ex_invite_codec, dep_node = ex_node_codec,
      dep_claims = ex_claims_codec, dep_gcm = clear_gcm, dep_sha256 = (\<lambda>s. s),
      dep_bcrypt_Generate = (\<lambda>salt p. Inr (''$'' @ p)),
      dep_bcrypt_Compare = (\<lambda>h p. h = ''$'' @ p),
      dep_RFC3339Nano = (\<lambda>t. [])\<rparr>"

definition ex_inputs :: inputs where
  "ex_inputs =
     \<lparr>in_auth_now = 1000000000000, in_now = 1000000000000, in_now2 = 1000000000000,
      in_rand = Inr ''r'', in_uuid = Inr ''u'', in_salt = [], in_nonce = Inr ''nonce-nonce-'',
      in_order = ascending, in_range = [''n1''], in_write = write_ok\<rparr>"

definition ex_key :: string where "ex_key = replicate 32 (CHR ''k'')"

definition ex_server_key :: "string \<Rightarrow> (string \<times> doc) list Server" where
  "ex_server_key k =
     \<lparr>srv_mainAddress = '':4002'', srv_adminKey = k, srv_relayAddress = [],
      srv_lastUpdate = zero_time, srv_logicalTime = 0, srv_nodes = Map.empty,
      srv_acl = \<lparr>al_allow = {}, al_path = ''allow.list'', al_file = None\<rparr>,
      srv_kv = \<lparr>store_db = Some []\<rparr>,
      srv_auth = SetSessionAuth (AddUser NewTokenAuth ''admin'' ''admin'' k)
                   (sessionAuth ex_deps ex_key),
      srv_advertiseURL = ''http://a'', srv_magicKey = ex_key\<rparr>"

definition ex_server :: "(string \<times> doc) list Server" where
  "ex_server = ex_server_key ''secret''"

definition ex_request :: http_request where
  "ex_request =
     \<lparr>rq_method = ''POST'', rq_path = v1 [''nodes''], rq_auth = ''Bearer secret'',
      rq_register = None, rq_login = None, rq_redeem = None, rq_invite = None\<rparr>"

definition ex_node :: "string \<Rightarrow> Node" where
  "ex_node i = NewPeerNode i ''left''"

definition ex_authorize :: "string \<Rightarrow> http_request" where
  "ex_authorize i = ex_request\<lparr>rq_path := v1 [''authorize''],
     rq_register := Some \<lparr>rr_Node = ex_node i, rr_Token = [], rr_LogicalTime = 0, rr_LastUpdate = 0\<rparr>\<rparr>"

definition ex_register :: "string \<Rightarrow> http_request" where
  "ex_register i = ex_request\<lparr>
     rq_register := Some \<lparr>rr_Node = ex_node i, rr_Token = [], rr_LogicalTime = 0, rr_LastUpdate = 0\<rparr>\<rparr>"

lemma ex_badger_ok: "badger_ok (dep_badger ex_deps)"
  by (simp add: ex_deps_def mem_badger_ok)

lemma ex_gcm_ok: "gcm_ok (dep_gcm ex_deps)"
  by (simp add: ex_deps_def clear_gcm_ok)

lemma ex_start_key: "reach ex_deps 0 (ex_server_key k)"
proof -
  let ?s = "(ex_server_key k)\<lparr>srv_advertiseURL := []\<rparr>"
  have "NewServer ex_deps (Inr ex_key) NotExist (Inr []) '':4002'' k = Inr ?s"
    by (simp add: NewServer_def GenerateKey_def NewAllowList_def Open_def ex_server_key_def ex_key_def keySize_def)
  then have "reach ex_deps 0 (WithAdvertiseURL ''http://a'' (WithRelayAddresses [] ?s))"
    by (rule reach.start)
  moreover have "WithAdvertiseURL ''http://a'' (WithRelayAddresses [] ?s) = ex_server_key k"
    by (simp add: WithAdvertiseURL_def WithRelayAddresses_def ex_server_key_def)
  ultimately show ?thesis by simp
qed

lemma ex_start: "reach ex_deps 0 ex_server"
  unfolding ex_server_def by (rule ex_start_key)

text \<open>One node admitted and registered, then a second one.\<close>

definition ex_join :: "string \<Rightarrow> (string \<times> doc) list Server \<Rightarrow> (string \<times> doc) list Server" where
  "ex_join i s = snd (routes ex_deps ex_inputs (ex_register i) (snd (routes ex_deps ex_inputs (ex_authorize i) s)))"

lemma ex_join_reach: "reach ex_deps n s \<Longrightarrow> reach ex_deps (Suc (Suc n)) (ex_join i s)"
  unfolding ex_join_def by (intro reach.request)

definition ex_joined :: "(string \<times> doc) list Server" where
  "ex_joined = ex_join ''n1'' ex_server"

definition ex_pair :: "(string \<times> doc) list Server" where
  "ex_pair = ex_join ''n2'' ex_joined"

lemma ex_joined_reach: "reach ex_deps 2 ex_joined"
  using ex_join_reach [OF ex_start] by (simp add: ex_joined_def numeral_2_eq_2)

lemma ex_pair_reach: "reach ex_deps 4 ex_pair"
  using ex_join_reach [OF ex_joined_reach] by (simp add: ex_pair_def)

lemma ex_joined_node:
  "map_option ref_Node (srv_nodes ex_joined ''n1'') =
     Some ((ex_node ''n1'')\<lparr>pn_LogicalTime := 1, pn_LastUpdate := 1000000000000\<rparr>)"
  by code_simp

lemma ex_pair_nodes:
  "map_option (pn_LogicalTime \<circ> ref_Node) (srv_nodes ex_pair ''n1'') = Some 1"
  "map_option (pn_LogicalTime \<circ> ref_Node) (srv_nodes ex_pair ''n2'') = Some 2"
  by code_simp+

text \<open>A session token of the first node.\<close>

definition ex_session :: string where
  "ex_session = (case issueSessionToken ex_deps ex_inputs ex_joined ''n1'' 0 of Inl e \<Rightarrow> [] | Inr (tok, x) \<Rightarrow> tok)"

lemma ex_session_decrypt:
  "prefix SessionTokenPrefix ex_session \<and>
   MagicLink_Decrypt (dep_gcm ex_deps) (dep_claims ex_deps) (srv_magicKey ex_joined)
     (TrimPrefix ex_session SessionTokenPrefix) = Inr \<lparr>sc_NodeID = ''n1'', sc_Expires = 0\<rparr>"
  by code_simp

lemma ex_session_accepted:
  "authenticateSessionToken ex_deps (srv_magicKey ex_joined) now ex_session =
     Inr \<lparr>prop_User = ''n1'', prop_Group = ''mesh''\<rparr>"
  using ex_session_decrypt by (simp add: authenticateSessionToken_def)

end
