(* ===== verification/AdminMembership.thy ===== *)
theory AdminMembership
  imports AdminExample
begin

text \<open>
  Membership of the mesh: who is registered, who is admitted, and the logical clock that tells
  peers when to look again.
  \<open>members_inv\<close> and \<open>clock_inv\<close> are kept by every request and hold in every reachable state.
  The last section splits registration where the server lock is taken and shows what an
  interleaved request can do between the check and the update.
\<close>

section \<open>Frame lemmas\<close>

text \<open>The parts of the state no request changes.\<close>

definition static :: "'db Server \<Rightarrow> TokenAuth \<times> EncryptionKey \<times> string \<times> string list \<times> string \<times> string" where
  "static s = (srv_auth s, srv_magicKey s, srv_adminKey s, srv_relayAddress s, srv_advertiseURL s,
               srv_mainAddress s)"

text \<open>The membership part: registrations, allow list, clock.\<close>

definition membership :: "'db Server \<Rightarrow> (string \<rightharpoonup> NodeReference) \<times> AllowList \<times> uint64 \<times> gotime" where
  "membership s = (srv_nodes s, srv_acl s, srv_logicalTime s, srv_lastUpdate s)"

lemma static_upd [simp]:
  "static (s\<lparr>srv_kv := kv\<rparr>) = static s" "static (s\<lparr>srv_nodes := m\<rparr>) = static s"
  "static (s\<lparr>srv_lastUpdate := t\<rparr>) = static s" "static (s\<lparr>srv_logicalTime := l\<rparr>) = static s"
  by (simp_all add: static_def)

lemma membership_upd [simp]: "membership (s\<lparr>srv_kv := kv\<rparr>) = membership s"
  by (simp add: membership_def)

lemma delete_ignore_frame [simp]:
  "membership (delete_ignore D key s) = membership s" "static (delete_ignore D key s) = static s"
  by (auto simp: delete_ignore_def membership_def static_def split: sum.splits)

lemma fold_delete_frame [simp]:
  "membership (fold (delete_ignore D) keys s) = membership s"
  "static (fold (delete_ignore D) keys s) = static s"
  by (induction keys arbitrary: s) auto

lemma delete_keys_frame [simp]:
  "membership (snd (delete_keys D keys s)) = membership s"
  "static (snd (delete_keys D keys s)) = static s"
  by (induction D keys s rule: delete_keys.induct)
    (auto simp: membership_def static_def split: sum.splits)

lemma acl_frame [simp]:
  "srv_nodes (acl_Add inp i s) = srv_nodes s" "srv_nodes (acl_Remove inp i s) = srv_nodes s"
  "srv_logicalTime (acl_Add inp i s) = srv_logicalTime s"
  "srv_logicalTime (acl_Remove inp i s) = srv_logicalTime s"
  "srv_kv (acl_Add inp i s) = srv_kv s" "srv_kv (acl_Remove inp i s) = srv_kv s"
  "static (acl_Add inp i s) = static s" "static (acl_Remove inp i s) = static s"
  "al_allow (srv_acl (acl_Add inp i s)) = insert i (al_allow (srv_acl s))"
  "al_allow (srv_acl (acl_Remove inp i s)) = al_allow (srv_acl s) - {i}"
  by (simp_all add: acl_Add_def acl_Remove_def static_def)

lemma membershipD:
  assumes "membership s = membership t"
  shows "srv_nodes s = srv_nodes t" "srv_acl s = srv_acl t" "srv_logicalTime s = srv_logicalTime t"
  using assms by (simp_all add: membership_def)

lemma redeem_lookup_frame [simp]:
  "membership (snd (redeem_lookup D inp ctx s)) = membership s"
  "static (snd (redeem_lookup D inp ctx s)) = static s"
  by (auto simp: redeem_lookup_def Let_def split: sum.splits)

lemma redeem_commit_frame [simp]:
  "membership (snd (redeem_commit D inp (key, invite, node) s)) = membership (acl_Add inp (pn_ID node) s)"
  "static (snd (redeem_commit D inp (key, invite, node) s)) = static s"
  by (auto simp: redeem_commit_def Let_def membership_def static_def acl_Add_def split: sum.splits)

text \<open>A redemption either leaves the membership alone or admits one id.\<close>

lemma redeem_membership:
  "membership (snd (adminRedeemInviteLink D inp ctx s)) = membership s \<or>
   (\<exists>i. i \<noteq> [] \<and> membership (snd (adminRedeemInviteLink D inp ctx s)) = membership (acl_Add inp i s))"
proof (cases "fst (redeem_lookup D inp ctx s)")
  case (Inl e)
  then show ?thesis by (simp add: adminRedeemInviteLink_def split_beta)
next
  case (Inr found)
  obtain key invite node where f: "found = (key, invite, node)" by (cases found)
  have "snd (redeem_lookup D inp ctx s) = s" and "pn_ID node \<noteq> []"
    using Inr f by (auto simp: redeem_lookup_def Let_def split: sum.splits if_splits)
  then show ?thesis
    using Inr f by (auto simp: adminRedeemInviteLink_def split_beta)
qed

lemma redeem_static: "static (snd (adminRedeemInviteLink D inp ctx s)) = static s"
  by (cases "fst (redeem_lookup D inp ctx s)")
    (auto simp: adminRedeemInviteLink_def split_beta)

lemma drop_registration_frame [simp]: "static (drop_registration inp i s) = static s"
  by (simp add: drop_registration_def)

lemma routes_static: "static (snd (routes D inp rq s)) = static s"
  by (rule routes_keeps [where P = "\<lambda>t. static t = static s"])
    (simp_all add: node_api_defs admin_api_defs redeem_static register_locked_def updateNode_def Let_def split_beta
      split: sum.splits option.splits)

section \<open>The abstract membership machine\<close>

text \<open>
  What the server promises about membership, without tokens, storage or HTTP: a map of
  registered nodes, the set of admitted ids and a clock. A node joins only when it is admitted
  and is stamped with the new clock value, an id is admitted without a tick, an expelled id is
  gone from both and ticks the clock when it was registered.
\<close>

type_synonym membership_state = "(string \<rightharpoonup> Node) \<times> string set \<times> uint64"

inductive mem_step :: "membership_state \<Rightarrow> membership_state \<Rightarrow> bool" where
  stay: "mem_step (m, A, t) (m, A, t)"
| join: "i \<in> A \<Longrightarrow> i \<noteq> [] \<Longrightarrow> pn_ID node = i \<Longrightarrow> pn_Name node \<noteq> [] \<Longrightarrow> pn_LogicalTime node = t + 1 \<Longrightarrow>
         mem_step (m, A, t) (m(i \<mapsto> node), A, t + 1)"
| admit: "i \<noteq> [] \<Longrightarrow> mem_step (m, A, t) (m, insert i A, t)"
| expel: "mem_step (m, A, t) (m(i := None), A - {i}, if m i = None then t else t + 1)"

inductive_cases mem_stepE: "mem_step (m, A, t) x"

definition view :: "'db Server \<Rightarrow> (string \<rightharpoonup> Node)" where
  "view s i = map_option ref_Node (srv_nodes s i)"

definition mem_abs :: "'db Server \<Rightarrow> membership_state" where
  "mem_abs s = (view s, al_allow (srv_acl s), srv_logicalTime s)"

lemma abs_membership: "membership s = membership t \<Longrightarrow> mem_abs s = mem_abs t"
  by (auto simp: mem_abs_def view_def membership_def fun_eq_iff)

lemma mem_step_membership: "membership t = membership s \<Longrightarrow> mem_step (mem_abs s) (mem_abs t)"
  using abs_membership [of t s] by (simp add: mem_abs_def mem_step.stay)

lemma abs_acl_Add: "i \<noteq> [] \<Longrightarrow> mem_step (mem_abs s) (mem_abs (acl_Add inp i s))"
  by (simp add: mem_abs_def view_def [abs_def] mem_step.admit)

lemma register_checkD:
  "register_check ctx s = Inr node \<Longrightarrow>
     pn_Name node \<noteq> [] \<and> pn_ID node \<noteq> [] \<and> pn_ID node \<in> al_allow (srv_acl s)"
  by (auto simp: register_check_def Has_def split: sum.splits if_splits)

lemma register_locked_abs:
  "mem_abs (snd (register_locked D inp node s)) =
     ((view s)(pn_ID node \<mapsto> node\<lparr>pn_LastUpdate := in_now inp, pn_LogicalTime := srv_logicalTime s + 1\<rparr>),
      al_allow (srv_acl s), srv_logicalTime s + 1)"
  by (auto simp: register_locked_def mem_abs_def view_def [abs_def] Let_def)

lemma register_mem_step: "mem_step (mem_abs s) (mem_abs (snd (apiNodeRegister D inp ctx s)))"
proof (cases "register_check ctx s")
  case (Inl e)
  then show ?thesis by (simp add: apiNodeRegister_def mem_step_membership)
next
  case (Inr node)
  then have "mem_abs (snd (apiNodeRegister D inp ctx s)) = mem_abs (snd (register_locked D inp node s))"
    by (simp add: apiNodeRegister_def split_beta)
  also have "mem_step (mem_abs s) \<dots>"
    unfolding register_locked_abs unfolding mem_abs_def
    using register_checkD [OF Inr] by (intro mem_step.join) auto
  finally show ?thesis .
qed

lemma updateNode_abs: "mem_abs (snd (updateNode inp i req s)) = mem_abs s"
  by (auto simp: updateNode_def mem_abs_def view_def fun_eq_iff split: option.splits)

lemma refresh_abs: "mem_abs (snd (apiNodeRefresh inp ctx s)) = mem_abs s"
  by (simp add: apiNodeRefresh_def Let_def split_beta updateNode_abs split: sum.splits)

lemma refresh_mem_step: "mem_step (mem_abs s) (mem_abs (snd (apiNodeRefresh inp ctx s)))"
  unfolding refresh_abs by (simp add: mem_abs_def mem_step.stay)

lemma expel_abs:
  assumes "view t = (view s)(i := None)" and "al_allow (srv_acl t) = al_allow (srv_acl s) - {i}"
    and "srv_logicalTime t = (if srv_nodes s i = None then srv_logicalTime s else srv_logicalTime s + 1)"
  shows "mem_step (mem_abs s) (mem_abs t)"
proof -
  have "view s i = None \<longleftrightarrow> srv_nodes s i = None" by (simp add: view_def)
  then have "mem_abs t = ((view s)(i := None), al_allow (srv_acl s) - {i},
      if view s i = None then srv_logicalTime s else srv_logicalTime s + 1)"
    using assms by (simp add: mem_abs_def)
  then show ?thesis using mem_step.expel by (simp add: mem_abs_def)
qed

lemma unregister_mem_step: "mem_step (mem_abs s) (mem_abs (snd (apiNodeUnregister inp ctx s)))"
proof (cases "rpc_id ctx = []")
  case True
  then show ?thesis by (simp add: apiNodeUnregister_def mem_step_membership)
next
  case False
  then show ?thesis
    by (intro expel_abs [where i = "rpc_id ctx"])
      (auto simp: apiNodeUnregister_def view_def [abs_def] Let_def fun_eq_iff split: option.splits)
qed

lemma delete_node_mem_step: "mem_step (mem_abs s) (mem_abs (snd (adminDeleteNode D inp ctx s)))"
proof (cases "rpc_id ctx = [] \<or> (\<exists>e. meshKeysForNode D s (rpc_id ctx) = Inl e)")
  case True
  then show ?thesis by (auto simp: adminDeleteNode_def mem_step_membership Let_def)
next
  case False
  let ?s1 = "acl_Remove inp (rpc_id ctx) (drop_registration inp (rpc_id ctx) s)"
  obtain keys where keys: "meshKeysForNode D s (rpc_id ctx) = Inr keys"
    using False by (metis sumE)
  have "membership (snd (adminDeleteNode D inp ctx s)) = membership ?s1"
    using False keys by (auto simp: adminDeleteNode_def Let_def split_beta split: sum.splits)
  then have "mem_abs (snd (adminDeleteNode D inp ctx s)) = mem_abs ?s1" by (rule abs_membership)
  moreover have "mem_step (mem_abs s) (mem_abs ?s1)"
    by (intro expel_abs [where i = "rpc_id ctx"])
      (auto simp: drop_registration_def acl_Remove_def view_def [abs_def] fun_eq_iff)
  ultimately show ?thesis by simp
qed

lemma redeem_mem_step: "mem_step (mem_abs s) (mem_abs (snd (adminRedeemInviteLink D inp ctx s)))"
  using redeem_membership [of D inp ctx s]
proof
  assume "membership (snd (adminRedeemInviteLink D inp ctx s)) = membership s"
  then show ?thesis by (rule mem_step_membership)
next
  assume "\<exists>i. i \<noteq> [] \<and>
    membership (snd (adminRedeemInviteLink D inp ctx s)) = membership (acl_Add inp i s)"
  then show ?thesis using abs_acl_Add abs_membership by metis
qed

lemma quiet_handlers:
  "membership (snd (apiNodeLogin D inp c1 s)) = membership s"
  "membership (snd (apiRelayGet c2 s)) = membership s"
  "membership (snd (apiNodeList inp c2 s)) = membership s"
  "membership (snd (adminListNodes D c2 s)) = membership s"
  "membership (snd (adminCreateInviteLink D inp c3 s)) = membership s"
  "membership (snd (adminListInviteLinks D inp c2 s)) = membership s"
  "membership (snd (adminDeleteInviteLink D c2 s)) = membership s"
  by (simp_all add: node_api_defs admin_api_defs Let_def split: sum.splits)

lemma routes_mem_step: "mem_step (mem_abs s) (mem_abs (snd (routes D inp rq s)))"
proof (rule routes_keeps [where P = "\<lambda>t. mem_step (mem_abs s) (mem_abs t)"])
  fix ctx
  show "mem_step (mem_abs s) (mem_abs (snd (apiNodeAuthorize inp ctx s)))"
    by (auto simp: apiNodeAuthorize_def intro: abs_acl_Add mem_step_membership split: sum.splits)
qed (simp_all add: mem_step_membership quiet_handlers refresh_mem_step register_mem_step
      unregister_mem_step delete_node_mem_step redeem_mem_step)

section \<open>Invariants of the abstract machine\<close>

text \<open>Only admitted ids are registered, each under its own nonempty id and with a name.\<close>

fun members_inv :: "membership_state \<Rightarrow> bool" where
  "members_inv (m, A, t) \<longleftrightarrow>
     dom m \<subseteq> A \<and> (\<forall>i n. m i = Some n \<longrightarrow> pn_ID n = i \<and> i \<noteq> [] \<and> pn_Name n \<noteq> [])"

text \<open>
  After at most \<open>k\<close> steps the clock is at most \<open>k\<close>, no node is stamped later than the clock, and
  no two nodes carry the same stamp.
\<close>

fun clock_inv :: "nat \<Rightarrow> membership_state \<Rightarrow> bool" where
  "clock_inv k (m, A, t) \<longleftrightarrow>
     unat t \<le> k \<and> (\<forall>i n. m i = Some n \<longrightarrow> pn_LogicalTime n \<le> t) \<and>
     (\<forall>i j n n'. m i = Some n \<longrightarrow> m j = Some n' \<longrightarrow> pn_LogicalTime n = pn_LogicalTime n' \<longrightarrow> i = j)"

lemma members_inv_step: "mem_step x y \<Longrightarrow> members_inv x \<Longrightarrow> members_inv y"
  by (induction rule: mem_step.induct) (auto split: if_splits)

lemma tick:
  fixes t :: uint64
  assumes "unat t \<le> k" and "Suc k < 2 ^ 64"
  shows "unat (t + 1) \<le> Suc k" and "t < t + 1"
proof -
  have "unat (t + 1) = Suc (unat t)"
    using assms by (simp add: unat_word_ariths)
  then show "unat (t + 1) \<le> Suc k" and "t < t + 1" using assms(1) by (simp_all add: word_less_nat_alt)
qed

lemma clock_inv_step:
  assumes "mem_step x y" and "clock_inv k x" and "Suc k < 2 ^ 64"
  shows "clock_inv (Suc k) y"
  using assms
proof (induction rule: mem_step.induct)
  case (join i A node t m)
  then have t: "unat (t + 1) \<le> Suc k" "t < t + 1" using tick [of t k] by auto
  have "pn_LogicalTime n < t + 1" if "m j = Some n" for j n
    using join.prems that t(2) by (auto dest: le_less_trans)
  then show ?case using join t(1) by (fastforce simp: less_imp_le split: if_splits)
next
  case (expel m A t i)
  then have t: "t < t + 1" "unat (t + 1) \<le> Suc k" using tick [of t k] by auto
  have "pn_LogicalTime n \<le> t + 1" if "m j = Some n" for j n
  proof -
    have "pn_LogicalTime n \<le> t" using expel.prems(1) that by auto
    then show ?thesis using t(1) by simp
  qed
  then show ?case using expel t(2) by (auto split: if_splits)
qed auto

section \<open>Every reachable state\<close>

lemma NewServer_membership:
  "NewServer D key_bytes allow_file db addr adminKey = Inr s \<Longrightarrow>
     srv_nodes s = Map.empty \<and> srv_logicalTime s = 0"
  by (auto simp: NewServer_def split: sum.splits option.splits prod.splits)

lemma reach_members: "reach D n s \<Longrightarrow> members_inv (mem_abs s)"
proof (induction rule: reach.induct)
  case (start key_bytes allow_file db addr adminKey s url addrs)
  then show ?case
    using NewServer_membership [OF start(1)]
    by (auto simp: WithAdvertiseURL_def WithRelayAddresses_def mem_abs_def view_def)
next
  case (request n s inp rq)
  then show ?case using members_inv_step routes_mem_step by blast
qed

lemma reach_clock: "reach D n s \<Longrightarrow> n < 2 ^ 64 \<Longrightarrow> clock_inv n (mem_abs s)"
proof (induction rule: reach.induct)
  case (start key_bytes allow_file db addr adminKey s url addrs)
  then show ?case
    using NewServer_membership [OF start(1)]
    by (auto simp: WithAdvertiseURL_def WithRelayAddresses_def mem_abs_def view_def)
next
  case (request n s inp rq)
  then show ?case using clock_inv_step [OF routes_mem_step] by simp
qed

lemma view_Some: "view s i = Some node \<longleftrightarrow> (\<exists>ref. srv_nodes s i = Some ref \<and> ref_Node ref = node)"
  by (auto simp: view_def)

text \<open>A step changes the view exactly when it moves the clock.\<close>

lemma step_clock:
  assumes "mem_step x y" and "clock_inv k x" and "Suc k < 2 ^ 64"
  shows "(fst y = fst x \<longleftrightarrow> snd (snd y) = snd (snd x)) \<and>
         (fst y \<noteq> fst x \<longrightarrow> snd (snd y) = snd (snd x) + 1)"
  using assms
proof (induction rule: mem_step.induct)
  case (join i A node t m)
  then have "t < t + 1" using tick [of t k] by auto
  moreover have "m i \<noteq> Some node"
  proof
    assume "m i = Some node"
    then have "pn_LogicalTime node \<le> t" using join.prems(1) by auto
    then show False using \<open>t < t + 1\<close> join.hyps(5) by simp
  qed
  ultimately show ?case by (auto dest: fun_cong [where x = i])
next
  case (expel m A t i)
  then have "t \<noteq> t + 1" using tick [of t k] by auto
  then show ?case by (auto simp: fun_eq_iff)
qed auto

section \<open>Properties\<close>

text \<open>
  C3. The admin server refines the membership machine: whatever request arrives, with whatever
  credentials, body, clock reading or storage error, what it does to the registered nodes, the
  allow list and the logical clock is one step of the abstract machine \<open>mem_step\<close>.
\<close>

theorem server_refines_membership:
  "mem_step (mem_abs s) (mem_abs (snd (routes D inp rq s)))"
  by (rule routes_mem_step)

text \<open>
  C4. In every state the server can reach, a registered node is stored under its own nonempty id,
  has a name, is on the allow list, and the gate built over that list lets it connect in both
  directions.
\<close>

theorem registered_nodes_admitted:
  assumes "reach D n s" and "srv_nodes s i = Some ref"
  shows "pn_ID (ref_Node ref) = i \<and> i \<noteq> [] \<and> pn_Name (ref_Node ref) \<noteq> [] \<and> Has (srv_acl s) i \<and>
         gate_inbound (NewGateKeeper (Has (srv_acl s))) i \<and>
         gate_outbound (NewGateKeeper (Has (srv_acl s))) i"
proof -
  have "view s i = Some (ref_Node ref)" using assms(2) by (simp add: view_def)
  moreover have "i \<in> al_allow (srv_acl s)"
    using reach_members [OF assms(1)] calculation by (auto simp: mem_abs_def)
  ultimately show ?thesis
    using reach_members [OF assms(1)] by (simp add: mem_abs_def acl.gate_admits Has_def)
qed

theorem registered_nodes_admitted_witness:
  "\<exists>ref. srv_nodes ex_joined ''n1'' = Some ref \<and> pn_ID (ref_Node ref) = ''n1'' \<and>
     Has (srv_acl ex_joined) ''n1''"
proof -
  obtain ref where "srv_nodes ex_joined ''n1'' = Some ref" using ex_joined_node by auto
  then show ?thesis using registered_nodes_admitted [OF ex_joined_reach] by blast
qed

text \<open>
  C9. The logical clock orders registrations. As long as fewer than \<open>2\<^sup>6\<^sup>4\<close> requests were handled,
  two different registered nodes never carry the same stamp, and no stamp is ahead of the clock.
\<close>

theorem logical_times_distinct:
  assumes "reach D n s" and "n < 2 ^ 64"
    and "srv_nodes s i = Some ref" and "srv_nodes s j = Some ref'"
  shows "pn_LogicalTime (ref_Node ref) \<le> srv_logicalTime s \<and>
         (pn_LogicalTime (ref_Node ref) = pn_LogicalTime (ref_Node ref') \<longleftrightarrow> i = j)"
proof -
  have "view s i = Some (ref_Node ref)" "view s j = Some (ref_Node ref')"
    using assms(3,4) by (simp_all add: view_def)
  then show ?thesis using reach_clock [OF assms(1,2)] assms(3,4) by (auto simp: mem_abs_def)
qed

theorem logical_times_distinct_witness:
  "map_option (pn_LogicalTime \<circ> ref_Node) (srv_nodes ex_pair ''n1'') = Some 1 \<and>
   map_option (pn_LogicalTime \<circ> ref_Node) (srv_nodes ex_pair ''n2'') = Some 2 \<and>
   map_option (pn_LogicalTime \<circ> ref_Node) (srv_nodes ex_pair ''n1'') \<noteq>
     map_option (pn_LogicalTime \<circ> ref_Node) (srv_nodes ex_pair ''n2'')"
proof -
  obtain r1 r2 where "srv_nodes ex_pair ''n1'' = Some r1" "srv_nodes ex_pair ''n2'' = Some r2"
    using ex_pair_nodes by auto
  then show ?thesis
    using logical_times_distinct [OF ex_pair_reach, of "''n1''" r1 "''n2''" r2] ex_pair_nodes by simp
qed

text \<open>
  C7. The clock is a sound and exact change detector. Over one request to a reachable server, the
  logical time differs exactly when what a listing shows (the registered nodes with their stamps)
  differs, and then it has grown by one without wrapping.
\<close>

theorem clock_detects_change:
  assumes "reach D n s" and "Suc n < 2 ^ 64" and "s' = snd (routes D inp rq s)"
  shows "(srv_logicalTime s' = srv_logicalTime s \<longleftrightarrow> view s' = view s) \<and>
         (view s' \<noteq> view s \<longrightarrow> unat (srv_logicalTime s') = unat (srv_logicalTime s) + 1)"
proof -
  have inv: "clock_inv n (mem_abs s)" using reach_clock [OF assms(1)] assms(2) by simp
  have step: "mem_step (mem_abs s) (mem_abs s')" using routes_mem_step assms(3) by simp
  have "unat (srv_logicalTime s + 1) = Suc (unat (srv_logicalTime s))"
    using inv assms(2) by (simp add: mem_abs_def unat_word_ariths)
  then show ?thesis using step_clock [OF step inv assms(2)] by (auto simp: mem_abs_def)
qed

theorem clock_detects_change_witness:
  "view ex_pair \<noteq> view (snd (routes ex_deps ex_inputs (ex_authorize ''n2'') ex_joined)) \<and>
   unat (srv_logicalTime ex_pair) = 2"
proof -
  let ?s = "snd (routes ex_deps ex_inputs (ex_authorize ''n2'') ex_joined)"
  have "reach ex_deps 3 ?s" using reach.request [OF ex_joined_reach] by simp
  moreover have "ex_pair = snd (routes ex_deps ex_inputs (ex_register ''n2'') ?s)" by (simp add: ex_pair_def ex_join_def)
  moreover have "unat (srv_logicalTime ?s) = 1 \<and> unat (srv_logicalTime ex_pair) = 2" by code_simp
  ultimately show ?thesis
    using clock_detects_change [of ex_deps 3 ?s ex_pair ex_inputs "ex_register ''n2''"] by auto
qed

text \<open>
  The check against the allow list and the update of the registrations are two critical
  sections. When another request unregisters the node in between, registration succeeds all the
  same: the node is then listed to every peer, but the gate refuses to connect it. No sequence of
  complete requests reaches such a state.
\<close>

theorem register_unregister_race:
  assumes "register_check ctx s = Inr node" and "rpc_id ctx' = pn_ID node"
    and "s' = snd (register_locked D inp node (snd (apiNodeUnregister inp' ctx' s)))"
  shows "srv_nodes s' (pn_ID node) \<noteq> None \<and> \<not> gate_inbound (NewGateKeeper (Has (srv_acl s'))) (pn_ID node) \<and>
         \<not> reach D n s'"
proof -
  have reg: "srv_nodes s' (pn_ID node) \<noteq> None"
    using assms(3) by (simp add: register_locked_def Let_def)
  have out: "\<not> Has (srv_acl s') (pn_ID node)"
    using register_checkD [OF assms(1)] assms(2,3)
    by (simp add: register_locked_def apiNodeUnregister_def Has_def Let_def split: option.splits)
  have "\<not> reach D n s'"
  proof
    assume "reach D n s'"
    then have "dom (view s') \<subseteq> al_allow (srv_acl s')" using reach_members by (force simp: mem_abs_def)
    then show False using reg out by (auto simp: view_def Has_def dom_def)
  qed
  with reg out show ?thesis by (simp add: acl.gate_admits Has_def)
qed

theorem register_unregister_race_witness:
  "let ctx = \<lparr>rpc_user = None, rpc_id = [], rpc_body = rq_register (ex_register ''n1'')\<rparr>;
       ctx' = \<lparr>rpc_user = None, rpc_id = ''n1'', rpc_body = (None :: unit option)\<rparr>;
       s' = snd (register_locked ex_deps ex_inputs (ex_node ''n1'') (snd (apiNodeUnregister ex_inputs ctx' ex_joined)))
   in register_check ctx ex_joined = Inr (ex_node ''n1'') \<and>
      srv_nodes s' ''n1'' \<noteq> None \<and> \<not> gate_inbound (NewGateKeeper (Has (srv_acl s'))) ''n1''"
proof -
  let ?ctx = "\<lparr>rpc_user = None, rpc_id = [], rpc_body = rq_register (ex_register ''n1'')\<rparr>"
  have "register_check ?ctx ex_joined = Inr (ex_node ''n1'')" by code_simp
  moreover have "pn_ID (ex_node ''n1'') = ''n1''" by code_simp
  ultimately show ?thesis
    using register_unregister_race [OF _ _ refl, of ?ctx ex_joined "ex_node ''n1''"
        "\<lparr>rpc_user = None, rpc_id = ''n1'', rpc_body = (None :: unit option)\<rparr>" ex_deps ex_inputs ex_inputs]
    by (simp add: Let_def)
qed

end
