(* ===== verification/AdminSecurity.thy ===== *)
theory AdminSecurity
  imports AdminMembership
begin

text \<open>
  Who may do what at the admin server: the admin key, session tokens, and what they are worth
  after a node was removed.
\<close>

section \<open>The credentials of a reachable server\<close>

definition auth_inv :: "('db, 'd) deps \<Rightarrow> 'db Server \<Rightarrow> bool" where
  "auth_inv D s \<longleftrightarrow>
     ta_users (srv_auth s) = [srv_adminKey s \<mapsto> \<lparr>tu_User = ''admin'', tu_Group = ''admin''\<rparr>] \<and>
     ta_session (srv_auth s) = Some (sessionAuth D (srv_magicKey s))"

lemma auth_inv_static: "static s = static t \<Longrightarrow> auth_inv D s = auth_inv D t"
  by (simp add: auth_inv_def static_def)

lemma reach_auth: "reach D n s \<Longrightarrow> auth_inv D s"
proof (induction rule: reach.induct)
  case (start key_bytes allow_file db addr adminKey s url addrs)
  then show ?case
    by (auto simp: NewServer_def auth_inv_def WithAdvertiseURL_def WithRelayAddresses_def NewTokenAuth_def
        AddUser_def SetSessionAuth_def split: sum.splits option.splits prod.splits)
next
  case (request n s inp rq)
  then show ?case using auth_inv_static [OF routes_static] by blast
qed

lemma session_group: "sessionAuth D key now token = (Some p, ok) \<Longrightarrow> prop_Group p = ''mesh''"
  by (auto simp: sessionAuth_def authenticateSessionToken_def Let_def split: sum.splits if_splits)

text \<open>The group \<open>admin\<close> is given to the admin key alone.\<close>

lemma DoAuth_admin:
  assumes "auth_inv D s" and "DoAuth (srv_auth s) now hdr = (Some u, StatusOK)" and "prop_Group u = ''admin''"
  shows "bearer_token hdr = Some (srv_adminKey s)"
  using assms
  by (auto simp: DoAuth_cases auth_inv_def Let_def dest: session_group
      split: option.splits if_splits prod.splits)

text \<open>A valid session token is accepted as a user of the group \<open>mesh\<close>.\<close>

lemma DoAuth_session:
  assumes "auth_inv D s" and "bearer_token hdr = Some token"
    and "authenticateSessionToken D (srv_magicKey s) now token = Inr p"
  shows "DoAuth (srv_auth s) now hdr = (Some p, StatusOK)"
proof -
  have "prefix SessionTokenPrefix token"
    using assms(3) by (simp add: authenticateSessionToken_def split: if_splits)
  with assms show ?thesis by (simp add: DoAuth_cases auth_inv_def sessionAuth_def)
qed

section \<open>Requests to the admin API\<close>

definition admin_path :: "string list \<Rightarrow> bool" where
  "admin_path p \<longleftrightarrow> take 3 p = v1 [''admin'']"

lemma id_under_take: "id_under pre p \<Longrightarrow> take (length pre) p = pre"
  by (simp add: id_under_def)

lemma not_admin_path:
  assumes "admin_path p"
  shows "p \<noteq> v1 [''login'']" "p \<noteq> v1 [''relay'']" "p \<noteq> v1 [''authorize'']" "p \<noteq> v1 [''nodes'']"
    "\<not> id_under (v1 [''nodes'']) p" "\<not> id_under (v1 [''redeem'']) p"
  using assms id_under_take [of "v1 [''nodes'']" p] id_under_take [of "v1 [''redeem'']" p]
  by (auto simp: admin_path_def numeral_3_eq_3)

lemma if_holds: "P x \<Longrightarrow> P y \<Longrightarrow> P (if c then x else y)"
  by simp

lemma admin_routes_keep:
  assumes "admin_path (rq_path rq)" and "P (notFoundHandler (rq_path rq), s)"
    and "\<And>(fn :: unit JsonRPC \<Rightarrow> _) i b. P (authenticated (DoAuth (srv_auth s)) (in_auth_now inp) (rq_auth rq) (asAdmin fn) i b s)"
    and "\<And>(fn :: CreateInviteRequest JsonRPC \<Rightarrow> _) i b. P (authenticated (DoAuth (srv_auth s)) (in_auth_now inp) (rq_auth rq) (asAdmin fn) i b s)"
  shows "P (routes D inp rq s)"
  unfolding routes_def Let_def
  by (simp only: not_admin_path [OF assms(1)] simp_thms if_False)
    (intro if_holds [where P = P] assms)

text \<open>What happens when no token the server accepts from this header belongs to the group \<open>admin\<close>.\<close>

lemma admin_refused:
  assumes "admin_path (rq_path rq)"
    and "\<And>u. DoAuth (srv_auth s) (in_auth_now inp) (rq_auth rq) = (Some u, StatusOK) \<Longrightarrow> prop_Group u \<noteq> ''admin''"
  shows "snd (routes D inp rq s) = s \<and>
         (resp_status (fst (routes D inp rq s)) = StatusUnauthorized \<or>
          resp_status (fst (routes D inp rq s)) = StatusNotFound)"
proof -
  have "prop_Group (the (fst (DoAuth (srv_auth s) (in_auth_now inp) (rq_auth rq)))) \<noteq> ''admin''"
    if "snd (DoAuth (srv_auth s) (in_auth_now inp) (rq_auth rq)) = StatusOK"
    using token.ok_obtains [OF that] assms(2) by (metis fst_conv option.sel)
  then show ?thesis
    by (intro admin_routes_keep [where P = "\<lambda>x. snd x = s \<and> (resp_status (fst x) = StatusUnauthorized \<or>
        resp_status (fst x) = StatusNotFound)", OF assms(1)])
      (auto simp: token.authenticated_admin notFoundHandler_def)
qed

section \<open>Properties\<close>

text \<open>
  C5. Administration needs the admin key. On a reachable server, a request below
  \<open>/api/v1/admin/\<close> whose header does not carry exactly the configured admin key, a session token
  included, is answered 401 (or 404 where there is no route) and changes nothing.
\<close>

theorem admin_api_needs_key:
  assumes "reach D n s" and "admin_path (rq_path rq)" and "bearer_token (rq_auth rq) \<noteq> Some (srv_adminKey s)"
  shows "snd (routes D inp rq s) = s \<and>
         (resp_status (fst (routes D inp rq s)) = StatusUnauthorized \<or>
          resp_status (fst (routes D inp rq s)) = StatusNotFound)"
  using admin_refused [OF assms(2), of s inp D] DoAuth_admin [OF reach_auth [OF assms(1)]] assms(3) by blast

theorem admin_api_needs_key_witness:
  "snd (routes ex_deps ex_inputs (ex_request\<lparr>rq_method := ''DELETE'', rq_path := v1 [''admin'', ''nodes'', ''n1''],
      rq_auth := ''Bearer guess''\<rparr>) ex_joined) = ex_joined"
proof -
  let ?rq = "ex_request\<lparr>rq_method := ''DELETE'', rq_path := v1 [''admin'', ''nodes'', ''n1''],
      rq_auth := ''Bearer guess''\<rparr>"
  have "admin_path (rq_path ?rq)" by code_simp
  moreover have "bearer_token (rq_auth ?rq) \<noteq> Some (srv_adminKey ex_joined)" by code_simp
  ultimately show ?thesis using admin_api_needs_key [OF ex_joined_reach] by blast
qed

text \<open>
  An admin key that starts with the session prefix \<open>mesh-\<close> locks the administrator out:
  the token is taken for a session token, so on a reachable server with such a key no request at
  all reaches the admin API.
\<close>

theorem session_prefix_locks_admin_out:
  assumes "reach D n s" and "prefix SessionTokenPrefix (srv_adminKey s)" and "admin_path (rq_path rq)"
  shows "snd (routes D inp rq s) = s \<and> resp_status (fst (routes D inp rq s)) \<noteq> StatusOK"
proof -
  have "prop_Group u \<noteq> ''admin''" if "DoAuth (srv_auth s) now hdr = (Some u, StatusOK)" for now hdr u
    using that reach_auth [OF assms(1)] assms(2)
    by (auto simp: DoAuth_cases auth_inv_def Let_def dest: session_group
        split: option.splits if_splits prod.splits)
  then show ?thesis using admin_refused [OF assms(3), of s inp D] by auto
qed

theorem session_prefix_locks_admin_out_witness:
  "resp_status (fst (routes ex_deps ex_inputs (ex_request\<lparr>rq_path := v1 [''admin'', ''invite''],
      rq_auth := ''Bearer mesh-key''\<rparr>) (ex_server_key ''mesh-key''))) \<noteq> StatusOK"
proof -
  let ?rq = "ex_request\<lparr>rq_path := v1 [''admin'', ''invite''], rq_auth := ''Bearer mesh-key''\<rparr>"
  have "admin_path (rq_path ?rq)" by code_simp
  moreover have "prefix SessionTokenPrefix (srv_adminKey (ex_server_key ''mesh-key''))" by code_simp
  ultimately show ?thesis using session_prefix_locks_admin_out [OF ex_start_key] by blast
qed

section \<open>What a session token is worth\<close>

text \<open>The two requests with which a node joins.\<close>

definition node_request :: "string list \<Rightarrow> string \<Rightarrow> Node \<Rightarrow> http_request" where
  "node_request p hdr node =
     \<lparr>rq_method = ''POST'', rq_path = p, rq_auth = hdr,
      rq_register = Some \<lparr>rr_Node = node, rr_Token = [], rr_LogicalTime = 0, rr_LastUpdate = 0\<rparr>,
      rq_login = None, rq_redeem = None, rq_invite = None\<rparr>"

lemma route_authorize:
  assumes "DoAuth (srv_auth s) (in_auth_now inp) hdr = (Some p, StatusOK)" and "pn_ID node \<noteq> []"
  shows "snd (routes D inp (node_request (v1 [''authorize'']) hdr node) s) = acl_Add inp (pn_ID node) s"
  using assms
  by (simp add: routes_def node_request_def method_is_def authenticated_def apiNodeAuthorize_def GetObject_def)

lemma route_register:
  assumes "DoAuth (srv_auth s) (in_auth_now inp) hdr = (Some p, StatusOK)"
    and "pn_ID node \<noteq> []" and "pn_Name node \<noteq> []" and "Has (srv_acl s) (pn_ID node)"
  shows "snd (routes D inp (node_request (v1 [''nodes'']) hdr node) s) = snd (register_locked D inp node s)"
  using assms
  by (simp add: routes_def node_request_def method_is_def authenticated_def apiNodeRegister_def
      register_check_def GetObject_def split_beta)

lemma register_locked_frame:
  "srv_acl (snd (register_locked D inp node s)) = srv_acl s"
  "srv_nodes (snd (register_locked D inp node s)) (pn_ID node) \<noteq> None"
  by (simp_all add: register_locked_def Let_def)

text \<open>
  C24. Removal does not revoke a session. The tokens a login issues carry no expiry, and no
  request changes which tokens are accepted: whatever request \<open>rq\<close> was handled in between, a kick of
  the node included, the holder of such a token can authorize any node, its own again included,
  and register it; it is then listed and the gate admits it.
\<close>

theorem session_survives_kick:
  assumes "reach D n s" and "bearer_token hdr = Some token"
    and "\<forall>now. authenticateSessionToken D (srv_magicKey s) now token = Inr p"
    and "pn_ID node \<noteq> []" and "pn_Name node \<noteq> []"
    and "s1 = snd (routes D inp rq s)"
    and "s2 = snd (routes D inp' (node_request (v1 [''authorize'']) hdr node) s1)"
    and "s3 = snd (routes D inp'' (node_request (v1 [''nodes'']) hdr node) s2)"
  shows "srv_nodes s3 (pn_ID node) \<noteq> None \<and> gate_inbound (NewGateKeeper (Has (srv_acl s3))) (pn_ID node)"
proof -
  have "static s1 = static s" "static s2 = static s" using routes_static assms(6,7) by metis+
  then have "auth_inv D s1" "auth_inv D s2" and key: "srv_magicKey s1 = srv_magicKey s" "srv_magicKey s2 = srv_magicKey s"
    using reach_auth [OF assms(1)] by (auto simp: auth_inv_def static_def)
  then have "DoAuth (srv_auth s1) now hdr = (Some p, StatusOK)" "DoAuth (srv_auth s2) now hdr = (Some p, StatusOK)" for now
    using DoAuth_session assms(2,3) by metis+
  moreover from this have "s2 = acl_Add inp' (pn_ID node) s1" using route_authorize assms(4,7) by metis
  moreover from calculation have "Has (srv_acl s2) (pn_ID node)" by (simp add: Has_def)
  ultimately have "s3 = snd (register_locked D inp'' node s2)" using route_register assms(4,5,8) by metis
  then show ?thesis
    using \<open>Has (srv_acl s2) (pn_ID node)\<close>
    by (simp add: register_locked_frame [simplified] acl.gate_admits Has_def)
qed

theorem session_survives_kick_witness:
  "let kick = ex_request\<lparr>rq_method := ''DELETE'', rq_path := v1 [''admin'', ''peer'', ''n1'']\<rparr>;
       hdr = ''Bearer '' @ ex_session;
       s1 = snd (routes ex_deps ex_inputs kick ex_joined);
       s2 = snd (routes ex_deps ex_inputs (node_request (v1 [''authorize'']) hdr (ex_node ''n1'')) s1);
       s3 = snd (routes ex_deps ex_inputs (node_request (v1 [''nodes'']) hdr (ex_node ''n1'')) s2)
   in srv_nodes s1 ''n1'' = None \<and> \<not> Has (srv_acl s1) ''n1'' \<and>
      srv_nodes s3 ''n1'' \<noteq> None \<and> gate_inbound (NewGateKeeper (Has (srv_acl s3))) ''n1''"
proof -
  let ?kick = "ex_request\<lparr>rq_method := ''DELETE'', rq_path := v1 [''admin'', ''peer'', ''n1'']\<rparr>"
  have "bearer_token (''Bearer '' @ ex_session) = Some ex_session" by code_simp
  moreover have "\<forall>now. authenticateSessionToken ex_deps (srv_magicKey ex_joined) now ex_session =
      Inr \<lparr>prop_User = ''n1'', prop_Group = ''mesh''\<rparr>"
    using ex_session_accepted by simp
  moreover have "pn_ID (ex_node ''n1'') = ''n1'' \<and> pn_Name (ex_node ''n1'') \<noteq> []" by code_simp
  moreover have "srv_nodes (snd (routes ex_deps ex_inputs ?kick ex_joined)) ''n1'' = None \<and>
      \<not> Has (srv_acl (snd (routes ex_deps ex_inputs ?kick ex_joined))) ''n1''" by code_simp
  ultimately show ?thesis
    using session_survives_kick [OF ex_joined_reach, of "''Bearer '' @ ex_session" ex_session
        "\<lparr>prop_User = ''n1'', prop_Group = ''mesh''\<rparr>" "ex_node ''n1''" _ ex_inputs ?kick]
    by (simp add: Let_def)
qed

end
