(* ===== verification/AdminLogin.thy ===== *)
theory AdminLogin
  imports AdminSecurity
begin

text \<open>
  The life of an invitation and of the credentials it gives: what the handlers of
  \<open>pkg/admin/api_admin.go\<close> and \<open>apiNodeLogin\<close> leave in the store, over any backend that satisfies
  \<open>badger_ok\<close>. \<open>stored\<close> is the map from keys to documents the server's store holds.
\<close>

section \<open>What the handlers do to the store\<close>

abbreviation stored :: "('db, 'd) deps \<Rightarrow> 'db Server \<Rightarrow> (string \<rightharpoonup> 'd)" where
  "stored D s \<equiv> kvmap (dep_badger D) (srv_kv s)"

abbreviation node_record :: "inputs \<Rightarrow> inviteSecret \<Rightarrow> Node \<Rightarrow> string \<Rightarrow> meshNodeRecord" where
  "node_record inp invite node hash \<equiv>
     \<lparr>mn_NodeID = pn_ID node, mn_Name = pn_Name node, mn_AddedAt = in_now2 inp,
      mn_InvitedAs = iv_InviteAs invite, mn_PasswordHash = hash\<rparr>"

lemma keys_apart: "meshNodeKVKey m i \<noteq> inviteKVKey m' i'"
  by (simp add: meshNodeKVKey_def inviteKVKey_def)

lemma inviteKVKey_inj: "inviteKVKey m i = inviteKVKey m i' \<longleftrightarrow> i = i'"
  by (simp add: inviteKVKey_def)

lemma redeem_commit_ok:
  assumes "badger_ok (dep_badger D)" and "redeem_commit D inp (key, invite, node) s = (Inr r, s')"
  obtains secret hash d where "newNodeLoginSecret inp = Inr secret" and "hashLoginSecret D inp secret = Inr hash"
    and "r = ReplyRedeem \<lparr>ri_MeshId = iv_MeshId invite, ri_MeshSecret = secret, ri_MeshServer = srv_advertiseURL s\<rparr>"
    and "Marshal (dep_node D) (node_record inp invite node hash) = Inr d"
    and "stored D s' = (let m = (stored D s)(meshNodeKVKey (iv_MeshId invite) (pn_ID node) \<mapsto> d)
                        in if iv_OneTime invite then m(key := None) else m)"
proof -
  obtain secret hash kv where ok: "newNodeLoginSecret inp = Inr secret" "hashLoginSecret D inp secret = Inr hash"
    "Store_Put (dep_badger D) (dep_node D) (srv_kv (acl_Add inp (pn_ID node) s))
       (meshNodeKVKey (iv_MeshId invite) (pn_ID node)) (node_record inp invite node hash) = Inr kv"
    using assms(2) by (simp add: redeem_commit_def Let_def split: sum.splits)
  obtain d where d: "Marshal (dep_node D) (node_record inp invite node hash) = Inr d"
    "kvmap (dep_badger D) kv = (stored D s)(meshNodeKVKey (iv_MeshId invite) (pn_ID node) \<mapsto> d)"
    using kv.put_law [OF assms(1) ok(3)] by auto
  have "r = ReplyRedeem \<lparr>ri_MeshId = iv_MeshId invite, ri_MeshSecret = secret, ri_MeshServer = srv_advertiseURL s\<rparr>"
    using assms(2) ok by (auto simp: redeem_commit_def Let_def acl_Add_def split: sum.splits if_splits)
  moreover have "stored D s' = (let m = (stored D s)(meshNodeKVKey (iv_MeshId invite) (pn_ID node) \<mapsto> d)
       in if iv_OneTime invite then m(key := None) else m)"
    using assms(2) ok d(2) kv.delete_law [OF assms(1)]
    by (auto simp: redeem_commit_def Let_def split: sum.splits if_splits)
  ultimately show thesis using ok(1,2) d(1) by (intro that) auto
qed

text \<open>A lookup that succeeds found a live invite under the key of the request and changed nothing.\<close>

lemma redeem_lookup_ok:
  assumes "redeem_lookup D inp ctx s = (Inr (key, invite, node), s')"
  shows "s' = s \<and> key = inviteKVKey ''default'' (rpc_id ctx) \<and> rpc_id ctx \<noteq> [] \<and> pn_ID node \<noteq> [] \<and>
         Store_Get (dep_badger D) (dep_invite D) (srv_kv s) key = Inr invite \<and>
         (iv_Expires invite = 0 \<or> time_Unix (in_now inp) < iv_Expires invite) \<and>
         (\<exists>body. rpc_body ctx = Some body \<and> pn_ID node = pn_ID body)"
  using assms
  by (auto simp: redeem_lookup_def GetObject_def Let_def split: sum.splits if_splits option.splits)

lemma redeem_lookup_fst:
  assumes "fst (redeem_lookup D inp ctx s) = Inr f"
  shows "redeem_lookup D inp ctx s = (Inr f, s)"
proof -
  obtain key invite node where f: "f = (key, invite, node)" by (cases f)
  have "redeem_lookup D inp ctx s = (Inr (key, invite, node), snd (redeem_lookup D inp ctx s))"
    using assms f by (metis prod.collapse)
  moreover from this have "snd (redeem_lookup D inp ctx s) = s" using redeem_lookup_ok by metis
  ultimately show ?thesis using f by simp
qed

lemma redeem_ok_split:
  assumes "adminRedeemInviteLink D inp ctx s = (Inr r, s')"
  obtains key invite node where "redeem_lookup D inp ctx s = (Inr (key, invite, node), s)"
    and "redeem_commit D inp (key, invite, node) s = (Inr r, s')"
proof -
  obtain f where f: "fst (redeem_lookup D inp ctx s) = Inr f"
    using assms by (auto simp: adminRedeemInviteLink_def Let_def split: prod.splits sum.splits)
  obtain key invite node where k: "f = (key, invite, node)" by (cases f)
  with f have "redeem_lookup D inp ctx s = (Inr (key, invite, node), s)" by (simp add: redeem_lookup_fst)
  moreover from this have "redeem_commit D inp (key, invite, node) s = (Inr r, s')"
    using assms by (simp add: adminRedeemInviteLink_def)
  ultimately show thesis by (rule that)
qed

subsection \<open>Absent invites\<close>

lemma delete_ignore_stored:
  assumes "badger_ok (dep_badger D)" and "stored D s k = None"
  shows "stored D (delete_ignore D k' s) k = None"
  using assms(2) kv.delete_law [OF assms(1)]
  by (auto simp: delete_ignore_def split: sum.splits)

lemma fold_delete_stored:
  assumes "badger_ok (dep_badger D)"
  shows "stored D s k = None \<Longrightarrow> stored D (fold (delete_ignore D) ks s) k = None"
  by (induction ks arbitrary: s) (simp_all add: delete_ignore_stored [OF assms])

lemma delete_keys_stored:
  assumes "badger_ok (dep_badger D)"
  shows "stored D s k = None \<Longrightarrow> stored D (snd (delete_keys D ks s)) k = None"
  using assms
  by (induction D ks s rule: delete_keys.induct) (auto split: sum.splits dest: kv.delete_law)

lemma Put_absent:
  assumes "badger_ok B" and "Store_Put B c s k v = Inr s'" and "kvmap B s k' = None" and "k' \<noteq> k"
  shows "kvmap B s' k' = None"
  using kv.put_frame [OF assms(1,2,4)] assms(3) by simp

lemma Delete_absent:
  assumes "badger_ok B" and "Store_Delete B s k = Inr s'" and "kvmap B s k' = None"
  shows "kvmap B s' k' = None"
  using kv.delete_law [OF assms(1,2)] assms(3) by simp

lemma redeem_stored:
  assumes "badger_ok (dep_badger D)" and "stored D s (inviteKVKey m i) = None"
  shows "stored D (snd (adminRedeemInviteLink D inp ctx s)) (inviteKVKey m i) = None"
proof (cases "fst (redeem_lookup D inp ctx s)")
  case (Inl e)
  then show ?thesis
    using assms
    by (auto simp: adminRedeemInviteLink_def split_beta redeem_lookup_def Let_def delete_ignore_stored
        split: sum.splits)
next
  case (Inr f)
  obtain key invite node where f: "f = (key, invite, node)" by (cases f)
  have "snd (redeem_lookup D inp ctx s) = s" using redeem_lookup_fst [OF Inr] by simp
  moreover have "stored D (snd (redeem_commit D inp (key, invite, node) s)) (inviteKVKey m i) = None"
    using assms(2)
    by (auto simp: redeem_commit_def Let_def split: sum.splits
        dest: Put_absent [OF assms(1) _ assms(2) keys_apart [symmetric]] Delete_absent [OF assms(1)])
  ultimately show ?thesis using Inr f by (simp add: adminRedeemInviteLink_def split_beta)
qed

lemma create_stored:
  assumes "badger_ok (dep_badger D)" and "stored D s (inviteKVKey ''default'' i) = None"
    and "\<forall>u. in_uuid inp = Inr u \<longrightarrow> invitePublicID D u \<noteq> i"
  shows "stored D (snd (adminCreateInviteLink D inp ctx s)) (inviteKVKey ''default'' i) = None"
  using assms
  by (auto simp: adminCreateInviteLink_def newInviteID_def Let_def inviteKVKey_inj split: sum.splits
      intro: Put_absent)

text \<open>An invite that is gone stays gone, unless a later invite is created with the same id.\<close>

lemma routes_absent:
  assumes "badger_ok (dep_badger D)" and "stored D s (inviteKVKey ''default'' i) = None"
    and "\<forall>u. in_uuid inp = Inr u \<longrightarrow> invitePublicID D u \<noteq> i"
  shows "stored D (snd (routes D inp rq s)) (inviteKVKey ''default'' i) = None"
proof (rule routes_keeps [where P = "\<lambda>t. stored D t (inviteKVKey ''default'' i) = None"])
  show "stored D (snd (adminCreateInviteLink D inp ctx s)) (inviteKVKey ''default'' i) = None" for ctx
    using assms by (rule create_stored)
  show "stored D (snd (adminRedeemInviteLink D inp ctx s)) (inviteKVKey ''default'' i) = None" for ctx
    using assms(1,2) by (rule redeem_stored)
  show "stored D (snd (adminListInviteLinks D inp ctx s)) (inviteKVKey ''default'' i) = None" for ctx :: "unit JsonRPC"
    using assms by (auto simp: adminListInviteLinks_def fold_delete_stored split: sum.splits)
  show "stored D (snd (adminDeleteInviteLink D ctx s)) (inviteKVKey ''default'' i) = None" for ctx :: "unit JsonRPC"
    using assms by (auto simp: adminDeleteInviteLink_def Let_def split: sum.splits intro: Delete_absent)
  show "stored D (snd (adminDeleteNode D inp ctx s)) (inviteKVKey ''default'' i) = None" for ctx :: "unit JsonRPC"
    using assms
    by (simp add: adminDeleteNode_def Let_def split_beta drop_registration_def delete_keys_stored split: sum.splits)
qed (use assms in \<open>simp_all add: node_api_defs adminListNodes_def register_locked_def updateNode_def Let_def
       split_beta split: sum.splits option.splits\<close>)

inductive runs :: "('db, 'd) deps \<Rightarrow> string \<Rightarrow> 'db Server \<Rightarrow> 'db Server \<Rightarrow> bool" for D i where
  none: "runs D i s s"
| more: "runs D i s t \<Longrightarrow> \<forall>u. in_uuid inp = Inr u \<longrightarrow> invitePublicID D u \<noteq> i \<Longrightarrow>
         runs D i s (snd (routes D inp rq t))"

lemma runs_absent:
  assumes "runs D i s t" and "badger_ok (dep_badger D)" and "stored D s (inviteKVKey ''default'' i) = None"
  shows "stored D t (inviteKVKey ''default'' i) = None"
  using assms by (induction rule: runs.induct) (auto intro: routes_absent)

lemma redeem_absent:
  assumes "badger_ok (dep_badger D)" and "stored D s (inviteKVKey ''default'' (rpc_id ctx)) = None"
  shows "\<exists>e. adminRedeemInviteLink D inp ctx s = (Inl e, s)"
  using kv.get_missing [OF assms, of "dep_invite D"]
  by (auto simp: adminRedeemInviteLink_def redeem_lookup_def Let_def)

text \<open>
  What a healthy environment gives: reads of stored keys and writes succeed, and bcrypt, which
  takes passwords up to 72 bytes, produces hashes it accepts.
\<close>

definition available :: "('db, 'd) deps \<Rightarrow> bool" where
  "available D \<longleftrightarrow>
     badger_ok (dep_badger D) \<and>
     (\<forall>db k d. \<exists>db'. txn_Set (dep_badger D) db k d = Inr db') \<and>
     (\<forall>db k. \<exists>db'. txn_Delete (dep_badger D) db k = Inr db') \<and>
     (\<forall>db k d. map_of (db_items (dep_badger D) db) k = Some d \<longrightarrow> txn_Get (dep_badger D) db k = Inr d) \<and>
     (\<forall>salt p. length p \<le> 72 \<longrightarrow>
        (\<exists>h. dep_bcrypt_Generate D salt p = Inr h \<and> h \<noteq> [] \<and> dep_bcrypt_Compare D h p))"

lemma available_bcrypt:
  assumes "available D" and "length p \<le> 72" and "dep_bcrypt_Generate D salt p = Inr h"
  shows "h \<noteq> [] \<and> dep_bcrypt_Compare D h p"
proof -
  obtain h' where "dep_bcrypt_Generate D salt p = Inr h'" "h' \<noteq> []" "dep_bcrypt_Compare D h' p"
    using assms(1,2) unfolding available_def by blast
  then show ?thesis using assms(3) by simp
qed

section \<open>An example\<close>

text \<open>A server that has issued a one-time invite, and one of its nodes redeeming it.\<close>

definition ex_invite_request :: http_request where
  "ex_invite_request = ex_request\<lparr>rq_path := v1 [''admin'', ''invite''],
     rq_invite := Some \<lparr>ci_Name = ''n'', ci_LifetimeSec = 60, ci_OneTime = True, ci_MeshId = ''default''\<rparr>\<rparr>"

definition ex_invited :: "(string \<times> doc) list Server" where
  "ex_invited = snd (routes ex_deps ex_inputs ex_invite_request ex_server)"

definition ex_redeem :: "string \<Rightarrow> Node JsonRPC" where
  "ex_redeem i = \<lparr>rpc_user = None, rpc_id = ''75'', rpc_body = Some (ex_node i)\<rparr>"

definition ex_secret :: inviteSecret where
  "ex_secret = \<lparr>iv_UUID = ''u'', iv_MeshId = ''default'', iv_OneTime = True, iv_Expires = 1060, iv_InviteAs = ''n''\<rparr>"

definition ex_redeemed :: "(string \<times> doc) list Server" where
  "ex_redeemed = snd (adminRedeemInviteLink ex_deps ex_inputs (ex_redeem ''n1'') ex_invited)"

definition ex_credentials :: RedeemInviteResponse where
  "ex_credentials = \<lparr>ri_MeshId = ''default'', ri_MeshSecret = ''72'', ri_MeshServer = ''http://a''\<rparr>"

lemma ex_lookup_fst:
  "fst (redeem_lookup ex_deps ex_inputs (ex_redeem ''n1'') ex_invited) =
     Inr (inviteKVKey ''default'' ''75'', ex_secret, ex_node ''n1'')"
  "fst (redeem_lookup ex_deps ex_inputs (ex_redeem ''n2'') ex_invited) =
     Inr (inviteKVKey ''default'' ''75'', ex_secret, ex_node ''n2'')"
  by code_simp+

lemmas ex_lookup = ex_lookup_fst [THEN redeem_lookup_fst]

lemma ex_redeem_ok:
  "adminRedeemInviteLink ex_deps ex_inputs (ex_redeem ''n1'') ex_invited =
     (Inr (ReplyRedeem ex_credentials), ex_redeemed)"
proof -
  have "fst (adminRedeemInviteLink ex_deps ex_inputs (ex_redeem ''n1'') ex_invited) =
      Inr (ReplyRedeem ex_credentials)" by code_simp
  then show ?thesis unfolding ex_redeemed_def by (metis prod.collapse)
qed

lemma ex_available: "available ex_deps"
  by (simp add: available_def mem_badger_ok ex_deps_def) (simp add: mem_badger_def mem_sorted_map_of)

lemma ex_hash_kept:
  "\<forall>r d. Marshal (dep_node ex_deps) r = Inr d \<longrightarrow>
     (\<exists>r'. Unmarshal (dep_node ex_deps) d = Inr r' \<and> mn_PasswordHash r' = mn_PasswordHash r)"
  by (auto simp: ex_deps_def ex_node_codec_def)

lemma ex_nonce: "in_nonce ex_inputs = Inr ''nonce-nonce-''" "length ''nonce-nonce-'' = gcm_NonceSize"
  by (simp_all add: ex_inputs_def gcm_NonceSize_def)

lemma ex_claims_faithful: "codec_faithful (dep_claims ex_deps) \<lparr>sc_NodeID = i, sc_Expires = 0\<rparr>"
  by (simp add: codec_faithful_def ex_deps_def ex_claims_codec_def)

lemma ex_invited_reach: "reach ex_deps 1 ex_invited"
  using reach.request [OF ex_start] by (simp add: ex_invited_def)

text \<open>The same redemption as a request.\<close>

definition ex_member :: "(string \<times> doc) list Server" where
  "ex_member = snd (routes ex_deps ex_inputs
     (ex_request\<lparr>rq_path := v1 [''redeem'', ''75''], rq_redeem := Some (ex_node ''n1'')\<rparr>) ex_invited)"

lemma ex_member_reach: "reach ex_deps (Suc 1) ex_member"
  unfolding ex_member_def by (rule reach.request [OF ex_invited_reach])

lemma ex_member_store: "srv_kv ex_member = srv_kv ex_redeemed"
  by (simp add: ex_member_def ex_redeemed_def routes_def method_is_def id_under_def ex_request_def handle_def
      split_beta ex_redeem_def Let_def)

section \<open>Properties\<close>

text \<open>
  C6. A one-time invite is redeemed at most once. After a redemption that succeeded, and whatever
  requests follow it (none of them creating an invite with the same id), redeeming it again
  fails and changes nothing.
\<close>

theorem one_time_invite_redeemed_once:
  assumes "badger_ok (dep_badger D)"
    and "Store_Get (dep_badger D) (dep_invite D) (srv_kv s) (inviteKVKey ''default'' (rpc_id ctx)) = Inr invite"
    and "iv_OneTime invite" and "adminRedeemInviteLink D inp ctx s = (Inr r, s1)"
    and "runs D (rpc_id ctx) s1 s2" and "rpc_id ctx' = rpc_id ctx"
  shows "\<exists>e. adminRedeemInviteLink D inp' ctx' s2 = (Inl e, s2)"
proof -
  obtain key invite' node where l: "redeem_lookup D inp ctx s = (Inr (key, invite', node), s)"
    and c: "redeem_commit D inp (key, invite', node) s = (Inr r, s1)"
    using redeem_ok_split [OF assms(4)] by blast
  have "key = inviteKVKey ''default'' (rpc_id ctx)" "iv_OneTime invite'"
    using redeem_lookup_ok [OF l] assms(2,3) by auto
  then have "stored D s1 (inviteKVKey ''default'' (rpc_id ctx)) = None"
    using redeem_commit_ok [OF assms(1) c] by (metis fun_upd_same)
  then have "stored D s2 (inviteKVKey ''default'' (rpc_id ctx')) = None"
    using runs_absent [OF assms(5,1)] assms(6) by simp
  then show ?thesis by (rule redeem_absent [OF assms(1)])
qed

theorem one_time_invite_redeemed_once_witness:
  "\<exists>e. adminRedeemInviteLink ex_deps ex_inputs (ex_redeem ''n2'')
          (snd (routes ex_deps (ex_inputs\<lparr>in_uuid := Inr ''v''\<rparr>) ex_invite_request ex_redeemed)) =
        (Inl e, snd (routes ex_deps (ex_inputs\<lparr>in_uuid := Inr ''v''\<rparr>) ex_invite_request ex_redeemed))"
proof -
  let ?s = "snd (routes ex_deps (ex_inputs\<lparr>in_uuid := Inr ''v''\<rparr>) ex_invite_request ex_redeemed)"
  have "invitePublicID ex_deps ''v'' \<noteq> ''75''" by code_simp
  then have run: "runs ex_deps (rpc_id (ex_redeem ''n1'')) ex_redeemed ?s"
    by (intro runs.more runs.none) (simp add: ex_redeem_def)
  have "Store_Get (dep_badger ex_deps) (dep_invite ex_deps) (srv_kv ex_invited)
      (inviteKVKey ''default'' (rpc_id (ex_redeem ''n1''))) = Inr ex_secret" by code_simp
  moreover have "iv_OneTime ex_secret" by (simp add: ex_secret_def)
  moreover have "rpc_id (ex_redeem ''n2'') = rpc_id (ex_redeem ''n1'')" by (simp add: ex_redeem_def)
  ultimately show ?thesis
    using one_time_invite_redeemed_once [OF ex_badger_ok _ _ ex_redeem_ok run] by blast
qed

lemma redeem_commit_available:
  assumes "available D" and "in_rand inp = Inr rnd" and "store_db (srv_kv s) \<noteq> None"
    and "\<forall>hash. \<exists>d. Marshal (dep_node D) (node_record inp invite node hash) = Inr d"
  shows "\<exists>s'. redeem_commit D inp (key, invite, node) s =
           (Inr (ReplyRedeem \<lparr>ri_MeshId = iv_MeshId invite, ri_MeshSecret = hex_EncodeToString (take 32 rnd),
                              ri_MeshServer = srv_advertiseURL s\<rparr>), s') \<and> store_db (srv_kv s') \<noteq> None"
proof -
  have len: "length (hex_EncodeToString (take 32 rnd)) \<le> 72" by simp
  obtain hash where h: "dep_bcrypt_Generate D (in_salt inp) (hex_EncodeToString (take 32 rnd)) = Inr hash"
    using assms(1) len unfolding available_def by blast
  obtain d where d: "Marshal (dep_node D) (node_record inp invite node hash) = Inr d"
    using assms(4) by auto
  obtain db where db: "store_db (srv_kv s) = Some db" using assms(3) by auto
  obtain db1 where db1: "txn_Set (dep_badger D) db (meshNodeKVKey (iv_MeshId invite) (pn_ID node)) d = Inr db1"
    using assms(1) unfolding available_def by blast
  obtain db2 where "txn_Delete (dep_badger D) db1 key = Inr db2"
    using assms(1) unfolding available_def by blast
  with h d db db1 show ?thesis
    by (simp add: redeem_commit_def newNodeLoginSecret_def hashLoginSecret_def assms(2) Store_Put_def
        Store_Delete_def Let_def acl_Add_def)
qed

lemma lookup_open: "redeem_lookup D inp ctx s = (Inr f, s') \<Longrightarrow> store_db (srv_kv s) \<noteq> None"
  by (cases f) (auto dest!: redeem_lookup_ok simp: Store_Get_def split: option.splits)

lemma redeem_commit_admits: "al_allow (srv_acl (snd (redeem_commit D inp (key, invite, node) s))) =
    insert (pn_ID node) (al_allow (srv_acl s))"
  using membershipD(2) [OF redeem_commit_frame(1) [of D inp key invite node s]] by simp

text \<open>
  C25. The check and the consumption of a one-time invite are separate transactions. Two
  concurrent redemptions that both look the invite up before either commits both succeed, on any
  backend that is available: both nodes are admitted and both get a login secret.
\<close>

theorem one_time_invite_race:
  assumes "available D" and "in_rand inp1 = Inr rnd1" and "in_rand inp2 = Inr rnd2"
    and "\<forall>r. \<exists>d. Marshal (dep_node D) r = Inr d"
    and "redeem_lookup D inp1 ctx1 s = (Inr (key, invite, node1), s)" and "iv_OneTime invite"
    and "redeem_lookup D inp2 ctx2 s = (Inr (key, invite, node2), s)"
  shows "\<exists>r1 s1 r2 s2. redeem_commit D inp1 (key, invite, node1) s = (Inr r1, s1) \<and>
           redeem_commit D inp2 (key, invite, node2) s1 = (Inr r2, s2) \<and>
           Has (srv_acl s2) (pn_ID node1) \<and> Has (srv_acl s2) (pn_ID node2)"
proof -
  obtain r1 s1 where 1: "redeem_commit D inp1 (key, invite, node1) s = (Inr r1, s1)" "store_db (srv_kv s1) \<noteq> None"
    using redeem_commit_available [OF assms(1,2) lookup_open [OF assms(5)]] assms(4) by metis
  obtain r2 s2 where 2: "redeem_commit D inp2 (key, invite, node2) s1 = (Inr r2, s2)"
    using redeem_commit_available [OF assms(1,3) 1(2)] assms(4) by metis
  have "Has (srv_acl s2) (pn_ID node1)" "Has (srv_acl s2) (pn_ID node2)"
    using redeem_commit_admits [of D inp1 key invite node1 s] redeem_commit_admits [of D inp2 key invite node2 s1] 1 2
    by (simp_all add: Has_def)
  with 1 2 show ?thesis by blast
qed

theorem one_time_invite_race_witness:
  "\<exists>r1 s1 r2 s2.
     redeem_commit ex_deps ex_inputs (inviteKVKey ''default'' ''75'', ex_secret, ex_node ''n1'') ex_invited = (Inr r1, s1) \<and>
     redeem_commit ex_deps ex_inputs (inviteKVKey ''default'' ''75'', ex_secret, ex_node ''n2'') s1 = (Inr r2, s2) \<and>
     Has (srv_acl s2) (pn_ID (ex_node ''n1'')) \<and> Has (srv_acl s2) (pn_ID (ex_node ''n2''))"
proof -
  have "in_rand ex_inputs = Inr ''r''" by (simp add: ex_inputs_def)
  moreover have "\<forall>r. \<exists>d. Marshal (dep_node ex_deps) r = Inr d" by (simp add: ex_deps_def ex_node_codec_def)
  moreover have "iv_OneTime ex_secret" by (simp add: ex_secret_def)
  ultimately show ?thesis using one_time_invite_race [OF ex_available _ _ _ ex_lookup(1) _ ex_lookup(2)] by blast
qed

lemma session_issued:
  assumes "gcm_ok (dep_gcm D)" and "in_nonce inp = Inr nonce" and "length nonce = gcm_NonceSize"
    and "length (srv_magicKey s) = keySize" and "i \<noteq> []"
    and "codec_faithful (dep_claims D) \<lparr>sc_NodeID = i, sc_Expires = 0\<rparr>"
  shows "\<exists>token. issueSessionToken D inp s i 0 = Inr (token, 0) \<and>
           (\<forall>now. authenticateSessionToken D (srv_magicKey s) now token = Inr \<lparr>prop_User = i, prop_Group = ''mesh''\<rparr>)"
proof -
  let ?c = "\<lparr>sc_NodeID = i, sc_Expires = 0\<rparr>"
  obtain raw where raw: "MagicLink_Encrypt (dep_gcm D) (dep_claims D) (Inr nonce) (srv_magicKey s) ?c = Inr raw"
    using assms(4,6)
    by (auto simp: MagicLink_Encrypt_def Encrypt_def aes_NewCipher_def keySize_def codec_faithful_def)
  then have "MagicLink_Decrypt (dep_gcm D) (dep_claims D) (srv_magicKey s) raw = Inr ?c"
    by (rule MagicLink_roundtrip [OF assms(1,3,6)])
  with raw assms(2,5) show ?thesis
    by (simp add: issueSessionToken_def authenticateSessionToken_def go_strings)
qed

lemma Get_available:
  assumes "available D" and "stored D s k = Some d"
  shows "Store_Get (dep_badger D) c (srv_kv s) k = Unmarshal c d"
  using assms by (auto simp: available_def kvmap_def Store_Get_def split: option.splits)

lemma login_ok:
  assumes "available D" and "nl_NodeID req \<noteq> []" and "nl_MeshId req \<noteq> []" and "nl_MeshSecret req \<noteq> []"
    and "stored D s (meshNodeKVKey (nl_MeshId req) (nl_NodeID req)) = Some d" and "Unmarshal (dep_node D) d = Inr r"
    and "mn_PasswordHash r \<noteq> []" and "dep_bcrypt_Compare D (mn_PasswordHash r) (nl_MeshSecret req)"
    and "issueSessionToken D inp s (nl_NodeID req) 0 = Inr (token, x)"
  shows "apiNodeLogin D inp \<lparr>rpc_user = u, rpc_id = i, rpc_body = Some req\<rparr> s =
           (Inr (ReplyLogin \<lparr>nr_Token = token, nr_NodeID = nl_NodeID req, nr_Expires = x\<rparr>), s)"
  using assms by (simp add: apiNodeLogin_def GetObject_def Get_available)

text \<open>A redemption leaves a record whose hash the returned secret matches.\<close>

lemma redeemed_record:
  assumes "available D" and "adminRedeemInviteLink D inp ctx s = (Inr (ReplyRedeem resp), s1)"
    and "rpc_body ctx = Some node"
  obtains r d where "stored D s1 (meshNodeKVKey (ri_MeshId resp) (pn_ID node)) = Some d"
    and "Marshal (dep_node D) r = Inr d" and "mn_PasswordHash r \<noteq> []"
    and "dep_bcrypt_Compare D (mn_PasswordHash r) (ri_MeshSecret resp)" and "pn_ID node \<noteq> []"
proof -
  have ok: "badger_ok (dep_badger D)" using assms(1) by (simp add: available_def)
  obtain key invite node' where l: "redeem_lookup D inp ctx s = (Inr (key, invite, node'), s)"
    and c: "redeem_commit D inp (key, invite, node') s = (Inr (ReplyRedeem resp), s1)"
    using redeem_ok_split [OF assms(2)] by blast
  have pid: "pn_ID node' = pn_ID node" "pn_ID node \<noteq> []" and key: "key = inviteKVKey ''default'' (rpc_id ctx)"
    using redeem_lookup_ok [OF l] assms(3) by auto
  obtain secret hash d where s: "newNodeLoginSecret inp = Inr secret" "hashLoginSecret D inp secret = Inr hash"
    "ReplyRedeem resp = ReplyRedeem \<lparr>ri_MeshId = iv_MeshId invite, ri_MeshSecret = secret, ri_MeshServer = srv_advertiseURL s\<rparr>"
    "Marshal (dep_node D) (node_record inp invite node' hash) = Inr d"
    "stored D s1 = (let m = (stored D s)(meshNodeKVKey (iv_MeshId invite) (pn_ID node') \<mapsto> d)
                    in if iv_OneTime invite then m(key := None) else m)"
    by (rule redeem_commit_ok [OF ok c])
  obtain rnd where "secret = hex_EncodeToString (take 32 rnd)"
    using s(1) by (auto simp: newNodeLoginSecret_def split: sum.splits)
  then have "length secret \<le> 72" by simp
  then have "hash \<noteq> []" "dep_bcrypt_Compare D hash secret"
    using available_bcrypt [OF assms(1)] s(2) by (auto simp: hashLoginSecret_def split: sum.splits)
  moreover have "stored D s1 (meshNodeKVKey (ri_MeshId resp) (pn_ID node)) = Some d"
    using s(3,5) pid key keys_apart by (auto simp: Let_def)
  ultimately show thesis using s(3,4) pid(2) by (intro that) auto
qed

text \<open>
  C8. Redeem, then log in. When a redemption has succeeded, the node that presents the mesh id and
  the secret it was given, at any later state that still holds its record, gets a session token
  without expiry; the server accepts that token at any time as the user with the node's id.
\<close>

theorem redeem_login_roundtrip:
  assumes "available D" and "gcm_ok (dep_gcm D)" and "reach D n s'"
    and "adminRedeemInviteLink D inp ctx s = (Inr (ReplyRedeem resp), s1)"
    and "rpc_body ctx = Some node" and "ri_MeshId resp \<noteq> []" and "ri_MeshSecret resp \<noteq> []"
    and "\<forall>r d. Marshal (dep_node D) r = Inr d \<longrightarrow>
           (\<exists>r'. Unmarshal (dep_node D) d = Inr r' \<and> mn_PasswordHash r' = mn_PasswordHash r)"
    and "stored D s' (meshNodeKVKey (ri_MeshId resp) (pn_ID node)) =
         stored D s1 (meshNodeKVKey (ri_MeshId resp) (pn_ID node))"
    and "in_nonce inp' = Inr nonce" and "length nonce = gcm_NonceSize" and "length (srv_magicKey s') = keySize"
    and "codec_faithful (dep_claims D) \<lparr>sc_NodeID = pn_ID node, sc_Expires = 0\<rparr>"
    and "login = \<lparr>nl_NodeID = pn_ID node, nl_MeshId = ri_MeshId resp, nl_MeshSecret = ri_MeshSecret resp\<rparr>"
  shows "\<exists>token. apiNodeLogin D inp' \<lparr>rpc_user = None, rpc_id = [], rpc_body = Some login\<rparr> s' =
             (Inr (ReplyLogin \<lparr>nr_Token = token, nr_NodeID = pn_ID node, nr_Expires = 0\<rparr>), s') \<and>
           (\<forall>now hdr. bearer_token hdr = Some token \<longrightarrow>
              DoAuth (srv_auth s') now hdr = (Some \<lparr>prop_User = pn_ID node, prop_Group = ''mesh''\<rparr>, StatusOK))"
proof -
  obtain r d where r: "stored D s1 (meshNodeKVKey (ri_MeshId resp) (pn_ID node)) = Some d"
    "Marshal (dep_node D) r = Inr d" "mn_PasswordHash r \<noteq> []"
    "dep_bcrypt_Compare D (mn_PasswordHash r) (ri_MeshSecret resp)" "pn_ID node \<noteq> []"
    using redeemed_record [OF assms(1,4,5)] by blast
  obtain r' where r': "Unmarshal (dep_node D) d = Inr r'" "mn_PasswordHash r' = mn_PasswordHash r"
    using assms(8) r(2) by blast
  obtain token where token: "issueSessionToken D inp' s' (pn_ID node) 0 = Inr (token, 0)"
    "\<forall>now. authenticateSessionToken D (srv_magicKey s') now token = Inr \<lparr>prop_User = pn_ID node, prop_Group = ''mesh''\<rparr>"
    using session_issued [OF assms(2,10,11,12) r(5) assms(13)] by blast
  have "apiNodeLogin D inp' \<lparr>rpc_user = None, rpc_id = [], rpc_body = Some login\<rparr> s' =
      (Inr (ReplyLogin \<lparr>nr_Token = token, nr_NodeID = pn_ID node, nr_Expires = 0\<rparr>), s')"
    using login_ok [of D login s' d r' inp' token 0] assms(1,6,7,9,14) r r' token(1) by simp
  moreover have "DoAuth (srv_auth s') now hdr = (Some \<lparr>prop_User = pn_ID node, prop_Group = ''mesh''\<rparr>, StatusOK)"
    if "bearer_token hdr = Some token" for now hdr
    using DoAuth_session [OF reach_auth [OF assms(3)] that] token(2) by blast
  ultimately show ?thesis by blast
qed

theorem redeem_login_roundtrip_witness:
  "\<exists>token. apiNodeLogin ex_deps ex_inputs \<lparr>rpc_user = None, rpc_id = [],
       rpc_body = Some \<lparr>nl_NodeID = ''n1'', nl_MeshId = ''default'', nl_MeshSecret = ''72''\<rparr>\<rparr> ex_member =
     (Inr (ReplyLogin \<lparr>nr_Token = token, nr_NodeID = ''n1'', nr_Expires = 0\<rparr>), ex_member) \<and>
     {hdr. bearer_token hdr = Some token} \<subseteq>
       {hdr. DoAuth (srv_auth ex_member) 5 hdr = (Some \<lparr>prop_User = ''n1'', prop_Group = ''mesh''\<rparr>, StatusOK)}"
proof -
  have n: "pn_ID (ex_node ''n1'') = ''n1''" by code_simp
  have "rpc_body (ex_redeem ''n1'') = Some (ex_node ''n1'')" by (simp add: ex_redeem_def)
  moreover have "ri_MeshId ex_credentials = ''default''" "ri_MeshSecret ex_credentials = ''72''"
    by (simp_all add: ex_credentials_def)
  moreover have "kvmap (dep_badger ex_deps) (srv_kv ex_member) = kvmap (dep_badger ex_deps) (srv_kv ex_redeemed)"
    unfolding ex_member_store ..
  moreover have "length (srv_magicKey ex_member) = keySize" by code_simp
  ultimately show ?thesis
    using redeem_login_roundtrip [OF ex_available ex_gcm_ok ex_member_reach ex_redeem_ok, of "ex_node ''n1''" ex_inputs
        "''nonce-nonce-''"] n ex_hash_kept ex_nonce ex_claims_faithful by auto
qed

end
