(* ===== verification/AdminRecords.thy ===== *)
theory AdminRecords
  imports AdminLogin "HOL-Library.Multiset"
begin

text \<open>
  The stored records of nodes and invites: the format of their keys, what the listings show, what
  a deletion removes, when an invite expires.
\<close>

section \<open>Keys of node records\<close>

abbreviation slash :: char where "slash \<equiv> CHR ''/''"

lemma nodes_no_slash: "slash \<notin> set ''nodes''"
  by simp

lemma parse_key:
  assumes "slash \<notin> set m" and "slash \<notin> set i" and "m \<noteq> []" and "i \<noteq> []"
  shows "parseMeshNodeKVKey (meshNodeKVKey m i) = Some (m, i)"
proof -
  have "meshNodeKVKey m i = ''/mesh/'' @ (m @ slash # ''nodes'' @ slash # i)"
    by (simp add: meshNodeKVKey_def)
  moreover have "Split slash (m @ slash # ''nodes'' @ slash # i) = [m, ''nodes'', i]"
    using assms(1,2) nodes_no_slash by (simp only: Split_sep Split_no_sep not_False_eq_True)
  ultimately show ?thesis using assms(3,4) by (simp add: parseMeshNodeKVKey_def del: append.simps)
qed

lemma parse_keyD:
  assumes "parseMeshNodeKVKey key = Some (m, i)"
  shows "key = meshNodeKVKey m i \<and> m \<noteq> [] \<and> i \<noteq> [] \<and> slash \<notin> set m \<and> slash \<notin> set i"
proof -
  let ?parts = "Split slash (TrimPrefix key ''/mesh/'')"
  have p: "prefix ''/mesh/'' key" "length ?parts = 3" "?parts ! 1 = ''nodes''"
    "m = ?parts ! 0" "i = ?parts ! 2" "m \<noteq> []" "i \<noteq> []"
    using assms by (auto simp: parseMeshNodeKVKey_def Let_def split: if_splits)
  obtain a b c where abc: "?parts = [a, b, c]"
    using p(2) by (auto simp: numeral_3_eq_3 length_Suc_conv)
  then have parts: "?parts = [m, ''nodes'', i]" using p(3-5) by simp
  then have "slash \<notin> set m" "slash \<notin> set i" using Split_pieces [of _ slash "TrimPrefix key ''/mesh/''"] by auto
  moreover have "TrimPrefix key ''/mesh/'' = m @ ''/nodes/'' @ i"
    using Join_Split [of slash "TrimPrefix key ''/mesh/''"] parts by simp
  ultimately show ?thesis
    using prefix_TrimPrefix [OF p(1)] p(6,7) by (simp add: meshNodeKVKey_def)
qed

section \<open>Collecting keys\<close>

text \<open>
  The documents that are records of nodes: stored under \<open>/mesh/\<close>, a mesh, \<open>/nodes/\<close> and a node id, where
  neither is empty or contains a slash. Such a record belongs to a node by its key or by the id inside it.
\<close>

definition is_node_key :: "string \<Rightarrow> string \<Rightarrow> string \<Rightarrow> bool" where
  "is_node_key key m i \<longleftrightarrow>
     key = meshNodeKVKey m i \<and> m \<noteq> [] \<and> i \<noteq> [] \<and> slash \<notin> set m \<and> slash \<notin> set i"

definition record_of :: "('db, 'd) deps \<Rightarrow> string \<Rightarrow> string \<Rightarrow> 'd \<Rightarrow> bool" where
  "record_of D i key data \<longleftrightarrow>
     (\<exists>m j. is_node_key key m j \<and> (j = i \<or> (\<exists>r. Unmarshal (dep_node D) data = Inr r \<and> mn_NodeID r = i)))"

lemma parse_iff: "parseMeshNodeKVKey key = Some (m, i) \<longleftrightarrow> is_node_key key m i"
  using parse_keyD parse_key unfolding is_node_key_def by blast

lemma is_node_key_unique: "is_node_key key m i \<Longrightarrow> is_node_key key m' i' \<Longrightarrow> m' = m \<and> i' = i"
  unfolding parse_iff [symmetric] by simp

lemma record_of_parse:
  "record_of D i key data \<longleftrightarrow>
     (case parseMeshNodeKVKey key of
        None \<Rightarrow> False
      | Some (m, j) \<Rightarrow> j = i \<or> (case Unmarshal (dep_node D) data of Inl e \<Rightarrow> False | Inr r \<Rightarrow> mn_NodeID r = i))"
  unfolding record_of_def parse_iff [symmetric] by (auto split: option.splits sum.splits)

lemma node_key_ok:
  "node_key D i k d keys = Inr keys' \<Longrightarrow> keys' = keys @ (if record_of D i k d then [k] else [])"
  by (auto simp: node_key_def record_of_parse split: option.splits sum.splits if_splits)

lemma fold_node_key:
  "fold_items (node_key D i) items keys = Inr keys' \<Longrightarrow>
     keys' = keys @ map fst (filter (\<lambda>(k, d). record_of D i k d) items)"
proof (induction items arbitrary: keys)
  case (Cons kd items)
  obtain k d where kd: "kd = (k, d)" by (cases kd)
  obtain keys1 where k1: "node_key D i k d keys = Inr keys1" "fold_items (node_key D i) items keys1 = Inr keys'"
    using Cons.prems kd by (auto split: sum.splits)
  show ?case using Cons.IH [OF k1(2)] node_key_ok [OF k1(1)] kd by simp
qed simp

lemma meshKeysForNode_set:
  assumes "badger_ok (dep_badger D)" and "meshKeysForNode D s i = Inr keys"
  shows "set keys = {k. \<exists>d. stored D s k = Some d \<and> record_of D i k d}"
proof -
  have "store_db (srv_kv s) \<noteq> None" using assms(2) by (auto simp: meshKeysForNode_def dest: ForEach_open)
  then have "keys = map fst (filter (\<lambda>(k, d). record_of D i k d) (with_prefix ''/mesh/'' (kvitems (dep_badger D) (srv_kv s))))"
    using assms fold_node_key [of D i _ "[]" keys] by (simp add: meshKeysForNode_def ForEach_items del: filter_filter)
  moreover have "prefix ''/mesh/'' k" if "record_of D i k d" for k d
    using that by (auto simp: record_of_parse parseMeshNodeKVKey_def split: if_splits option.splits)
  ultimately show ?thesis
    using items_map [OF assms(1), of _ _ "srv_kv s"] by (force simp: image_iff)
qed

lemma delete_keys_ok:
  assumes "badger_ok (dep_badger D)"
  shows "delete_keys D keys s = (Inr u, s') \<Longrightarrow> stored D s' = stored D s |` (- set keys)"
  using assms
proof (induction D keys s rule: delete_keys.induct)
  case (2 D key keys s)
  then obtain kv where kv: "Store_Delete (dep_badger D) (srv_kv s) key = Inr kv"
    by (auto split: sum.splits)
  with 2 have "stored D s' = kvmap (dep_badger D) kv |` (- set keys)" by simp
  also have "kvmap (dep_badger D) kv = (stored D s)(key := None)" using kv.delete_law [OF 2(3) kv] .
  finally show ?case by (auto simp: restrict_map_def fun_eq_iff)
qed (simp add: restrict_map_def)

lemma delete_keys_frame2:
  "srv_nodes (snd (delete_keys D keys s)) = srv_nodes s" "srv_acl (snd (delete_keys D keys s)) = srv_acl s"
  by (rule membershipD [OF delete_keys_frame(1)])+

text \<open>The steps of a deletion that succeeds.\<close>

lemma delete_node_ok:
  assumes "adminDeleteNode D inp ctx s = (Inr r, s')"
  obtains keys u where "meshKeysForNode D s (rpc_id ctx) = Inr keys"
    and "delete_keys D keys (acl_Remove inp (rpc_id ctx) (drop_registration inp (rpc_id ctx) s)) = (Inr u, s')"
  using assms by (auto simp: adminDeleteNode_def Let_def split_beta prod_eq_iff split: sum.splits if_splits)

section \<open>Listing\<close>

text \<open>The entry that the listing shows for a record stored for the mesh \<open>m\<close> and the node \<open>i\<close>.\<close>

definition node_entry :: "string \<Rightarrow> string \<Rightarrow> meshNodeRecord \<Rightarrow> AdminNode" where
  "node_entry m i r =
     \<lparr>an_ID = (if mn_NodeID r = [] then i else mn_NodeID r), an_Name = mn_Name r, an_MeshId = m,
      an_AddedAt = mn_AddedAt r, an_InvitedAs = mn_InvitedAs r\<rparr>"

lemma list_node_record:
  assumes "is_node_key key m i" and "Unmarshal (dep_node D) data = Inr r"
  shows "list_node D key data ns = Inr (ns @ [node_entry m i r])"
  using assms by (simp add: list_node_def parse_iff [symmetric] node_entry_def Let_def)

lemma fold_list_node:
  assumes "\<forall>(k, d) \<in> set items. \<exists>m i r. is_node_key k m i \<and> Unmarshal (dep_node D) d = Inr r \<and> f k = node_entry m i r"
  shows "fold_items (list_node D) items ns = Inr (ns @ map (f \<circ> fst) items)"
  using assms
proof (induction items arbitrary: ns)
  case (Cons kd items)
  obtain k d where kd: "kd = (k, d)" by (cases kd)
  then obtain m i r where "is_node_key k m i" "Unmarshal (dep_node D) d = Inr r" "f k = node_entry m i r"
    using Cons.prems by auto
  then show ?case using Cons kd by (simp add: list_node_record)
qed simp

section \<open>Properties\<close>

text \<open>
  The keys of node records are parsed exactly. \<open>parseMeshNodeKVKey\<close> accepts a key and returns
  the mesh and the node id if and only if \<open>meshNodeKVKey\<close> builds the key from them and neither is
  empty or contains a slash.
\<close>

theorem mesh_key_roundtrip:
  "parseMeshNodeKVKey key = Some (m, i) \<longleftrightarrow>
     key = meshNodeKVKey m i \<and> m \<noteq> [] \<and> i \<noteq> [] \<and> slash \<notin> set m \<and> slash \<notin> set i"
proof
  assume "parseMeshNodeKVKey key = Some (m, i)"
  then show "key = meshNodeKVKey m i \<and> m \<noteq> [] \<and> i \<noteq> [] \<and> slash \<notin> set m \<and> slash \<notin> set i"
    by (rule parse_keyD)
qed (simp add: parse_key)

text \<open>
  C10. Deletion is complete and touches nothing else. When \<open>adminDeleteNode\<close> reports success, the node is
  gone from the registrations and from the allow list and every other entry of both is as it was; of the stored
  documents exactly the records of the node are gone (for an id without a slash: every record under its
  id, in any mesh); the clock has ticked exactly if the node was registered, and the keys, addresses and
  sessions of the server are unchanged.
\<close>

theorem delete_node_complete:
  assumes "badger_ok (dep_badger D)" and "adminDeleteNode D inp ctx s = (Inr r, s')"
  shows "srv_nodes s' = (srv_nodes s)(rpc_id ctx := None) \<and>
         (\<forall>j. Has (srv_acl s') j \<longleftrightarrow> Has (srv_acl s) j \<and> j \<noteq> rpc_id ctx) \<and>
         (\<forall>m. m \<noteq> [] \<and> slash \<notin> set m \<and> slash \<notin> set (rpc_id ctx) \<longrightarrow>
            stored D s' (meshNodeKVKey m (rpc_id ctx)) = None) \<and>
         (\<forall>key d. stored D s' key = Some d \<longleftrightarrow> stored D s key = Some d \<and> \<not> record_of D (rpc_id ctx) key d) \<and>
         srv_logicalTime s' = srv_logicalTime s + (if srv_nodes s (rpc_id ctx) = None then 0 else 1) \<and>
         srv_auth s' = srv_auth s \<and> srv_magicKey s' = srv_magicKey s \<and> srv_adminKey s' = srv_adminKey s \<and>
         srv_relayAddress s' = srv_relayAddress s \<and> srv_advertiseURL s' = srv_advertiseURL s \<and>
         srv_mainAddress s' = srv_mainAddress s"
proof -
  let ?i = "rpc_id ctx"
  let ?s1 = "acl_Remove inp ?i (drop_registration inp ?i s)"
  obtain keys u where k: "meshKeysForNode D s ?i = Inr keys" "delete_keys D keys ?s1 = (Inr u, s')"
    using delete_node_ok [OF assms(2)] by blast
  have "stored D ?s1 = stored D s" by (simp add: drop_registration_def)
  then have st: "stored D s' = stored D s |` (- set keys)" using delete_keys_ok [OF assms(1) k(2)] by simp
  have keys: "set keys = {k. \<exists>d. stored D s k = Some d \<and> record_of D ?i k d}"
    by (rule meshKeysForNode_set [OF assms(1) k(1)])
  have mem: "membership s' = membership ?s1" "static s' = static ?s1"
    using delete_keys_frame [of D keys ?s1] k(2) by simp_all
  have "srv_nodes ?s1 = (srv_nodes s)(?i := None)" by (auto simp: drop_registration_def)
  moreover have "Has (srv_acl ?s1) j \<longleftrightarrow> Has (srv_acl s) j \<and> j \<noteq> ?i" for j by (auto simp: drop_registration_def Has_def)
  moreover have "srv_logicalTime ?s1 = srv_logicalTime s + (if srv_nodes s ?i = None then 0 else 1)"
    by (simp add: drop_registration_def)
  moreover have "static ?s1 = static s" by (simp add: drop_registration_def acl_Remove_def static_def)
  ultimately have frame: "srv_nodes s' = (srv_nodes s)(?i := None)" "\<forall>j. Has (srv_acl s') j \<longleftrightarrow> Has (srv_acl s) j \<and> j \<noteq> ?i"
    "srv_logicalTime s' = srv_logicalTime s + (if srv_nodes s ?i = None then 0 else 1)" "static s' = static s"
    using mem membershipD [OF mem(1)] by simp_all
  have exact: "stored D s' key = Some d \<longleftrightarrow> stored D s key = Some d \<and> \<not> record_of D ?i key d" for key d
    using keys by (auto simp: st restrict_map_def)
  have "stored D s' (meshNodeKVKey m ?i) = None" if "m \<noteq> []" "slash \<notin> set m" "slash \<notin> set ?i" for m
  proof (cases "stored D s' (meshNodeKVKey m ?i)")
    case (Some d)
    have "?i \<noteq> []" using assms(2) by (auto simp: adminDeleteNode_def)
    then have "record_of D ?i (meshNodeKVKey m ?i) d" using parse_key that by (simp add: record_of_parse)
    then show ?thesis using exact Some by blast
  qed
  then show ?thesis using frame exact by (simp add: static_def)
qed

theorem delete_node_complete_witness:
  "let ctx = \<lparr>rpc_user = None, rpc_id = ''n1'', rpc_body = (None :: unit option)\<rparr>;
       s' = snd (adminDeleteNode ex_deps ex_inputs ctx ex_member)
   in stored ex_deps ex_member (meshNodeKVKey ''default'' ''n1'') \<noteq> None \<and>
      stored ex_deps s' (meshNodeKVKey ''default'' ''n1'') = None \<and> \<not> Has (srv_acl s') ''n1''"
proof -
  let ?ctx = "\<lparr>rpc_user = None, rpc_id = ''n1'', rpc_body = (None :: unit option)\<rparr>"
  have "fst (adminDeleteNode ex_deps ex_inputs ?ctx ex_member) = Inr (ReplyDeleted ''n1'')" by code_simp
  then have "adminDeleteNode ex_deps ex_inputs ?ctx ex_member =
      (Inr (ReplyDeleted ''n1''), snd (adminDeleteNode ex_deps ex_inputs ?ctx ex_member))"
    by (metis prod.collapse)
  moreover have "stored ex_deps ex_member (meshNodeKVKey ''default'' ''n1'') \<noteq> None" by code_simp
  ultimately show ?thesis
    using delete_node_complete [OF ex_badger_ok, of ex_inputs ?ctx ex_member] by (simp add: Let_def)
qed

text \<open>
  C11. The listing of nodes is complete, exact and ordered, as long as no record was stored under an id or a
  mesh with a slash: if every document below \<open>/mesh/\<close> is the record of a node and can be decoded, the listing
  succeeds, has exactly one entry per record, with the mesh of its key and the fields of the record,
  the id being the stored one or else that of the key, and is sorted by mesh, name and
  id. (A record under an id with a slash is never listed.)
\<close>

theorem list_nodes_exact:
  assumes "badger_ok (dep_badger D)" and "store_db (srv_kv s) \<noteq> None"
    and "\<forall>key d. stored D s key = Some d \<and> prefix ''/mesh/'' key \<longrightarrow>
      (\<exists>m i r. key = meshNodeKVKey m i \<and> m \<noteq> [] \<and> i \<noteq> [] \<and> slash \<notin> set m \<and> slash \<notin> set i \<and>
         Unmarshal (dep_node D) d = Inr r)"
  shows "\<exists>ns f. fst (adminListNodes D ctx s) = Inr (ReplyAdminNodes ns) \<and>
     sorted (map (\<lambda>n. (an_MeshId n, an_Name n, an_ID n)) ns) \<and>
     mset ns = image_mset f (mset_set {key. stored D s key \<noteq> None \<and> prefix ''/mesh/'' key}) \<and>
     (\<forall>m i d r. stored D s (meshNodeKVKey m i) = Some d \<and> m \<noteq> [] \<and> i \<noteq> [] \<and> slash \<notin> set m \<and> slash \<notin> set i \<and>
        Unmarshal (dep_node D) d = Inr r \<longrightarrow>
        f (meshNodeKVKey m i) =
          \<lparr>an_ID = (if mn_NodeID r = [] then i else mn_NodeID r), an_Name = mn_Name r, an_MeshId = m,
           an_AddedAt = mn_AddedAt r, an_InvitedAs = mn_InvitedAs r\<rparr>)"
proof -
  let ?items = "with_prefix ''/mesh/'' (kvitems (dep_badger D) (srv_kv s))"
  let ?keys = "{key. stored D s key \<noteq> None \<and> prefix ''/mesh/'' key}"
  define P where "P key n \<longleftrightarrow> (\<exists>m i d r. stored D s key = Some d \<and> is_node_key key m i \<and>
      Unmarshal (dep_node D) d = Inr r \<and> n = node_entry m i r)" for key n
  have "\<exists>n. P key n" if "key \<in> ?keys" for key
  proof -
    from that obtain d where "stored D s key = Some d" "prefix ''/mesh/'' key" by auto
    then show ?thesis using assms(3) unfolding is_node_key_def P_def by metis
  qed
  then have "\<exists>f. \<forall>key \<in> ?keys. P key (f key)" by (intro bchoice ballI)
  then obtain f where "\<forall>key \<in> ?keys. P key (f key)" by (rule exE)
  then have f: "\<exists>m i d r. stored D s key = Some d \<and> is_node_key key m i \<and>
      Unmarshal (dep_node D) d = Inr r \<and> f key = node_entry m i r" if "key \<in> ?keys" for key
    using that unfolding P_def by (rule bspec)
  have items: "(k, d) \<in> set ?items \<longleftrightarrow> stored D s k = Some d \<and> prefix ''/mesh/'' k" for k d
    using items_map [OF assms(1), of k d "srv_kv s"] by auto
  have "\<forall>(k, d) \<in> set ?items. \<exists>m i r. is_node_key k m i \<and> Unmarshal (dep_node D) d = Inr r \<and> f k = node_entry m i r"
    using f items by fastforce
  then have "fold_items (list_node D) ?items [] = Inr (map (f \<circ> fst) ?items)" by (simp add: fold_list_node)
  then have ns: "fst (adminListNodes D ctx s) = Inr (ReplyAdminNodes (sort_nodes (map (f \<circ> fst) ?items)))"
    by (simp add: adminListNodes_def ForEach_items [OF assms(1,2)])
  have dist: "distinct (map fst ?items)" using items_distinct [OF assms(1), of "srv_kv s"] by (simp add: distinct_map_filter)
  have keys: "set (map fst ?items) = ?keys" using items by (force simp: image_iff)
  have "mset_set ?keys = mset (map fst ?items)" using mset_set_set [OF dist] unfolding keys .
  then have "mset (sort_nodes (map (f \<circ> fst) ?items)) = image_mset f (mset_set ?keys)"
    by (simp add: sort_nodes_def multiset.map_comp)
  moreover have "f (meshNodeKVKey m i) = node_entry m i r"
    if st: "stored D s (meshNodeKVKey m i) = Some d" "is_node_key (meshNodeKVKey m i) m i" "Unmarshal (dep_node D) d = Inr r" for m i d r
  proof -
    have "prefix ''/mesh/'' (meshNodeKVKey m i)" by (simp add: meshNodeKVKey_def)
    then obtain m' i' where "is_node_key (meshNodeKVKey m i) m' i'" "f (meshNodeKVKey m i) = node_entry m' i' r"
      using f [of "meshNodeKVKey m i"] st(1,3) by auto
    then show ?thesis using is_node_key_unique [OF st(2)] by blast
  qed
  ultimately show ?thesis using ns
    by (intro exI [of _ "sort_nodes (map (f \<circ> fst) ?items)"] exI [of _ f]) (simp add: sort_nodes_def node_entry_def is_node_key_def)
qed

lemma ex_member_records:
  "list_all (\<lambda>(k, d). prefix ''/mesh/'' k \<longrightarrow> k = meshNodeKVKey ''default'' ''n1'' \<and>
     Unmarshal (dep_node ex_deps) d = Inr \<lparr>mn_NodeID = ''n1'', mn_Name = ''left'', mn_AddedAt = 1000000000000,
       mn_InvitedAs = ''n'', mn_PasswordHash = mn_PasswordHash (case Unmarshal (dep_node ex_deps) d of Inr r \<Rightarrow> r)\<rparr>)
     (kvitems (dep_badger ex_deps) (srv_kv ex_member))"
  by code_simp

theorem list_nodes_exact_witness:
  "\<exists>ns f. fst (adminListNodes ex_deps \<lparr>rpc_user = None, rpc_id = [], rpc_body = (None :: unit option)\<rparr> ex_member) =
       Inr (ReplyAdminNodes ns) \<and>
     mset ns = image_mset f (mset_set {key. stored ex_deps ex_member key \<noteq> None \<and> prefix ''/mesh/'' key}) \<and>
     f (meshNodeKVKey ''default'' ''n1'') =
       \<lparr>an_ID = ''n1'', an_Name = ''left'', an_MeshId = ''default'', an_AddedAt = 1000000000000, an_InvitedAs = ''n''\<rparr>"
proof -
  let ?ctx = "\<lparr>rpc_user = None, rpc_id = [], rpc_body = (None :: unit option)\<rparr>"
  have rec: "key = meshNodeKVKey ''default'' ''n1'' \<and> (\<exists>r. Unmarshal (dep_node ex_deps) d = Inr r \<and> mn_NodeID r = ''n1'' \<and>
      mn_Name r = ''left'' \<and> mn_AddedAt r = 1000000000000 \<and> mn_InvitedAs r = ''n'')"
    if "stored ex_deps ex_member key = Some d" "prefix ''/mesh/'' key" for key d
    using that ex_member_records items_map [OF ex_badger_ok, of key d "srv_kv ex_member"] by (auto simp: list_all_iff)
  have "stored ex_deps ex_member (meshNodeKVKey ''default'' ''n1'') \<noteq> None" by code_simp
  then obtain d where d: "stored ex_deps ex_member (meshNodeKVKey ''default'' ''n1'') = Some d" by blast
  have p: "prefix ''/mesh/'' (meshNodeKVKey ''default'' ''n1'')" by code_simp
  have open_db: "store_db (srv_kv ex_member) \<noteq> None" by code_simp
  have all: "\<forall>key d. stored ex_deps ex_member key = Some d \<and> prefix ''/mesh/'' key \<longrightarrow>
      (\<exists>m i r. key = meshNodeKVKey m i \<and> m \<noteq> [] \<and> i \<noteq> [] \<and> slash \<notin> set m \<and> slash \<notin> set i \<and>
         Unmarshal (dep_node ex_deps) d = Inr r)"
    using rec by (intro allI impI exI [of _ "''default''"] exI [of _ "''n1''"]) auto
  from list_nodes_exact [OF ex_badger_ok open_db all, of ?ctx] rec [OF d p] d
  show ?thesis by (elim exE conjE) (intro exI conjI, assumption+, auto)
qed

lemma delete_keys_frame_key:
  assumes "badger_ok (dep_badger D)"
  shows "key \<notin> set keys \<Longrightarrow> stored D (snd (delete_keys D keys s)) key = stored D s key"
  using assms
proof (induction D keys s rule: delete_keys.induct)
  case (2 D k keys s)
  then show ?case by (auto split: sum.splits dest: kv.delete_law)
qed simp

lemma parse_slash: "slash \<in> set i \<Longrightarrow> parseMeshNodeKVKey (meshNodeKVKey m i) = None"
proof (cases "parseMeshNodeKVKey (meshNodeKVKey m i)")
  case (Some p)
  assume i: "slash \<in> set i"
  obtain m' j where "p = (m', j)" by (cases p)
  then have k: "meshNodeKVKey m i = meshNodeKVKey m' j" "slash \<notin> set m'" "slash \<notin> set j" "m' \<noteq> []" "j \<noteq> []"
    using parse_keyD Some by auto
  then have "count_list (m @ ''/nodes/'' @ i) slash = count_list (m' @ ''/nodes/'' @ j) slash"
    by (simp add: meshNodeKVKey_def)
  moreover have "count_list i slash > 0" using i count_list_0_iff [of i slash] by simp
  ultimately show ?thesis using k(2,3) by (simp add: count_list_append count_notin)
qed

text \<open>
  A node id that contains a slash cannot be managed. Its record has a key the parser refuses:
  whatever \<open>adminDeleteNode\<close> is asked to delete, and whether or not it reports success, the
  record stays; the listing passes over it, while a login still finds it.
\<close>

theorem slash_id_unmanageable:
  assumes "badger_ok (dep_badger D)" and "slash \<in> set i" and "key = meshNodeKVKey m i" and "stored D s key = Some d"
  shows "stored D (snd (adminDeleteNode D inp ctx s)) key = Some d \<and> (\<forall>ns. list_node D key d ns = Inr ns)"
proof -
  have parse: "parseMeshNodeKVKey key = None" using parse_slash assms(2,3) by simp
  have "stored D (snd (adminDeleteNode D inp ctx s)) key = stored D s key"
  proof (cases "meshKeysForNode D s (rpc_id ctx)")
    case (Inr keys)
    then have "key \<notin> set keys"
      using meshKeysForNode_set [OF assms(1) Inr] parse by (simp add: record_of_parse)
    then show ?thesis
      using Inr delete_keys_frame_key [OF assms(1)]
      by (simp add: adminDeleteNode_def Let_def split_beta drop_registration_def split: sum.splits)
  qed (simp add: adminDeleteNode_def Let_def)
  then show ?thesis using assms(4) parse by (simp add: list_node_def)
qed

text \<open>A node that redeemed the example invite under an id with slashes.\<close>

definition ex_slash :: "(string \<times> doc) list Server" where
  "ex_slash = snd (adminRedeemInviteLink ex_deps ex_inputs (ex_redeem ''x/nodes/v'') ex_invited)"

theorem slash_id_unmanageable_witness:
  "\<exists>d. stored ex_deps (snd (adminDeleteNode ex_deps ex_inputs
           \<lparr>rpc_user = None, rpc_id = ''x/nodes/v'', rpc_body = (None :: unit option)\<rparr> ex_slash))
         (meshNodeKVKey ''default'' ''x/nodes/v'') = Some d"
proof -
  obtain d where "stored ex_deps ex_slash (meshNodeKVKey ''default'' ''x/nodes/v'') = Some d"
  proof -
    have "stored ex_deps ex_slash (meshNodeKVKey ''default'' ''x/nodes/v'') \<noteq> None" by code_simp
    then show thesis using that by blast
  qed
  then show ?thesis
    using slash_id_unmanageable [OF ex_badger_ok _ refl, of "''x/nodes/v''" ex_slash "''default''" d ex_inputs
        "\<lparr>rpc_user = None, rpc_id = ''x/nodes/v'', rpc_body = (None :: unit option)\<rparr>"]
    by (intro exI [of _ d]) simp
qed

text \<open>
  A login can name another node. Whoever redeems an invite as a node whose id is
  \<open>x/nodes/v\<close> can log in to the mesh id \<open>m/nodes/x\<close> as the node \<open>v\<close>, because both pairs give the
  same key: the session token names \<open>v\<close>, a node that never redeemed anything.
\<close>

theorem login_as_other_node:
  assumes "available D" and "gcm_ok (dep_gcm D)"
    and "adminRedeemInviteLink D inp ctx s = (Inr (ReplyRedeem resp), s1)"
    and "rpc_body ctx = Some node" and "pn_ID node = x @ ''/nodes/'' @ v" and "v \<noteq> []"
    and "ri_MeshSecret resp \<noteq> []"
    and "\<forall>r d. Marshal (dep_node D) r = Inr d \<longrightarrow>
           (\<exists>r'. Unmarshal (dep_node D) d = Inr r' \<and> mn_PasswordHash r' = mn_PasswordHash r)"
    and "in_nonce inp' = Inr nonce" and "length nonce = gcm_NonceSize" and "length (srv_magicKey s1) = keySize"
    and "codec_faithful (dep_claims D) \<lparr>sc_NodeID = v, sc_Expires = 0\<rparr>"
    and "login = \<lparr>nl_NodeID = v, nl_MeshId = ri_MeshId resp @ ''/nodes/'' @ x, nl_MeshSecret = ri_MeshSecret resp\<rparr>"
  shows "\<exists>token. apiNodeLogin D inp' \<lparr>rpc_user = None, rpc_id = [], rpc_body = Some login\<rparr> s1 =
             (Inr (ReplyLogin \<lparr>nr_Token = token, nr_NodeID = v, nr_Expires = 0\<rparr>), s1) \<and>
           (\<forall>now. authenticateSessionToken D (srv_magicKey s1) now token = Inr \<lparr>prop_User = v, prop_Group = ''mesh''\<rparr>)"
proof -
  obtain r d where r: "stored D s1 (meshNodeKVKey (ri_MeshId resp) (pn_ID node)) = Some d"
    "Marshal (dep_node D) r = Inr d" "mn_PasswordHash r \<noteq> []"
    "dep_bcrypt_Compare D (mn_PasswordHash r) (ri_MeshSecret resp)"
    using redeemed_record [OF assms(1,3,4)] by blast
  obtain r' where r': "Unmarshal (dep_node D) d = Inr r'" "mn_PasswordHash r' = mn_PasswordHash r"
    using assms(8) r(2) by blast
  obtain token where token: "issueSessionToken D inp' s1 v 0 = Inr (token, 0)"
    "\<forall>now. authenticateSessionToken D (srv_magicKey s1) now token = Inr \<lparr>prop_User = v, prop_Group = ''mesh''\<rparr>"
    using session_issued [OF assms(2,9,10,11,6,12)] by blast
  have "meshNodeKVKey (nl_MeshId login) (nl_NodeID login) = meshNodeKVKey (ri_MeshId resp) (pn_ID node)"
    by (simp add: assms(5,13) meshNodeKVKey_def)
  then have "apiNodeLogin D inp' \<lparr>rpc_user = None, rpc_id = [], rpc_body = Some login\<rparr> s1 =
      (Inr (ReplyLogin \<lparr>nr_Token = token, nr_NodeID = v, nr_Expires = 0\<rparr>), s1)"
    using login_ok [of D login s1 d r' inp' token 0] assms(1,6,7,13) r r' token(1) by simp
  with token(2) show ?thesis by blast
qed

theorem login_as_other_node_witness:
  "\<exists>token. apiNodeLogin ex_deps ex_inputs \<lparr>rpc_user = None, rpc_id = [],
       rpc_body = Some \<lparr>nl_NodeID = ''v'', nl_MeshId = ''default/nodes/x'', nl_MeshSecret = ''72''\<rparr>\<rparr> ex_slash =
     (Inr (ReplyLogin \<lparr>nr_Token = token, nr_NodeID = ''v'', nr_Expires = 0\<rparr>), ex_slash)"
proof -
  have "fst (adminRedeemInviteLink ex_deps ex_inputs (ex_redeem ''x/nodes/v'') ex_invited) =
      Inr (ReplyRedeem ex_credentials)" by code_simp
  then have ok: "adminRedeemInviteLink ex_deps ex_inputs (ex_redeem ''x/nodes/v'') ex_invited =
      (Inr (ReplyRedeem ex_credentials), ex_slash)" unfolding ex_slash_def by (metis prod.collapse)
  have "rpc_body (ex_redeem ''x/nodes/v'') = Some (ex_node ''x/nodes/v'')" by (simp add: ex_redeem_def)
  moreover have "pn_ID (ex_node ''x/nodes/v'') = ''x'' @ ''/nodes/'' @ ''v''" by code_simp
  moreover have "ri_MeshId ex_credentials = ''default''" "ri_MeshSecret ex_credentials = ''72''"
    by (simp_all add: ex_credentials_def)
  moreover have "\<forall>r d. Marshal (dep_node ex_deps) r = Inr d \<longrightarrow>
      (\<exists>r'. Unmarshal (dep_node ex_deps) d = Inr r' \<and> mn_PasswordHash r' = mn_PasswordHash r)"
    by (rule ex_hash_kept)
  moreover have "length (srv_magicKey ex_slash) = keySize" by code_simp
  ultimately show ?thesis
    using login_as_other_node [OF ex_available ex_gcm_ok ok, of "ex_node ''x/nodes/v''" "''x''" "''v''" ex_inputs
        "''nonce-nonce-''"] ex_nonce ex_claims_faithful by auto
qed

lemma created_invite:
  assumes "available D"
    and "\<forall>u e. in_uuid inp = Inr u \<longrightarrow> codec_faithful (dep_invite D)
      \<lparr>iv_UUID = u, iv_MeshId = ''default'', iv_OneTime = ci_OneTime req, iv_Expires = e, iv_InviteAs = ci_Name req\<rparr>"
    and "rpc_body ctx = Some req" and "adminCreateInviteLink D inp ctx s = (Inr (ReplyInvite resp), s1)"
  shows "\<exists>invite. Store_Get (dep_badger D) (dep_invite D) (srv_kv s1) (inviteKVKey ''default'' (cr_InviteId resp)) = Inr invite \<and>
           iv_Expires invite = (if ci_LifetimeSec req \<noteq> 0
             then time_Unix (in_now inp + seconds (ci_LifetimeSec req)) else 0)"
proof -
  obtain uuid where u: "in_uuid inp = Inr uuid"
    using assms(3,4) by (auto simp: adminCreateInviteLink_def GetObject_def newInviteID_def Let_def split: sum.splits if_splits)
  define invite where "invite = \<lparr>iv_UUID = uuid, iv_MeshId = ''default'', iv_OneTime = ci_OneTime req,
      iv_Expires = (if ci_LifetimeSec req \<noteq> 0 then time_Unix (in_now inp + seconds (ci_LifetimeSec req)) else 0),
      iv_InviteAs = ci_Name req\<rparr>"
  let ?key = "inviteKVKey ''default'' (invitePublicID D uuid)"
  have put: "Store_Put (dep_badger D) (dep_invite D) (srv_kv s) ?key invite = Inr (srv_kv s1)"
    and resp: "cr_InviteId resp = invitePublicID D uuid"
    using assms(3,4) u unfolding invite_def
    by (auto simp: adminCreateInviteLink_def GetObject_def newInviteID_def Let_def split: sum.splits if_splits)
  have ok: "badger_ok (dep_badger D)" using assms(1) by (simp add: available_def)
  obtain d where d: "Marshal (dep_invite D) invite = Inr d" "stored D s1 = (stored D s)(?key \<mapsto> d)"
    using kv.put_law [OF ok put] by blast
  have "Unmarshal (dep_invite D) d = Inr invite"
    using assms(2) u d(1) unfolding codec_faithful_def invite_def by (metis sum.inject(2))
  then have "Store_Get (dep_badger D) (dep_invite D) (srv_kv s1) ?key = Inr invite"
    using Get_available [OF assms(1), of s1 ?key d "dep_invite D"] d(2) by simp
  then show ?thesis using resp by (auto simp: invite_def)
qed

lemma delete_ignore_gone:
  assumes "available D"
  shows "stored D (delete_ignore D k s) k = None"
proof (cases "store_db (srv_kv s)")
  case None
  then show ?thesis by (simp add: delete_ignore_def Store_Delete_def kvmap_def)
next
  case (Some db)
  have ok: "badger_ok (dep_badger D)" using assms by (simp add: available_def)
  obtain db' where "txn_Delete (dep_badger D) db k = Inr db'" using assms unfolding available_def by blast
  then have del: "Store_Delete (dep_badger D) (srv_kv s) k = Inr ((srv_kv s)\<lparr>store_db := Some db'\<rparr>)"
    using Some by (simp add: Store_Delete_def)
  then show ?thesis using kv.delete_law [OF ok del] by (simp add: delete_ignore_def)
qed

text \<open>
  Seconds as a \<open>time.Duration\<close>: nanoseconds modulo \<open>2 ^ 64\<close>, read as a signed number. Beyond the range they come out
  at least \<open>2 ^ 64\<close> nanoseconds short.
\<close>

lemma seconds_mod: "seconds n = (int (unat n) * 1000000000 + 2 ^ 63) mod 2 ^ 64 - 2 ^ 63"
proof -
  have "seconds n = (uint (n * 1000000000 :: uint64) + 2 ^ 63) mod 2 ^ 64 - 2 ^ 63"
    by (simp add: seconds_def sint_uint signed_take_bit_eq_take_bit_shift take_bit_eq_mod)
  also have "uint (n * 1000000000 :: uint64) = (int (unat n) * 1000000000) mod 2 ^ 64"
    by (simp add: uint_word_ariths)
  finally show ?thesis by (simp add: mod_simps)
qed

lemma seconds_short:
  assumes "9223372036 < unat n"
  shows "seconds n \<le> int (unat n) * 1000000000 - 2 ^ 64"
proof -
  let ?k = "int (unat n) * 1000000000 + 2 ^ 63"
  have "int (unat n) \<ge> 9223372037" using assms by linarith
  then have "9223372037 * 1000000000 + 2 ^ 63 \<le> ?k" by (intro add_right_mono mult_right_mono) simp_all
  moreover have "(2 :: int) ^ 64 \<le> 9223372037 * 1000000000 + 2 ^ 63" by simp
  ultimately have "2 ^ 64 \<le> ?k" by (rule order_trans [rotated])
  then have "?k div 2 ^ 64 \<ge> 1" by (simp add: pos_imp_zdiv_pos_iff int_one_le_iff_zero_less)
  moreover have "?k mod 2 ^ 64 = ?k - ?k div 2 ^ 64 * 2 ^ 64" by (simp add: minus_div_mult_eq_mod)
  ultimately show ?thesis by (simp add: seconds_mod)
qed

lemma time_Unix_short: "t' \<le> t - 2 ^ 64 \<Longrightarrow> time_Unix t' \<le> time_Unix t - 18446744073"
proof -
  assume "t' \<le> t - 2 ^ 64"
  then have "t' \<le> t + (- 18446744073) * 1000000000" by simp
  then have "t' div 1000000000 \<le> (t + (- 18446744073) * 1000000000) div 1000000000" by (rule zdiv_mono1) simp
  then show ?thesis by (simp add: time_Unix_def)
qed

text \<open>
  C21. Lifetimes are honoured up to the range of a \<open>time.Duration\<close> and cut short beyond it. An invite created
  for \<open>L > 0\<close> seconds is refused with 410 and removed from its expiry on, in whole seconds, and is not refused as expired
  before. For \<open>L \<le> 9223372036\<close> the expiry is \<open>L\<close> seconds after the creation. For every longer lifetime the
  multiplication wraps: the expiry is that of the duration modulo \<open>2 ^ 64\<close> nanoseconds, read as a
  signed number, at least 584 years early; with \<open>L = 9223372037\<close> the invite has expired
  when it is created. An expiry of exactly 0 means none.
\<close>

theorem invite_lifetime:
  assumes "available D" and "rpc_body ctx = Some req"
    and "\<forall>u e. in_uuid inp = Inr u \<longrightarrow> codec_faithful (dep_invite D)
      \<lparr>iv_UUID = u, iv_MeshId = ''default'', iv_OneTime = ci_OneTime req, iv_Expires = e, iv_InviteAs = ci_Name req\<rparr>"
    and "adminCreateInviteLink D inp ctx s = (Inr (ReplyInvite resp), s1)"
    and "rpc_id ctx' = cr_InviteId resp" and "rpc_id ctx' \<noteq> []"
    and "0 < ci_LifetimeSec req"
  shows "\<exists>expiry.
     (if expiry \<le> time_Unix (in_now inp') \<and> expiry \<noteq> 0
      then fst (redeem_lookup D inp' ctx' s1) = Inl (ApiErr StatusGone ''invite expired'') \<and>
           stored D (snd (redeem_lookup D inp' ctx' s1)) (inviteKVKey ''default'' (rpc_id ctx')) = None
      else fst (redeem_lookup D inp' ctx' s1) \<noteq> Inl (ApiErr StatusGone ''invite expired'')) \<and>
     (unat (ci_LifetimeSec req) \<le> 9223372036 \<longrightarrow>
        expiry = time_Unix (in_now inp) + int (unat (ci_LifetimeSec req))) \<and>
     (9223372036 < unat (ci_LifetimeSec req) \<longrightarrow>
        expiry = time_Unix (in_now inp + ((int (unat (ci_LifetimeSec req)) * 1000000000 + 2 ^ 63) mod 2 ^ 64 - 2 ^ 63)) \<and>
        expiry \<le> time_Unix (in_now inp) + int (unat (ci_LifetimeSec req)) - 18446744073) \<and>
     (ci_LifetimeSec req = 9223372037 \<and> 0 \<le> in_now inp \<and> in_now inp < 2 ^ 62 \<longrightarrow> expiry < 0)"
proof -
  let ?key = "inviteKVKey ''default'' (rpc_id ctx')" and ?L = "ci_LifetimeSec req"
  obtain invite where st: "Store_Get (dep_badger D) (dep_invite D) (srv_kv s1) ?key = Inr invite"
    and ex: "iv_Expires invite = time_Unix (in_now inp + seconds ?L)"
    using created_invite [OF assms(1,3,2,4)] assms(5) word_gt_0 [THEN iffD1, OF assms(7)] by (metis (full_types))
  have "redeem_lookup D inp' ctx' s1 = (Inl (ApiErr StatusGone ''invite expired''), delete_ignore D ?key s1)"
    if "iv_Expires invite \<noteq> 0" "iv_Expires invite \<le> time_Unix (in_now inp')"
    using that st assms(6) by (simp add: redeem_lookup_def)
  moreover have "fst (redeem_lookup D inp' ctx' s1) \<noteq> Inl (ApiErr StatusGone ''invite expired'')"
    if "\<not> (iv_Expires invite \<noteq> 0 \<and> iv_Expires invite \<le> time_Unix (in_now inp'))"
    using that st assms(6) by (auto simp: redeem_lookup_def GetObject_def Let_def split: option.splits)
  moreover have "iv_Expires invite = time_Unix (in_now inp) + int (unat ?L)" if "unat ?L \<le> 9223372036"
    using that ex by (simp add: seconds_small time_Unix_def)
  moreover have "iv_Expires invite \<le> time_Unix (in_now inp) + int (unat ?L) - 18446744073" if "9223372036 < unat ?L"
  proof -
    have "time_Unix (in_now inp + seconds ?L) \<le> time_Unix (in_now inp + int (unat ?L) * 1000000000) - 18446744073"
      using seconds_short [OF that] by (intro time_Unix_short) simp
    then show ?thesis using ex by (simp add: time_Unix_def)
  qed
  moreover have "iv_Expires invite < 0" if "?L = 9223372037" "0 \<le> in_now inp" "in_now inp < 2 ^ 62"
  proof -
    have "(in_now inp - 9223372036709551616) div 1000000000 < 0" using that by (simp add: pos_imp_zdiv_neg_iff)
    then show ?thesis using that ex by (simp add: seconds_mod time_Unix_def)
  qed
  ultimately show ?thesis using delete_ignore_gone [OF assms(1)] ex
    by (intro exI [of _ "iv_Expires invite"]) (auto simp: seconds_mod)
qed

definition ex_create :: "CreateInviteRequest JsonRPC" where
  "ex_create = \<lparr>rpc_user = None, rpc_id = [],
     rpc_body = Some \<lparr>ci_Name = ''n'', ci_LifetimeSec = 60, ci_OneTime = True, ci_MeshId = ''default''\<rparr>\<rparr>"

definition ex_created :: "(string \<times> doc) list Server" where
  "ex_created = snd (adminCreateInviteLink ex_deps ex_inputs ex_create ex_server)"

theorem invite_lifetime_witness:
  "fst (redeem_lookup ex_deps (ex_inputs\<lparr>in_now := 1059000000000\<rparr>) (ex_redeem ''n1'') ex_created) \<noteq>
     Inl (ApiErr StatusGone ''invite expired'') \<and>
   fst (redeem_lookup ex_deps (ex_inputs\<lparr>in_now := 1060000000000\<rparr>) (ex_redeem ''n1'') ex_created) =
     Inl (ApiErr StatusGone ''invite expired'')"
proof -
  let ?req = "\<lparr>ci_Name = ''n'', ci_LifetimeSec = 60, ci_OneTime = True, ci_MeshId = ''default''\<rparr>"
  let ?resp = "\<lparr>cr_InviteId = ''75'', cr_InviteLink = ''http://a/api/v1/redeem/75''\<rparr>"
  have body: "rpc_body ex_create = Some ?req" by (simp add: ex_create_def)
  have codec: "\<forall>u e. in_uuid ex_inputs = Inr u \<longrightarrow> codec_faithful (dep_invite ex_deps)
      \<lparr>iv_UUID = u, iv_MeshId = ''default'', iv_OneTime = ci_OneTime ?req, iv_Expires = e, iv_InviteAs = ci_Name ?req\<rparr>"
    by (simp add: codec_faithful_def ex_deps_def ex_invite_codec_def)
  have "fst (adminCreateInviteLink ex_deps ex_inputs ex_create ex_server) = Inr (ReplyInvite ?resp)" by code_simp
  then have ok: "adminCreateInviteLink ex_deps ex_inputs ex_create ex_server = (Inr (ReplyInvite ?resp), ex_created)"
    unfolding ex_created_def by (metis prod.collapse)
  have "rpc_id (ex_redeem ''n1'') = ''75''" by (simp add: ex_redeem_def)
  moreover have "in_now ex_inputs = 1000000000000" by (simp add: ex_inputs_def)
  ultimately show ?thesis
    using invite_lifetime [OF ex_available body codec ok, of "ex_redeem ''n1''" "ex_inputs\<lparr>in_now := 1059000000000\<rparr>"]
      invite_lifetime [OF ex_available body codec ok, of "ex_redeem ''n1''" "ex_inputs\<lparr>in_now := 1060000000000\<rparr>"]
    by (auto simp: time_Unix_def split: if_splits)
qed

end
