(* ===== verification/ClientServer.thy ===== *)
theory ClientServer
  imports ApiClient AdminRecords NetHttp
begin

text \<open>
  The API clients talking to the admin server: the transport of a client is \<open>admin_http\<close>, which
  decodes a message as \<open>net/http\<close> and the server's handlers do, lets \<open>routes\<close> answer and encodes the
  reply. The state is the number of requests answered so far, which selects the inputs of the
  next one, and the server. Path segments are taken as they are, so ids in paths must need no
  escaping (\<open>url_safe\<close>).
\<close>

section \<open>The connection\<close>

definition decode_body :: "(string, 'v) codec \<Rightarrow> string option \<Rightarrow> 'v option" where
  "decode_body c b = (case b of None \<Rightarrow> None | Some d \<Rightarrow> (case Unmarshal c d of Inl e \<Rightarrow> None | Inr v \<Rightarrow> Some v))"

definition to_request :: "wire \<Rightarrow> string \<Rightarrow> http_msg \<Rightarrow> http_request" where
  "to_request W base msg =
     \<lparr>rq_method = hm_method msg,
      rq_path = tl (Split (CHR ''/'') (drop (length base) (hm_url msg))),
      rq_auth = (case hm_auth msg of None \<Rightarrow> [] | Some a \<Rightarrow> a),
      rq_register = decode_body (w_register W) (hm_body msg),
      rq_login = decode_body (w_login W) (hm_body msg),
      rq_redeem = decode_body (w_redeem W) (hm_body msg),
      rq_invite = decode_body (w_invite W) (hm_body msg)\<rparr>"

definition encode_reply :: "wire \<Rightarrow> reply \<Rightarrow> string result" where
  "encode_reply W r = (case r of
     ReplyNode n \<Rightarrow> Marshal (w_node W) n
   | ReplyRegister v \<Rightarrow> Marshal (w_register W) v
   | ReplyNodes ns \<Rightarrow> Marshal (w_nodes W) ns
   | ReplyRelay v \<Rightarrow> Marshal (w_relay W) v
   | ReplyLogin v \<Rightarrow> Marshal (w_session W) v
   | ReplyInvite v \<Rightarrow> Marshal (w_invited W) v
   | ReplyRedeem v \<Rightarrow> Marshal (w_redeemed W) v
   | ReplyInvites vs \<Rightarrow> Marshal (w_invites W) vs
   | ReplyAdminNodes vs \<Rightarrow> Marshal (w_admin_nodes W) vs
   | _ \<Rightarrow> Inr (w_ack W r))"

text \<open>
  The status and the body that go out. \<open>Encode\<close> writes nothing when the reply cannot be encoded: the error it returns
  becomes a 500. A handler that panicked leaves no answer.
\<close>

definition write_response :: "wire \<Rightarrow> http_response \<Rightarrow> (int \<times> string) option" where
  "write_response W resp = (case resp_body resp of
     JsonBody r \<Rightarrow>
       (case encode_reply W r of
          Inl e \<Rightarrow> Some (StatusInternalServerError, Error_string e @ [CHR 0x0A])
        | Inr d \<Rightarrow> Some (resp_status resp, d))
   | TextBody t \<Rightarrow> Some (resp_status resp, t @ [CHR 0x0A])
   | NoBody \<Rightarrow> None)"

definition to_answer :: "wire \<Rightarrow> http_response \<Rightarrow> http_answer result" where
  "to_answer W resp =
     (case write_response W resp of
        None \<Rightarrow> Inl (GoErr ''EOF'')
      | Some (code, data) \<Rightarrow>
          Inr \<lparr>ha_Status = itoa code @ '' '' @ StatusText code, ha_StatusCode = code, ha_data = Inr data\<rparr>)"

definition admin_http ::
  "wire \<Rightarrow> ('db, 'd) deps \<Rightarrow> (nat \<Rightarrow> inputs) \<Rightarrow> string \<Rightarrow> (nat \<times> 'db Server) net_http" where
  "admin_http W D inp base =
     \<lparr>ht_parse = (\<lambda>loc. None),
      ht_do = (\<lambda>msg (k, s). let (resp, s') = routes D (inp k) (to_request W base msg) s
                            in (to_answer W resp, (Suc k, s')))\<rparr>"

definition url_safe :: "string \<Rightarrow> bool" where
  "url_safe i \<longleftrightarrow> i \<noteq> [] \<and>
     list_all (\<lambda>c. c \<in> set ''abcdefghijklmnopqrstuvwxyzABCDEFGHIJKLMNOPQRSTUVWXYZ0123456789-_'') i"

section \<open>What a call returns\<close>

text \<open>The request the server sees for a call of a client with token \<open>tok\<close>.\<close>

definition call_request :: "wire \<Rightarrow> string \<Rightarrow> string \<Rightarrow> string list \<Rightarrow> string option \<Rightarrow> http_request" where
  "call_request W tok method path body =
     \<lparr>rq_method = method, rq_path = path, rq_auth = (if tok \<noteq> [] then ''Bearer '' @ tok else []),
      rq_register = decode_body (w_register W) body, rq_login = decode_body (w_login W) body,
      rq_redeem = decode_body (w_redeem W) body, rq_invite = decode_body (w_invite W) body\<rparr>"

definition call_result :: "wire \<Rightarrow> (string \<Rightarrow> 'o result) \<Rightarrow> http_response \<Rightarrow> 'o result" where
  "call_result W unmarshal resp =
     (case write_response W resp of
        None \<Rightarrow> Inl (GoErr ''EOF'')
      | Some (code, data) \<Rightarrow>
          if code \<noteq> StatusOK then Inl (GoErr (itoa code @ '' '' @ StatusText code @ '': '' @ data))
          else unmarshal data)"

lemma to_request_sent:
  "to_request W (cl_Address c) (sent c method (CHR ''/'' # loc) body) =
     call_request W (cl_token c) method (Split (CHR ''/'') loc) body"
  by (simp add: to_request_def sent_def call_request_def)

text \<open>One lemma for every method: a call is one request to \<open>routes\<close>.\<close>

lemma Do_admin:
  assumes "cl_rt c = admin_http W D inp (cl_Address c)"
  shows "Do c method (CHR ''/'' # loc) (map_option Inr body) out (k, s) =
    (let (resp, s') = routes D (inp k) (call_request W (cl_token c) method (Split (CHR ''/'') loc) body) s
     in (case call_result W Inr resp of
           Inl e \<Rightarrow> Inl e
         | Inr data \<Rightarrow> (case out of None \<Rightarrow> Inr None | Some f \<Rightarrow> map_sum id Some (f data)), (Suc k, s')))"
proof -
  let ?msg = "sent c method (CHR ''/'' # loc) body"
  obtain resp s' where r: "routes D (inp k) (call_request W (cl_token c) method (Split (CHR ''/'') loc) body) s = (resp, s')"
    by fastforce
  have parse: "ht_parse (cl_rt c) (cl_Address c @ CHR ''/'' # loc) = None" by (simp add: assms(1) admin_http_def)
  have http: "ht_do (cl_rt c) ?msg (k, s) = (to_answer W resp, (Suc k, s'))"
    unfolding assms(1) admin_http_def by (simp add: to_request_sent r)
  show ?thesis
  proof (cases "write_response W resp")
    case None
    have "newRequest c method (cl_Address c @ CHR ''/'' # loc) body = Inr ?msg"
      using parse by (simp add: newRequest_def setAuth_def sent_def)
    then show ?thesis
      using None http r by (cases body) (simp_all add: Do_def to_answer_def call_result_def)
  next
    case (Some x)
    obtain code data where x: "x = (code, data)" by (cases x)
    have b: "map_option projr (map_option Inr body :: string result option) = body" by (cases body) simp_all
    have "ht_do (cl_rt c) (sent c method (CHR ''/'' # loc) (map_option projr (map_option Inr body :: string result option))) (k, s) =
        (Inr \<lparr>ha_Status = itoa code @ '' '' @ StatusText code, ha_StatusCode = code, ha_data = Inr data\<rparr>, (Suc k, s'))"
      unfolding b using http Some x by (simp add: to_answer_def)
    from Do_answered [OF parse this, of _ out] show ?thesis
      using Some x r by (cases body) (auto simp: call_result_def split: sum.splits option.splits)
  qed
qed

lemma the_reply_some:
  "the_reply (call_result W (\<lambda>data. map_sum id Some (f data)) resp, s) = (call_result W f resp, s)"
proof (cases "write_response W resp")
  case (Some x)
  then show ?thesis by (cases x; cases "f (snd x)") (simp_all add: the_reply_def call_result_def)
qed (simp add: the_reply_def call_result_def)

lemma call_result_bind:
  "(case call_result W Inr resp of Inl e \<Rightarrow> Inl e | Inr data \<Rightarrow> f data) = call_result W f resp"
  by (simp add: call_result_def split: option.splits)

lemma Post_admin:
  assumes "cl_rt c = admin_http W D inp (cl_Address c)" and "Marshal ci v = Inr d"
  shows "Client_Post c (CHR ''/'' # loc) ci v co (k, s) =
    (let (resp, s') = routes D (inp k) (call_request W (cl_token c) ''POST'' (Split (CHR ''/'') loc) (Some d)) s
     in (call_result W (Unmarshal co) resp, (Suc k, s')))"
  using Do_admin [OF assms(1), of "''POST''" loc "Some d" "Some (Unmarshal co)" k s] assms(2)
  by (simp add: Client_Post_def Let_def split_beta the_reply_some call_result_bind)

lemma Get_admin:
  assumes "cl_rt c = admin_http W D inp (cl_Address c)"
  shows "Client_Get c (CHR ''/'' # loc) co (k, s) =
    (let (resp, s') = routes D (inp k) (call_request W (cl_token c) ''GET'' (Split (CHR ''/'') loc) None) s
     in (call_result W (Unmarshal co) resp, (Suc k, s')))"
  using Do_admin [OF assms(1), of "''GET''" loc None "Some (Unmarshal co)" k s]
  by (simp add: Client_Get_def Let_def split_beta the_reply_some call_result_bind)

lemma Delete_admin:
  assumes "cl_rt c = admin_http W D inp (cl_Address c)"
  shows "Client_Delete c (CHR ''/'' # loc) (k, s) =
    (let (resp, s') = routes D (inp k) (call_request W (cl_token c) ''DELETE'' (Split (CHR ''/'') loc) None) s
     in (case call_result W Inr resp of Inl e \<Rightarrow> Inl e | Inr _ \<Rightarrow> Inr (), (Suc k, s')))"
  using Do_admin [OF assms(1), of "''DELETE''" loc None "None :: (string \<Rightarrow> unit result) option" k s]
  by (auto simp: Client_Delete_def Let_def split: prod.splits sum.splits)

section \<open>Paths and bodies\<close>

lemma url_safe_segment: "url_safe i \<Longrightarrow> CHR ''/'' \<notin> set i \<and> i \<noteq> []"
proof -
  have "\<not> (\<lambda>c. c \<in> set ''abcdefghijklmnopqrstuvwxyzABCDEFGHIJKLMNOPQRSTUVWXYZ0123456789-_'') (CHR ''/'')" by code_simp
  then show "url_safe i \<Longrightarrow> CHR ''/'' \<notin> set i \<and> i \<noteq> []" unfolding url_safe_def list_all_iff by blast
qed

lemma Split_under: "url_safe i \<Longrightarrow> Split (CHR ''/'') (''api/v1/nodes/'' @ i) = v1 [''nodes'', i]"
  "url_safe i \<Longrightarrow> Split (CHR ''/'') (''api/v1/redeem/'' @ i) = v1 [''redeem'', i]"
  "url_safe i \<Longrightarrow> Split (CHR ''/'') (''api/v1/admin/nodes/'' @ i) = v1 [''admin'', ''nodes'', i]"
  "url_safe i \<Longrightarrow> Split (CHR ''/'') (''api/v1/admin/invite/'' @ i) = v1 [''admin'', ''invite'', i]"
  using Split_no_sep [of "CHR ''/''" i] url_safe_segment [of i] by simp_all

lemma decode_faithful: "codec_faithful c v \<Longrightarrow> Marshal c v = Inr d \<Longrightarrow> decode_body c (Some d) = Some v"
  by (auto simp: codec_faithful_def decode_body_def)

text \<open>What the client makes of a reply or error of a handler.\<close>

lemma call_result_error:
  "call_result W f (reply_or_error (Inl (ApiErr code msg))) =
     (if code = StatusOK then f (msg @ [CHR 0x0A])
      else Inl (GoErr (itoa code @ '' '' @ StatusText code @ '': '' @ msg @ [CHR 0x0A])))"
  by (simp add: call_result_def reply_or_error_def write_response_def)

lemma call_result_reply:
  assumes "encode_reply W r = Inr d"
  shows "call_result W f (reply_or_error (Inr r)) = f d"
  using assms by (simp add: call_result_def reply_or_error_def write_response_def)

section \<open>Session tokens in the header\<close>

lemma b64_printable: "\<forall>c \<in> set (b64_EncodeToString s). printable c"
proof -
  have alpha: "list_all printable b64_alphabet" "length b64_alphabet = 64" by code_simp+
  have "\<forall>n \<in> set (sextets xs). n < 64" if "\<forall>x \<in> set xs. x < 256" for xs
    using that by (induction xs rule: sextets.induct) (auto simp: less_mult_imp_div_less)
  from this [of "map of_char s"] have "\<forall>n \<in> set (sextets (map of_char s)). n < 64" by simp
  then show ?thesis using alpha by (auto simp: b64_EncodeToString_def b64_char_def list_all_iff)
qed

lemma session_bearer:
  assumes "issueSessionToken D inp s i life = Inr (token, x)"
  shows "bearer_token (''Bearer '' @ token) = Some token" and "token \<noteq> []"
proof -
  obtain raw where t: "token = SessionTokenPrefix @ raw" "\<forall>c \<in> set raw. printable c"
    using assms b64_printable
    by (auto simp: issueSessionToken_def MagicLink_Encrypt_def Encrypt_def Let_def split: sum.splits)
  have "list_all printable SessionTokenPrefix" "SessionTokenPrefix \<noteq> []" by code_simp+
  then have all: "\<forall>c \<in> set token. printable c" and ne: "token \<noteq> []" using t by (auto simp: list_all_iff)
  then have "TrimSpace token = token" using TrimSpace_printable [OF ne] by (metis hd_in_set last_in_set)
  moreover have "EqualFold ''Bearer '' ''bearer ''" by code_simp
  ultimately show "bearer_token (''Bearer '' @ token) = Some token" using ne by (simp add: bearer_token_def)
  show "token \<noteq> []" by (rule ne)
qed

section \<open>The calls of a joining node\<close>

lemma client_redeem:
  assumes "adminRedeemInviteLink D (inp k) \<lparr>rpc_user = None, rpc_id = i, rpc_body = Some node\<rparr> s = (Inr (ReplyRedeem resp), s1)"
    and "cl_rt c = admin_http W D inp (cl_Address c)" and "url_safe i"
    and "codec_faithful (w_redeem W) node" and "codec_faithful (w_redeemed W) resp"
  shows "Client_Post c (''/api/v1/redeem/'' @ i) (w_redeem W) node (w_redeemed W) (k, s) = (Inr resp, (Suc k, s1))"
    and "\<exists>rq. s1 = snd (routes D (inp k) rq s)"
proof -
  obtain d where d: "Marshal (w_redeem W) node = Inr d" using assms(4) unfolding codec_faithful_def by blast
  obtain d' where d': "Marshal (w_redeemed W) resp = Inr d'" "Unmarshal (w_redeemed W) d' = Inr resp"
    using assms(5) unfolding codec_faithful_def by blast
  let ?rq = "call_request W (cl_token c) ''POST'' (v1 [''redeem'', i]) (Some d)"
  have r: "routes D (inp k) ?rq s = (reply_or_error (Inr (ReplyRedeem resp)), s1)"
    using assms(1) url_safe_segment [OF assms(3)] decode_faithful [OF assms(4) d]
    by (simp add: routes_def call_request_def method_is_def id_under_def handle_def)
  then show "\<exists>rq. s1 = snd (routes D (inp k) rq s)" by (intro exI [of _ ?rq]) simp
  show "Client_Post c (''/api/v1/redeem/'' @ i) (w_redeem W) node (w_redeemed W) (k, s) = (Inr resp, (Suc k, s1))"
    using Post_admin [OF assms(2) d, of "''api/v1/redeem/'' @ i" "w_redeemed W" k s] Split_under(2) [OF assms(3)] r
      call_result_reply [of W "ReplyRedeem resp" d' "Unmarshal (w_redeemed W)"] d'
    by (simp add: encode_reply_def)
qed

lemma client_login:
  assumes "apiNodeLogin D (inp k) \<lparr>rpc_user = None, rpc_id = [],
             rpc_body = Some \<lparr>nl_NodeID = i, nl_MeshId = mc_meshId mc, nl_MeshSecret = secret\<rparr>\<rparr> s = (Inr (ReplyLogin resp), s1)"
    and "cl_rt c = admin_http W D inp (cl_Address c)"
    and "codec_faithful (w_login W) \<lparr>nl_NodeID = i, nl_MeshId = mc_meshId mc, nl_MeshSecret = secret\<rparr>"
    and "codec_faithful (w_session W) resp"
  shows "Login W mc i secret c (k, s) = (None, SetToken (nr_Token resp) c, (Suc k, s1))"
proof -
  obtain d where d: "Marshal (w_login W) \<lparr>nl_NodeID = i, nl_MeshId = mc_meshId mc, nl_MeshSecret = secret\<rparr> = Inr d"
    using assms(3) unfolding codec_faithful_def by blast
  obtain d' where d': "Marshal (w_session W) resp = Inr d'" "Unmarshal (w_session W) d' = Inr resp"
    using assms(4) unfolding codec_faithful_def by blast
  have r: "routes D (inp k) (call_request W (cl_token c) ''POST'' (v1 [''login'']) (Some d)) s =
      (reply_or_error (Inr (ReplyLogin resp)), s1)"
    using assms(1) decode_faithful [OF assms(3) d]
    by (simp add: routes_def call_request_def method_is_def id_under_def handle_def)
  have path: "Split (CHR ''/'') ''api/v1/login'' = v1 [''login'']" by code_simp
  show ?thesis
    unfolding Login_def
    using Post_admin [OF assms(2) d, of "''api/v1/login''" "w_session W" k s] path r
      call_result_reply [of W "ReplyLogin resp" d' "Unmarshal (w_session W)"] d'
    by (simp add: encode_reply_def)
qed

lemma client_register_call:
  assumes "DoAuth (srv_auth s) (in_auth_now (inp k)) (''Bearer '' @ cl_token c) = (Some u, StatusOK)" and "cl_token c \<noteq> []"
    and "cl_rt c = admin_http W D inp (cl_Address c)" and "i \<noteq> []" and "name \<noteq> []" and "Has (srv_acl s) i"
    and "codec_faithful (w_register W) \<lparr>rr_Node = NewPeerNode i name, rr_Token = [], rr_LogicalTime = 0, rr_LastUpdate = zero_time\<rparr>"
    and "codec_faithful (w_register W) resp" and "register_locked D (inp k) (NewPeerNode i name) s = (resp, s1)"
  shows "register_call W c name i (k, s) = (Inr resp, (Suc k, s1))"
proof -
  let ?req = "\<lparr>rr_Node = NewPeerNode i name, rr_Token = [], rr_LogicalTime = 0, rr_LastUpdate = zero_time\<rparr>"
  obtain d where d: "Marshal (w_register W) ?req = Inr d" using assms(7) unfolding codec_faithful_def by blast
  obtain d' where d': "Marshal (w_register W) resp = Inr d'" "Unmarshal (w_register W) d' = Inr resp"
    using assms(8) unfolding codec_faithful_def by blast
  let ?ctx = "\<lparr>rpc_user = Some u, rpc_id = [], rpc_body = Some ?req\<rparr>"
  have check: "register_check ?ctx s = Inr (NewPeerNode i name)"
    using assms(4-6) by (simp add: register_check_def GetObject_def NewPeerNode_def)
  have "routes D (inp k) (call_request W (cl_token c) ''POST'' (v1 [''nodes'']) (Some d)) s =
      (let (res, s') = apiNodeRegister D (inp k) ?ctx s in (reply_or_error res, s'))"
    using assms(1,2) decode_faithful [OF assms(7) d]
    by (simp add: routes_def call_request_def method_is_def id_under_def authenticated_def)
  then have r: "routes D (inp k) (call_request W (cl_token c) ''POST'' (v1 [''nodes'']) (Some d)) s =
      (reply_or_error (Inr (ReplyRegister resp)), s1)"
    using check assms(9) by (simp add: apiNodeRegister_def)
  have path: "Split (CHR ''/'') ''api/v1/nodes'' = v1 [''nodes'']" by code_simp
  show ?thesis
    unfolding register_call_def
    using Post_admin [OF assms(3) d, of "''api/v1/nodes''" "w_register W" k s] path r
      call_result_reply [of W "ReplyRegister resp" d' "Unmarshal (w_register W)"] d'
    by (simp add: encode_reply_def)
qed

lemma client_register:
  assumes "DoAuth (srv_auth s) (in_auth_now (inp k)) (''Bearer '' @ cl_token c) = (Some u, StatusOK)" and "cl_token c \<noteq> []"
    and "cl_rt c = admin_http W D inp (cl_Address c)" and "i \<noteq> []" and "name \<noteq> []" and "Has (srv_acl s) i"
    and "codec_faithful (w_register W) \<lparr>rr_Node = NewPeerNode i name, rr_Token = [], rr_LogicalTime = 0, rr_LastUpdate = zero_time\<rparr>"
    and "codec_faithful (w_register W) resp" and "register_locked D (inp k) (NewPeerNode i name) s = (resp, s1)"
  shows "MeshClient_Register W c name i (k, s) = (Inr \<lparr>rg_node = rr_Node resp, rg_token = rr_Token resp\<rparr>, (Suc k, s1))"
  using client_register_call [OF assms] by (simp add: MeshClient_Register_def Register_def)

text \<open>The server holds the node under the token of the registration \<open>r\<close>.\<close>

definition registered_as :: "'db Server \<Rightarrow> Registration \<Rightarrow> bool" where
  "registered_as s r \<longleftrightarrow> rg_token r \<noteq> [] \<and> map_option ref_Token (srv_nodes s (pn_ID (rg_node r))) = Some (rg_token r)"

abbreviation pinged :: "inputs \<Rightarrow> string \<Rightarrow> 'db Server \<Rightarrow> 'db Server" where
  "pinged inp i s \<equiv> s\<lparr>srv_nodes := (srv_nodes s)(i \<mapsto> (the (srv_nodes s i))\<lparr>ref_LastPing := in_now inp\<rparr>)\<rparr>"

lemma client_refresh:
  assumes "cl_rt c = admin_http W D inp (cl_Address c)" and "cl_token c \<noteq> []" and "url_safe (pn_ID (rg_node r))"
    and "DoAuth (srv_auth s) (in_auth_now (inp k)) (''Bearer '' @ cl_token c) = (Some u, StatusOK)"
    and "codec_faithful (w_register W) \<lparr>rr_Node = rg_node r, rr_Token = rg_token r, rr_LogicalTime = 0, rr_LastUpdate = zero_time\<rparr>"
    and "codec_faithful (w_register W) \<lparr>rr_Node = rg_node r, rr_Token = rg_token r,
           rr_LogicalTime = srv_logicalTime s, rr_LastUpdate = srv_lastUpdate s\<rparr>"
  shows "registered_as s r \<Longrightarrow> refresh_call W c r (k, s) =
      (Inr \<lparr>rr_Node = rg_node r, rr_Token = rg_token r, rr_LogicalTime = srv_logicalTime s, rr_LastUpdate = srv_lastUpdate s\<rparr>,
       (Suc k, pinged (inp k) (pn_ID (rg_node r)) s))"
    and "\<not> registered_as s r \<Longrightarrow> \<exists>e. refresh_call W c r (k, s) = (Inl e, (Suc k, s)) \<and> contains (Error_string e) ''409''"
proof -
  let ?i = "pn_ID (rg_node r)"
  let ?req = "\<lparr>rr_Node = rg_node r, rr_Token = rg_token r, rr_LogicalTime = 0, rr_LastUpdate = zero_time\<rparr>"
  let ?resp = "\<lparr>rr_Node = rg_node r, rr_Token = rg_token r, rr_LogicalTime = srv_logicalTime s, rr_LastUpdate = srv_lastUpdate s\<rparr>"
  let ?ctx = "\<lparr>rpc_user = Some u, rpc_id = ?i, rpc_body = Some ?req\<rparr>"
  obtain d where d: "Marshal (w_register W) ?req = Inr d" using assms(5) unfolding codec_faithful_def by blast
  have rq: "decode_body (w_register W) (Some d) = Some ?req" using assms(5) d by (blast intro: decode_faithful)
  have "routes D (inp k) (call_request W (cl_token c) ''POST'' (v1 [''nodes'', ?i]) (Some d)) s =
      (let (res, s') = apiNodeRefresh (inp k) ?ctx s in (reply_or_error res, s'))"
    using assms(2,4) url_safe_segment [OF assms(3)] rq
    by (simp add: routes_def call_request_def method_is_def id_under_def authenticated_def)
  then have call: "refresh_call W c r (k, s) =
      (let (res, s') = apiNodeRefresh (inp k) ?ctx s in (call_result W (Unmarshal (w_register W)) (reply_or_error res), (Suc k, s')))"
    unfolding refresh_call_def using Post_admin [OF assms(1) d, of "''api/v1/nodes/'' @ ?i" "w_register W" k s] Split_under(1) [OF assms(3)]
    by (simp add: Let_def split_beta)
  have nonempty: "?i \<noteq> []" using url_safe_segment [OF assms(3)] by simp
  show "refresh_call W c r (k, s) = (Inr ?resp, (Suc k, pinged (inp k) ?i s))" if "registered_as s r"
  proof -
    obtain d' where d': "Marshal (w_register W) ?resp = Inr d'" "Unmarshal (w_register W) d' = Inr ?resp"
      using assms(6) unfolding codec_faithful_def by blast
    have "apiNodeRefresh (inp k) ?ctx s = (Inr (ReplyRegister ?resp), pinged (inp k) ?i s)"
      using that nonempty by (auto simp: registered_as_def apiNodeRefresh_def GetObject_def updateNode_def)
    then show ?thesis
      using call call_result_reply [of W "ReplyRegister ?resp" d' "Unmarshal (w_register W)"] d' by (simp add: encode_reply_def)
  qed
  show "\<exists>e. refresh_call W c r (k, s) = (Inl e, (Suc k, s)) \<and> contains (Error_string e) ''409''" if "\<not> registered_as s r"
  proof -
    have lost: "contains (Error_string (GoErr (itoa 409 @ '' '' @ StatusText 409 @ '': '' @ msg))) ''409''" for msg
    proof -
      have "itoa 409 = ''409''" by code_simp
      then have "Error_string (GoErr (itoa 409 @ '' '' @ StatusText 409 @ '': '' @ msg)) = [] @ ''409'' @ ('' '' @ StatusText 409 @ '': '' @ msg)"
        by (simp add: Error_string_def)
      then show ?thesis unfolding contains_iff by blast
    qed
    have "updateNode (inp k) ?i ?req s = (False, s)" using that by (auto simp: registered_as_def updateNode_def split: option.splits)
    then have "apiNodeRefresh (inp k) ?ctx s = (Inl (ApiErr StatusConflict ''node registration invalid''), s)"
      using nonempty by (simp add: apiNodeRefresh_def GetObject_def)
    then show ?thesis using call lost by (auto simp: call_result_error)
  qed
qed

lemma client_peers:
  assumes "cl_rt c = admin_http W D inp (cl_Address c)" and "cl_token c \<noteq> []"
    and "DoAuth (srv_auth s) (in_auth_now (inp k)) (''Bearer '' @ cl_token c) = (Some u, StatusOK)"
    and "fst (apiNodeList (inp k) \<lparr>rpc_user = Some u, rpc_id = [], rpc_body = None :: unit option\<rparr> s) = Inr (ReplyNodes ns)" and "codec_faithful (w_nodes W) ns"
  shows "GetPeers_call W c (k, s) = (Inr ns, (Suc k, s))"
proof -
  obtain d where d: "Marshal (w_nodes W) ns = Inr d" "Unmarshal (w_nodes W) d = Inr ns"
    using assms(5) unfolding codec_faithful_def by blast
  have "routes D (inp k) (call_request W (cl_token c) ''GET'' (v1 [''nodes'']) None) s = (reply_or_error (Inr (ReplyNodes ns)), s)"
    using assms(2-4)
    by (simp add: routes_def call_request_def method_is_def id_under_def authenticated_def apiNodeList_def)
  moreover have "Split (CHR ''/'') ''api/v1/nodes'' = v1 [''nodes'']" by code_simp
  ultimately show ?thesis
    unfolding GetPeers_call_def
    using Get_admin [OF assms(1), of "''api/v1/nodes''" "w_nodes W" k s]
      call_result_reply [of W "ReplyNodes ns" d "Unmarshal (w_nodes W)"] d by (simp add: encode_reply_def)
qed

text \<open>What a redemption leaves behind: the node is admitted, can log in, and its session is accepted.\<close>

lemma redeemed_admitted:
  assumes "adminRedeemInviteLink D inp ctx s = (Inr r, s1)" and "rpc_body ctx = Some node"
  shows "Has (srv_acl s1) (pn_ID node)"
proof -
  obtain key invite node' where l: "redeem_lookup D inp ctx s = (Inr (key, invite, node'), s)"
    and c: "redeem_commit D inp (key, invite, node') s = (Inr r, s1)"
    using redeem_ok_split [OF assms(1)] by blast
  have "pn_ID node' = pn_ID node" using redeem_lookup_ok [OF l] assms(2) by auto
  then show ?thesis using redeem_commit_admits [of D inp key invite node' s] c by (simp add: Has_def)
qed

lemma redeemed_login:
  assumes "available D" and "gcm_ok (dep_gcm D)" and "reach D n s1"
    and "adminRedeemInviteLink D inp ctx s = (Inr (ReplyRedeem resp), s1)" and "rpc_body ctx = Some node"
    and "ri_MeshId resp \<noteq> []" and "ri_MeshSecret resp \<noteq> []"
    and "\<forall>r d. Marshal (dep_node D) r = Inr d \<longrightarrow>
           (\<exists>r'. Unmarshal (dep_node D) d = Inr r' \<and> mn_PasswordHash r' = mn_PasswordHash r)"
    and "in_nonce inp' = Inr nonce" and "length nonce = gcm_NonceSize" and "length (srv_magicKey s1) = keySize"
    and "codec_faithful (dep_claims D) \<lparr>sc_NodeID = pn_ID node, sc_Expires = 0\<rparr>"
  obtains token where
      "apiNodeLogin D inp' \<lparr>rpc_user = None, rpc_id = [],
         rpc_body = Some \<lparr>nl_NodeID = pn_ID node, nl_MeshId = ri_MeshId resp, nl_MeshSecret = ri_MeshSecret resp\<rparr>\<rparr> s1 =
       (Inr (ReplyLogin \<lparr>nr_Token = token, nr_NodeID = pn_ID node, nr_Expires = 0\<rparr>), s1)"
    and "token \<noteq> []" and "pn_ID node \<noteq> []"
    and "\<And>now. DoAuth (srv_auth s1) now (''Bearer '' @ token) = (Some \<lparr>prop_User = pn_ID node, prop_Group = ''mesh''\<rparr>, StatusOK)"
proof -
  obtain r d where r: "stored D s1 (meshNodeKVKey (ri_MeshId resp) (pn_ID node)) = Some d"
    "Marshal (dep_node D) r = Inr d" "mn_PasswordHash r \<noteq> []"
    "dep_bcrypt_Compare D (mn_PasswordHash r) (ri_MeshSecret resp)" "pn_ID node \<noteq> []"
    using redeemed_record [OF assms(1,4,5)] by blast
  obtain r' where r': "Unmarshal (dep_node D) d = Inr r'" "mn_PasswordHash r' = mn_PasswordHash r"
    using assms(8) r(2) by blast
  obtain token where token: "issueSessionToken D inp' s1 (pn_ID node) 0 = Inr (token, 0)"
    "\<forall>now. authenticateSessionToken D (srv_magicKey s1) now token = Inr \<lparr>prop_User = pn_ID node, prop_Group = ''mesh''\<rparr>"
    using session_issued [OF assms(2,9,10,11) r(5) assms(12)] by blast
  let ?login = "\<lparr>nl_NodeID = pn_ID node, nl_MeshId = ri_MeshId resp, nl_MeshSecret = ri_MeshSecret resp\<rparr>"
  have "apiNodeLogin D inp' \<lparr>rpc_user = None, rpc_id = [], rpc_body = Some ?login\<rparr> s1 =
      (Inr (ReplyLogin \<lparr>nr_Token = token, nr_NodeID = pn_ID node, nr_Expires = 0\<rparr>), s1)"
    using login_ok [of D ?login s1 d r' inp' token 0] assms(1,6,7) r r' token(1) by simp
  moreover have "DoAuth (srv_auth s1) now (''Bearer '' @ token) = (Some \<lparr>prop_User = pn_ID node, prop_Group = ''mesh''\<rparr>, StatusOK)" for now
    using DoAuth_session [OF reach_auth [OF assms(3)] session_bearer(1) [OF token(1)]] token(2) by blast
  ultimately show thesis using session_bearer(2) [OF token(1)] r(5) by (intro that)
qed

section \<open>An example\<close>

text \<open>Encodings that are faithful on the values an example sends.\<close>

definition pick_codec :: "'v \<Rightarrow> 'v \<Rightarrow> (string, 'v) codec" where
  "pick_codec a b = \<lparr>Marshal = (\<lambda>v. Inr (if v = a then ''a'' else ''b'')), Unmarshal = (\<lambda>d. Inr (if d = ''a'' then a else b))\<rparr>"

definition no_codec :: "(string, 'v) codec" where
  "no_codec = \<lparr>Marshal = (\<lambda>v. Inl (GoErr ''json'')), Unmarshal = (\<lambda>d. Inl (GoErr ''json''))\<rparr>"

definition ex_wire :: "RegisterNodeRequest \<Rightarrow> RegisterNodeRequest \<Rightarrow> wire" where
  "ex_wire a b =
     \<lparr>w_register = pick_codec a b, w_node = no_codec, w_nodes = no_codec, w_relay = no_codec,
      w_login = pick_codec \<lparr>nl_NodeID = ''n1'', nl_MeshId = ''default'', nl_MeshSecret = ''72''\<rparr>
                  \<lparr>nl_NodeID = ''n1'', nl_MeshId = ''default'', nl_MeshSecret = ''72''\<rparr>,
      w_session = \<lparr>Marshal = (\<lambda>v. Inr (nr_Token v)),
                   Unmarshal = (\<lambda>d. Inr \<lparr>nr_Token = d, nr_NodeID = ''n1'', nr_Expires = 0\<rparr>)\<rparr>,
      w_invite = no_codec, w_invited = no_codec, w_invites = no_codec, w_admin_nodes = no_codec,
      w_redeem = pick_codec (ex_node ''n1'') (ex_node ''n1''), w_redeemed = pick_codec ex_credentials ex_credentials,
      w_ack = (\<lambda>r. [])\<rparr>"

definition ex_join_wire :: wire where
  "ex_join_wire = ex_wire \<lparr>rr_Node = NewPeerNode ''n1'' ''left'', rr_Token = [], rr_LogicalTime = 0, rr_LastUpdate = zero_time\<rparr>
                    (fst (register_locked ex_deps ex_inputs (NewPeerNode ''n1'' ''left'') ex_redeemed))"

definition ex_http :: "(nat \<times> (string \<times> doc) list Server) net_http" where
  "ex_http = admin_http ex_join_wire ex_deps (\<lambda>k. ex_inputs) ''http://a''"

definition ex_url :: URL where
  "ex_url = \<lparr>u_Scheme = ''http'', u_Host = ''a'', u_Path = ''/api/v1/redeem/75'',
             u_EscapedPath = ''/api/v1/redeem/75'', u_RawQuery = []\<rparr>"

lemma pick_faithful: "codec_faithful (pick_codec a b) a" "codec_faithful (pick_codec a b) b"
  by (simp_all add: codec_faithful_def pick_codec_def)

lemma ex_wire_faithful:
  "codec_faithful (w_register (ex_wire a b)) a" "codec_faithful (w_register (ex_wire a b)) b"
  "codec_faithful (w_login (ex_wire a b)) \<lparr>nl_NodeID = ''n1'', nl_MeshId = ''default'', nl_MeshSecret = ''72''\<rparr>"
  "codec_faithful (w_session (ex_wire a b)) \<lparr>nr_Token = token, nr_NodeID = ''n1'', nr_Expires = 0\<rparr>"
  "codec_faithful (w_redeem (ex_wire a b)) (ex_node ''n1'')"
  "codec_faithful (w_redeemed (ex_wire a b)) ex_credentials"
  by (simp_all add: ex_wire_def pick_faithful) (simp add: codec_faithful_def)

section \<open>Properties\<close>

text \<open>
  C30. Refreshing is exact. A client whose token the server accepts refreshes a registration over HTTP:
  the answer is "valid", with the server's logical time, if the server holds the node under
  this registration's token, and "no longer valid" otherwise. No error of the transport comes
  in between, and the client's registration does not change.
\<close>

theorem refresh_agrees_with_server:
  assumes "cl_rt c = admin_http W D inp (cl_Address c)" and "cl_token c \<noteq> []" and "url_safe (pn_ID (rg_node r))"
    and "DoAuth (srv_auth s) (in_auth_now (inp k)) (''Bearer '' @ cl_token c) = (Some u, StatusOK)"
    and "codec_faithful (w_register W) \<lparr>rr_Node = rg_node r, rr_Token = rg_token r, rr_LogicalTime = 0, rr_LastUpdate = zero_time\<rparr>"
    and "codec_faithful (w_register W) \<lparr>rr_Node = rg_node r, rr_Token = rg_token r,
           rr_LogicalTime = srv_logicalTime s, rr_LastUpdate = srv_lastUpdate s\<rparr>"
  shows "\<exists>s'. MeshClient_Refresh W c r (k, s) =
    (Inr (if rg_token r \<noteq> [] \<and> map_option ref_Token (srv_nodes s (pn_ID (rg_node r))) = Some (rg_token r)
          then (True, srv_logicalTime s) else (False, 0)), r, (Suc k, s'))"
proof (cases "registered_as s r")
  case True
  with client_refresh(1) [OF assms] show ?thesis
    by (auto simp: MeshClient_Refresh_def Registration_Refresh_def registered_as_def)
next
  case False
  with client_refresh(2) [OF assms] show ?thesis
    by (auto simp: MeshClient_Refresh_def Registration_Refresh_def registered_as_def)
qed

theorem refresh_agrees_with_server_witness:
  "let r = \<lparr>rg_node = ex_node ''n1'', rg_token = ''72''\<rparr>;
       W = ex_wire \<lparr>rr_Node = ex_node ''n1'', rr_Token = ''72'', rr_LogicalTime = 0, rr_LastUpdate = zero_time\<rparr>
                   \<lparr>rr_Node = ex_node ''n1'', rr_Token = ''72'', rr_LogicalTime = 1, rr_LastUpdate = 1000000000000\<rparr>;
       c = NewClient (admin_http W ex_deps (\<lambda>k. ex_inputs) ''http://a'') ''http://a'' ''secret''
   in \<exists>s'. MeshClient_Refresh W c r (0, ex_joined) = (Inr (True, 1), r, (1, s'))"
proof -
  let ?W = "ex_wire \<lparr>rr_Node = ex_node ''n1'', rr_Token = ''72'', rr_LogicalTime = 0, rr_LastUpdate = zero_time\<rparr>
                   \<lparr>rr_Node = ex_node ''n1'', rr_Token = ''72'', rr_LogicalTime = 1, rr_LastUpdate = 1000000000000\<rparr>"
  let ?c = "NewClient (admin_http ?W ex_deps (\<lambda>k. ex_inputs) ''http://a'') ''http://a'' ''secret''"
  have s: "DoAuth (srv_auth ex_joined) (in_auth_now ex_inputs) ''Bearer secret'' = (Some \<lparr>prop_User = ''admin'', prop_Group = ''admin''\<rparr>, StatusOK)"
    "map_option ref_Token (srv_nodes ex_joined ''n1'') = Some ''72''" "srv_logicalTime ex_joined = 1"
    "srv_lastUpdate ex_joined = 1000000000000" "url_safe (pn_ID (ex_node ''n1''))" "pn_ID (ex_node ''n1'') = ''n1''"
    by code_simp+
  show ?thesis
    using refresh_agrees_with_server [of ?c ?W ex_deps "\<lambda>k. ex_inputs" "\<lparr>rg_node = ex_node ''n1'', rg_token = ''72''\<rparr>" ex_joined 0
        "\<lparr>prop_User = ''admin'', prop_Group = ''admin''\<rparr>"] s
    by (simp add: NewClient_def ex_wire_faithful)
qed

text \<open>
  C31. An invited node becomes a member. The server accepts the redemption of an invite to the default
  mesh. Then, over HTTP, the client's \<open>RedeemInvite\<close> returns the credentials, logging in with them
  succeeds, and registering with the session that was obtained succeeds: the node is then
  registered under its name and admitted.
\<close>

theorem invited_node_becomes_member:
  assumes "available D" and "gcm_ok (dep_gcm D)" and "reach D n s"
    and "adminRedeemInviteLink D (inp k) \<lparr>rpc_user = None, rpc_id = i, rpc_body = Some node\<rparr> s = (Inr (ReplyRedeem resp), s1)"
    and "ri_MeshId resp = ''default''" and "ri_MeshSecret resp \<noteq> []" and "name \<noteq> []"
    and "http = admin_http W D inp (u_Scheme u @ ''://'' @ u_Host u)"
    and "url_Parse (add_slash (TrimSpace link)) = Inr u" and "u_Scheme u \<noteq> []" and "u_Host u \<noteq> []" and "u_Path u \<noteq> []"
    and "u_EscapedPath u = ''/api/v1/redeem/'' @ i" and "u_RawQuery u = []" and "url_safe i"
    and "\<forall>r d. Marshal (dep_node D) r = Inr d \<longrightarrow>
           (\<exists>r'. Unmarshal (dep_node D) d = Inr r' \<and> mn_PasswordHash r' = mn_PasswordHash r)"
    and "in_nonce (inp (Suc k)) = Inr nonce" and "length nonce = gcm_NonceSize" and "length (srv_magicKey s) = keySize"
    and "codec_faithful (dep_claims D) \<lparr>sc_NodeID = pn_ID node, sc_Expires = 0\<rparr>"
    and "codec_faithful (w_redeem W) node" and "codec_faithful (w_redeemed W) resp"
    and "codec_faithful (w_login W) \<lparr>nl_NodeID = pn_ID node, nl_MeshId = ''default'', nl_MeshSecret = ri_MeshSecret resp\<rparr>"
    and "\<forall>token. codec_faithful (w_session W) \<lparr>nr_Token = token, nr_NodeID = pn_ID node, nr_Expires = 0\<rparr>"
    and "codec_faithful (w_register W) \<lparr>rr_Node = NewPeerNode (pn_ID node) name, rr_Token = [], rr_LogicalTime = 0, rr_LastUpdate = zero_time\<rparr>"
    and "codec_faithful (w_register W) (fst (register_locked D (inp (Suc (Suc k))) (NewPeerNode (pn_ID node) name) s1))"
  shows "RedeemInvite W http url_Parse link node (k, s) = (Inr resp, (Suc k, s1)) \<and>
    (\<exists>c reg s2. Login W (Mesh ''default'') (pn_ID node) (ri_MeshSecret resp)
         (NewClient http (u_Scheme u @ ''://'' @ u_Host u) (ri_MeshSecret resp)) (Suc k, s1) = (None, c, (Suc (Suc k), s1)) \<and>
       MeshClient_Register W c name (pn_ID node) (Suc (Suc k), s1) = (Inr reg, (Suc (Suc (Suc k)), s2)) \<and>
       view s2 (pn_ID node) = Some (rg_node reg) \<and> pn_Name (rg_node reg) = name \<and> Has (srv_acl s2) (pn_ID node))"
proof -
  let ?i = "pn_ID node" and ?base = "u_Scheme u @ ''://'' @ u_Host u"
  let ?ctx = "\<lparr>rpc_user = None, rpc_id = i, rpc_body = Some node\<rparr>"
  let ?c = "NewClient http ?base (ri_MeshSecret resp)"
  have rt: "cl_rt (NewClient http ?base tok) = admin_http W D inp (cl_Address (NewClient http ?base tok))" for tok
    using assms(8) by (simp add: NewClient_def)
  note redeem = client_redeem [OF assms(4) rt [of "[]"] assms(15) assms(21,22)]
  obtain rq where "s1 = snd (routes D (inp k) rq s)" using redeem(2) by blast
  then have reach1: "reach D (Suc n) s1" using reach.request [OF assms(3)] by simp
  have "static s1 = static s" using redeem_static [of D "inp k" ?ctx s] assms(4) by simp
  then have key: "length (srv_magicKey s1) = keySize" using assms(19) by (simp add: static_def)
  obtain token where login: "apiNodeLogin D (inp (Suc k)) \<lparr>rpc_user = None, rpc_id = [],
         rpc_body = Some \<lparr>nl_NodeID = ?i, nl_MeshId = ''default'', nl_MeshSecret = ri_MeshSecret resp\<rparr>\<rparr> s1 =
       (Inr (ReplyLogin \<lparr>nr_Token = token, nr_NodeID = ?i, nr_Expires = 0\<rparr>), s1)"
    and token: "token \<noteq> []" and i: "?i \<noteq> []"
    and auth: "\<And>now. DoAuth (srv_auth s1) now (''Bearer '' @ token) = (Some \<lparr>prop_User = ?i, prop_Group = ''mesh''\<rparr>, StatusOK)"
    using redeemed_login [OF assms(1,2) reach1 assms(4) _ _ assms(6,16,17,18) key assms(20)] assms(5) by auto
  let ?c2 = "SetToken token ?c"
  have c2: "cl_token ?c2 = token" "cl_rt ?c2 = admin_http W D inp (cl_Address ?c2)"
    using assms(8) by (simp_all add: SetToken_def NewClient_def)
  have 1: "RedeemInvite W http url_Parse link node (k, s) = (Inr resp, (Suc k, s1))"
    using redeem(1) i assms(9-14) by (simp add: RedeemInvite_def parseInviteURL_def)
  have 2: "Login W (Mesh ''default'') ?i (ri_MeshSecret resp) ?c (Suc k, s1) = (None, ?c2, (Suc (Suc k), s1))"
    using client_login [of D inp "Suc k" ?i "Mesh ''default''" "ri_MeshSecret resp" s1 _ s1 ?c W] login rt assms(23,24)
    by (simp add: Mesh_def)
  obtain v s2 where v: "register_locked D (inp (Suc (Suc k))) (NewPeerNode ?i name) s1 = (v, s2)" by fastforce
  have has: "Has (srv_acl s1) ?i" using redeemed_admitted [OF assms(4)] by simp
  have "MeshClient_Register W ?c2 name ?i (Suc (Suc k), s1) =
      (Inr \<lparr>rg_node = rr_Node v, rg_token = rr_Token v\<rparr>, (Suc (Suc (Suc k)), s2))"
    using client_register [where c = ?c2, OF _ _ c2(2) i assms(7) has assms(25) _ v] auth token c2(1) assms(26) v by simp
  moreover have "view s2 ?i = Some (rr_Node v)" "pn_Name (rr_Node v) = name" "Has (srv_acl s2) ?i"
    using v has by (auto simp: register_locked_def Let_def view_def NewPeerNode_def Has_def)
  ultimately show ?thesis using 1 2 by (intro conjI exI [of _ ?c2] exI [of _ "\<lparr>rg_node = rr_Node v, rg_token = rr_Token v\<rparr>"] exI [of _ s2]) simp_all
qed

theorem invited_node_becomes_member_witness:
  "RedeemInvite ex_join_wire ex_http (\<lambda>raw. Inr ex_url) ''http:/a/api/v1/redeem/75'' (ex_node ''n1'') (0, ex_invited) =
     (Inr ex_credentials, (Suc 0, ex_redeemed)) \<and>
   (\<exists>c reg s2. Login ex_join_wire (Mesh ''default'') ''n1'' ''72'' (NewClient ex_http ''http://a'' ''72'') (Suc 0, ex_redeemed) =
        (None, c, (Suc (Suc 0), ex_redeemed)) \<and>
      MeshClient_Register ex_join_wire c ''left'' ''n1'' (Suc (Suc 0), ex_redeemed) = (Inr reg, (Suc (Suc (Suc 0)), s2)) \<and>
      view s2 ''n1'' = Some (rg_node reg) \<and> pn_Name (rg_node reg) = ''left'' \<and> Has (srv_acl s2) ''n1'')"
proof -
  have s: "pn_ID (ex_node ''n1'') = ''n1''" "ri_MeshId ex_credentials = ''default''" "ri_MeshSecret ex_credentials = ''72''"
    "length (srv_magicKey ex_invited) = keySize" "url_safe ''75''" by code_simp+
  have u: "u_Scheme ex_url @ ''://'' @ u_Host ex_url = ''http://a''" "u_Scheme ex_url \<noteq> []" "u_Host ex_url \<noteq> []"
    "u_Path ex_url \<noteq> []" "u_EscapedPath ex_url = ''/api/v1/redeem/'' @ ''75''" "u_RawQuery ex_url = []"
    by (simp_all add: ex_url_def)
  have http: "ex_http = admin_http ex_join_wire ex_deps (\<lambda>k. ex_inputs) (u_Scheme ex_url @ ''://'' @ u_Host ex_url)"
    unfolding u(1) by (rule ex_http_def)
  note codecs = ex_wire_faithful [where a = "\<lparr>rr_Node = NewPeerNode ''n1'' ''left'', rr_Token = [], rr_LogicalTime = 0, rr_LastUpdate = zero_time\<rparr>"
      and b = "fst (register_locked ex_deps ex_inputs (NewPeerNode ''n1'' ''left'') ex_redeemed)", folded ex_join_wire_def]
  have session: "\<forall>token. codec_faithful (w_session ex_join_wire) \<lparr>nr_Token = token, nr_NodeID = pn_ID (ex_node ''n1''), nr_Expires = 0\<rparr>"
    unfolding s(1) using codecs(4) by blast
  have secret: "ri_MeshSecret ex_credentials \<noteq> []" and name: "''left'' \<noteq> []" by (simp_all add: s(3))
  show ?thesis
    using invited_node_becomes_member [where inp = "\<lambda>k. ex_inputs" and k = 0, OF ex_available ex_gcm_ok ex_invited_reach
        ex_redeem_ok [unfolded ex_redeem_def] s(2) secret name http refl u(2-6) s(5) ex_hash_kept ex_nonce s(4)
        ex_claims_faithful codecs(5,6) _ session, unfolded s(1,3) u(1), OF codecs(3,1,2)] .
qed

end
