(* ===== verification/PeerLoop.thy ===== *)
theory PeerLoop
  imports DiscoveryRounds ClientServer
begin

text \<open>
  The manager of \<open>pkg/mesh/discovery.go\<close> with its calls: \<open>register_loop\<close> is the loop at the head of \<open>listenForPeerUpdates\<close>, \<open>turn\<close> one
  turn of the loop after it, making the calls of the API client one after the other and handing what they return to \<open>poll\<close>.
  The transport of the client has a state of its own; over \<open>admin_http\<close> it is the admin server. The sleeps are left out.
\<close>

section \<open>The manager\<close>

record ('s, 'u) DiscoveryManager =
  dm_admin :: "'s Client"
  dm_selfID :: string          \<comment> \<open>\<open>h.ID().String()\<close>\<close>
  dm_node :: Node
  dm_MDNSEnabled :: bool
  dm_onUpdate :: "(Node \<Rightarrow> bool \<Rightarrow> 'u \<Rightarrow> goerr option \<times> 'u) option"

definition NewDiscoveryManager :: "'s Client \<Rightarrow> string \<Rightarrow> Node \<Rightarrow> bool \<Rightarrow> ('s, 'u) DiscoveryManager" where
  "NewDiscoveryManager a h_ID node MDNSEnabled =
     \<lparr>dm_admin = a, dm_selfID = h_ID, dm_node = node, dm_MDNSEnabled = MDNSEnabled, dm_onUpdate = None\<rparr>"

definition UpdateHandler ::
  "(Node \<Rightarrow> bool \<Rightarrow> 'u \<Rightarrow> goerr option \<times> 'u) \<Rightarrow> ('s, 'u) DiscoveryManager \<Rightarrow> ('s, 'u) DiscoveryManager" where
  "UpdateHandler onUpdate M = M\<lparr>dm_onUpdate := Some onUpdate\<rparr>"

text \<open>\<open>Serve\<close> starts its goroutines and waits for the context.\<close>

datatype discovery_task = ListenForMeshEvents | ListenForPeerUpdates | StartMDNS

definition Discovery_Serve :: "('s, 'u) DiscoveryManager \<Rightarrow> bool \<Rightarrow> discovery_task list \<times> goerr option option" where
  "Discovery_Serve M done =
     ([ListenForMeshEvents, ListenForPeerUpdates] @ (if dm_MDNSEnabled M then [StartMDNS] else []),
      if done then Some None else None)"

section \<open>The loop\<close>

partial_function (option) register_loop :: "('s \<Rightarrow> Registration result \<times> 's) \<Rightarrow> 's \<Rightarrow> (Registration \<times> 's) option" where
  "register_loop attempt s =
     (case attempt s of
        (Inl e, s') \<Rightarrow> register_loop attempt s'
      | (Inr registration, s') \<Rightarrow> Some (registration, s'))"

definition turn ::
  "wire \<Rightarrow> ('s, 'u) DiscoveryManager \<Rightarrow> (peer_map \<Rightarrow> peer_map) \<Rightarrow> disc \<times> 'u \<Rightarrow> 's \<Rightarrow> (disc \<times> 'u) result \<times> 's" where
  "turn W M ord st s =
     (let c = dm_admin M; d = fst st;
          go = poll ord (dm_selfID M) (dm_onUpdate M);
          (refresh, s1) = refresh_call W c (ds_reg d) s;
          answers = \<lparr>pi_refresh = refresh, pi_register = Inl (GoErr []), pi_peers = Inl (GoErr [])\<rparr>
      in (case fst (Registration_Refresh refresh (ds_reg d)) of
            Inl e \<Rightarrow> (go answers st, s1)
          | Inr (valid, logicalTime) \<Rightarrow>
              if \<not> valid then
                (let (register, s2) = register_call W c (pn_Name (dm_node M)) (pn_ID (dm_node M)) s1
                 in (go (answers\<lparr>pi_register := register\<rparr>) st, s2))
              else if dm_onUpdate M \<noteq> None \<and> ds_last d \<noteq> logicalTime then
                (let (peers, s2) = GetPeers_call W c s1
                 in (go (answers\<lparr>pi_peers := peers\<rparr>) st, s2))
              else (go answers st, s1)))"

text \<open>The first \<open>m\<close> turns of \<open>listenForPeerUpdates\<close>.\<close>

fun turns ::
  "nat \<Rightarrow> wire \<Rightarrow> ('s, 'u) DiscoveryManager \<Rightarrow> (peer_map \<Rightarrow> peer_map) \<Rightarrow> disc \<times> 'u \<Rightarrow> 's \<Rightarrow> (disc \<times> 'u) result \<times> 's" where
  "turns 0 W M ord st s = (Inr st, s)"
| "turns (Suc m) W M ord st s =
     (case turn W M ord st s of (Inl e, s') \<Rightarrow> (Inl e, s') | (Inr st', s') \<Rightarrow> turns m W M ord st' s')"

definition listenForPeerUpdates ::
  "nat \<Rightarrow> wire \<Rightarrow> ('s, 'u) DiscoveryManager \<Rightarrow> (peer_map \<Rightarrow> peer_map) \<Rightarrow> 'u \<Rightarrow> 's \<Rightarrow> ((disc \<times> 'u) result \<times> 's) option" where
  "listenForPeerUpdates m W M ord u s =
     (case register_loop (MeshClient_Register W (dm_admin M) (pn_Name (dm_node M)) (pn_ID (dm_node M))) s of
        None \<Rightarrow> None
      | Some (registration, s') \<Rightarrow> Some (turns m W M ord (\<lparr>ds_reg = registration, ds_last = 0, ds_peers = []\<rparr>, u) s'))"

section \<open>Lemmas\<close>

lemma register_loop_ends:
  assumes "fst (attempt (((\<lambda>s. snd (attempt s)) ^^ j) s)) = Inr r"
  shows "register_loop attempt s \<noteq> None"
  using assms
proof (induction j arbitrary: s)
  case 0
  then show ?case by (subst register_loop.simps) (auto split: prod.splits)
next
  case (Suc j)
  have "register_loop attempt (snd (attempt s)) \<noteq> None"
    using Suc by (simp add: funpow_Suc_right del: funpow.simps)
  then show ?case by (subst register_loop.simps) (auto split: prod.splits sum.splits)
qed

lemma register_loop_result:
  "register_loop attempt s = Some y \<Longrightarrow> \<exists>j. attempt (((\<lambda>s. snd (attempt s)) ^^ j) s) = (Inr (fst y), snd y)"
proof (induction rule: register_loop.raw_induct [rotated, consumes 1, case_names step])
  case (step f attempt s y)
  show ?case
  proof (cases "attempt s")
    case (Pair r s')
    show ?thesis
    proof (cases r)
      case (Inl e)
      then obtain j where "attempt (((\<lambda>s. snd (attempt s)) ^^ j) s') = (Inr (fst y), snd y)"
        using step(1) [of attempt s' y] step(2) Pair by auto
      then show ?thesis using Pair by (intro exI [of _ "Suc j"]) (simp add: funpow_Suc_right del: funpow.simps)
    next
      case (Inr x)
      then show ?thesis using step(2) Pair by (intro exI [of _ 0]) auto
    qed
  qed
qed

text \<open>The list the server sends is its membership.\<close>

lemma listing_view:
  assumes "fst (apiNodeList inp ctx s) = Inr (ReplyNodes ns)" and "visits_all inp s"
    and own: "\<And>i ref. srv_nodes s i = Some ref \<Longrightarrow> pn_ID (ref_Node ref) = i"
  shows "map_of (listing ns) = view s"
proof -
  have ns: "ns = map (\<lambda>i. ref_Node (the (srv_nodes s i))) (filter (\<lambda>i. srv_nodes s i \<noteq> None) (in_range inp))"
    using assms(1) by (simp add: apiNodeList_def)
  have "map pn_ID ns = filter (\<lambda>i. srv_nodes s i \<noteq> None) (in_range inp)"
    unfolding ns map_map by (rule map_idI) (use own in auto)
  then have "distinct (map pn_ID ns)" using assms(2) by (simp add: visits_all_def)
  note look = listing_distinct [OF this]
  have "n \<in> set ns \<and> pn_ID n = i \<longleftrightarrow> view s i = Some n" for i n
    using assms(2) own unfolding ns by (force simp: visits_all_def view_def dom_def)
  then show ?thesis using look by (metis not_None_eq ext)
qed

text \<open>A turn that finds the registration lost, and one that finds a new time.\<close>

lemma turn_lost:
  assumes "refresh_call W (dm_admin M) (ds_reg d) s = (Inl e, s1)" and "contains (Error_string e) ''409''"
    and "register_call W (dm_admin M) (pn_Name (dm_node M)) (pn_ID (dm_node M)) s1 = (Inr v, s2)"
  shows "turn W M ord (d, u) s = (Inr (d\<lparr>ds_reg := \<lparr>rg_node = rr_Node v, rg_token = rr_Token v\<rparr>, ds_last := 0\<rparr>, u), s2)"
  using assms by (simp add: turn_def poll_def Registration_Refresh_def Register_def)

lemma turn_changed:
  assumes "refresh_call W (dm_admin M) (ds_reg d) s = (Inr v, s1)" and "dm_onUpdate M = Some f"
    and "ds_last d \<noteq> rr_LogicalTime v" and "GetPeers_call W (dm_admin M) s1 = (Inr ns, s2)"
  shows "turn W M ord (d, u) s =
    (poll ord (dm_selfID M) (Some f) \<lparr>pi_refresh = Inr v, pi_register = Inl (GoErr []), pi_peers = Inr ns\<rparr> (d, u), s2)"
  using assms by (simp add: turn_def Registration_Refresh_def)

lemma poll_reg:
  assumes "pi_refresh inp = Inr v" and "poll ord selfID onUpdate inp (d, s) = Inr (d', s')"
  shows "ds_reg d' = (ds_reg d)\<lparr>rg_token := rr_Token v\<rparr>"
  using assms
  by (auto simp: poll_def Registration_Refresh_def sync_def Let_def split: option.splits sum.splits if_splits prod.splits)

section \<open>Losing and regaining the registration\<close>

text \<open>The messages of the exchange, for which the JSON codec must be faithful.\<close>

definition refresh_messages :: "'db Server \<Rightarrow> Registration \<Rightarrow> RegisterNodeRequest list" where
  "refresh_messages s r =
     [\<lparr>rr_Node = rg_node r, rr_Token = rg_token r, rr_LogicalTime = 0, rr_LastUpdate = zero_time\<rparr>,
      \<lparr>rr_Node = rg_node r, rr_Token = rg_token r, rr_LogicalTime = srv_logicalTime s, rr_LastUpdate = srv_lastUpdate s\<rparr>]"

abbreviation granted :: "RegisterNodeRequest \<Rightarrow> Registration" where
  "granted v \<equiv> \<lparr>rg_node = rr_Node v, rg_token = rr_Token v\<rparr>"

text \<open>What a client with a session needs to call the server, and the server's answer to a registration.\<close>

definition logged_in :: "wire \<Rightarrow> ('db, 'd) deps \<Rightarrow> (nat \<Rightarrow> inputs) \<Rightarrow> Properties \<Rightarrow> 'db Server \<Rightarrow> (nat \<times> 'db Server, 'u) DiscoveryManager \<Rightarrow> bool" where
  "logged_in W D inp u s M \<longleftrightarrow>
     cl_rt (dm_admin M) = admin_http W D inp (cl_Address (dm_admin M)) \<and> cl_token (dm_admin M) \<noteq> [] \<and>
     (\<forall>j. DoAuth (srv_auth s) (in_auth_now (inp j)) (''Bearer '' @ cl_token (dm_admin M)) = (Some u, StatusOK)) \<and>
     url_safe (pn_ID (dm_node M)) \<and> pn_Name (dm_node M) \<noteq> []"

definition register_messages :: "Node \<Rightarrow> RegisterNodeRequest \<Rightarrow> 'db Server \<Rightarrow> RegisterNodeRequest list" where
  "register_messages node v s1 =
     [v, \<lparr>rr_Node = NewPeerNode (pn_ID node) (pn_Name node), rr_Token = [], rr_LogicalTime = 0, rr_LastUpdate = zero_time\<rparr>]
     @ refresh_messages s1 (granted v)"

lemma registers:
  assumes "logged_in W D inp u s M" and "Has (srv_acl s) (pn_ID (dm_node M))"
    and "register_locked D (inp k) (NewPeerNode (pn_ID (dm_node M)) (pn_Name (dm_node M))) s = (v, s1)"
    and "\<forall>x \<in> set (register_messages (dm_node M) v s1). codec_faithful (w_register W) x"
  shows "register_call W (dm_admin M) (pn_Name (dm_node M)) (pn_ID (dm_node M)) (k, s) = (Inr v, (Suc k, s1))"
proof -
  have "pn_ID (dm_node M) \<noteq> []" using assms(1) url_safe_segment by (auto simp: logged_in_def)
  then show ?thesis
    using client_register_call [of s inp k "dm_admin M" u W D "pn_ID (dm_node M)" "pn_Name (dm_node M)" v s1] assms
    by (auto simp: logged_in_def register_messages_def)
qed

lemma registered_state:
  assumes "register_locked D inp (NewPeerNode i name) s = (v, s1)"
  shows "srv_nodes s1 i = Some \<lparr>ref_Node = rr_Node v, ref_Token = rr_Token v, ref_LastPing = in_now2 inp\<rparr>"
    and "pn_ID (rr_Node v) = i" and "rr_Token v = newNodeToken D inp" and "srv_logicalTime s1 = srv_logicalTime s + 1"
    and "srv_auth s1 = srv_auth s"
  using assms by (auto simp: register_locked_def NewPeerNode_def Let_def)

lemma registered_time:
  assumes "reach D n s" and "Suc n < 2 ^ 64" and "register_locked D inp (NewPeerNode i name) s = (v, s1)"
  shows "srv_logicalTime s1 \<noteq> 0"
proof -
  have "clock_inv n (mem_abs s)" using reach_clock [OF assms(1)] assms(2) by simp
  then have "srv_logicalTime s < srv_logicalTime s + 1" using tick(2) [OF _ assms(2)] by (simp add: mem_abs_def)
  then show ?thesis unfolding registered_state(4) [OF assms(3)] by (metis word_not_simps(1))
qed

lemma registered_own:
  assumes "reach D n s" and "register_locked D inp (NewPeerNode j name) s = (v, s1)" and "srv_nodes s1 i = Some ref"
  shows "pn_ID (ref_Node ref) = i"
proof (cases "i = j")
  case True
  then show ?thesis using assms(2,3) by (auto simp: register_locked_def NewPeerNode_def Let_def)
next
  case False
  then have "view s i = Some (ref_Node ref)" using assms(2,3) by (auto simp: register_locked_def NewPeerNode_def view_def Let_def)
  then show ?thesis using reach_members [OF assms(1)] by (auto simp: mem_abs_def)
qed

lemma pinged_listing:
  assumes "srv_nodes s i \<noteq> None"
  shows "view (pinged inp i s) = view s" and "fst (apiNodeList inp' ctx (pinged inp i s)) = fst (apiNodeList inp' ctx s)"
proof -
  have "ref_Node (the (srv_nodes (pinged inp i s) j)) = ref_Node (the (srv_nodes s j))"
    "(srv_nodes (pinged inp i s) j \<noteq> None) = (srv_nodes s j \<noteq> None)" for j using assms by simp_all
  then show "fst (apiNodeList inp' ctx (pinged inp i s)) = fst (apiNodeList inp' ctx s)" by (simp only: apiNodeList_def fst_conv)
  show "view (pinged inp i s) = view s" using assms by (auto simp: view_def)
qed

text \<open>The turn after a registration: the time has changed, so the list is fetched and compared.\<close>

definition learned :: "disc \<Rightarrow> 'db Server \<Rightarrow> bool" where
  "learned d s \<longleftrightarrow>
     (\<forall>i n. view s i = Some n \<longrightarrow> stamp (ds_peers d) i = Some (pn_LogicalTime n)) \<and>
     (ds_last d = srv_logicalTime s \<longrightarrow> map_of (ds_peers d) = view s)"

lemma turn_after_registration:
  assumes "reach D n s" and "Suc n < 2 ^ 64" and "logged_in W D inp u s M"
    and "register_locked D inp0 (NewPeerNode (pn_ID (dm_node M)) (pn_Name (dm_node M))) s = (v, s1)" and "rr_Token v \<noteq> []"
    and "\<forall>x \<in> set (register_messages (dm_node M) v s1). codec_faithful (w_register W) x"
    and "dm_onUpdate M = Some f" and "is_iter ord" and "keyed (ds_peers d)" and "visits_all (inp (Suc k)) s1"
    and "fst (apiNodeList (inp (Suc k)) \<lparr>rpc_user = Some u, rpc_id = [], rpc_body = None :: unit option\<rparr> s1) = Inr (ReplyNodes ns)"
    and "codec_faithful (w_nodes W) ns" and "ds_reg d = granted v" and "ds_last d = 0"
  shows "\<exists>d' st'. turn W M ord (d, st) (k, s1) = (Inr (d', st'), (k + 2, pinged (inp k) (pn_ID (dm_node M)) s1)) \<and>
    ds_reg d' = granted v \<and> learned d' (pinged (inp k) (pn_ID (dm_node M)) s1)"
proof -
  let ?i = "pn_ID (dm_node M)" and ?resp = "\<lparr>rr_Node = rr_Node v, rr_Token = rr_Token v, rr_LogicalTime = srv_logicalTime s1, rr_LastUpdate = srv_lastUpdate s1\<rparr>"
  let ?s2 = "pinged (inp k) ?i s1" and ?in = "\<lparr>pi_refresh = Inr ?resp, pi_register = Inl (GoErr []), pi_peers = Inr ns\<rparr>"
  note s1 = registered_state [OF assms(4)] and time = registered_time [OF assms(1,2,4)]
  have li: "cl_rt (dm_admin M) = admin_http W D inp (cl_Address (dm_admin M))" "cl_token (dm_admin M) \<noteq> []" "url_safe ?i"
    "DoAuth (srv_auth s1) (in_auth_now (inp j)) (''Bearer '' @ cl_token (dm_admin M)) = (Some u, StatusOK)" for j
    using assms(3) s1(5) by (simp_all add: logged_in_def)
  have held: "registered_as s1 (granted v)" using s1(1,2) assms(5) by (simp add: registered_as_def)
  have refresh: "refresh_call W (dm_admin M) (ds_reg d) (k, s1) = (Inr ?resp, (Suc k, ?s2))"
    using client_refresh(1) [OF li(1,2) _ li(4) _ _ held] li(3) s1(2) assms(6,13) by (simp add: register_messages_def refresh_messages_def)
  have listed: "srv_nodes s1 ?i \<noteq> None" using s1(1) by simp
  note view2 = pinged_listing(1) [OF listed] and list2 = trans [OF pinged_listing(2) [OF listed] assms(11)]
  have peers: "GetPeers_call W (dm_admin M) (Suc k, ?s2) = (Inr ns, (k + 2, ?s2))"
    using client_peers [OF li(1,2) _ list2 assms(12)] li(4) by simp
  have t: "turn W M ord (d, st) (k, s1) = (poll ord (dm_selfID M) (Some f) ?in (d, st), (k + 2, ?s2))"
    by (rule turn_changed [OF refresh assms(7) _ peers]) (use assms(14) time in simp)
  obtain d' st' where p: "poll ord (dm_selfID M) (Some f) ?in (d, st) = Inr (d', st')"
    using poll_total [OF assms(8,9), of "dm_selfID M" "Some f" ?in st] by blast
  have reg: "ds_reg d' = granted v" using poll_reg [OF _ p] assms(13) by simp
  have ans: "answered ?in (srv_logicalTime s1) ns" "ds_last d \<noteq> srv_logicalTime s1" using assms(14) time by (simp_all add: answered_def)
  note round = poll_round [OF assms(8,9) ans p] and lv = listing_view [OF assms(11,10) registered_own [OF assms(1,4)]]
  have "learned d' ?s2"
    unfolding learned_def view2 using round(2,4) lv assms(14) time by (auto simp: stamp_def)
  then show ?thesis using t p reg by auto
qed

text \<open>A node that starts: it is registered by the first attempt and knows the members after the first turn.\<close>

lemma started_node_learns_members:
  assumes "reach D n s" and "Suc n < 2 ^ 64" and "logged_in W D inp u s M" and "Has (srv_acl s) (pn_ID (dm_node M))"
    and "register_locked D (inp k) (NewPeerNode (pn_ID (dm_node M)) (pn_Name (dm_node M))) s = (v, s1)" and "rr_Token v \<noteq> []"
    and "\<forall>x \<in> set (register_messages (dm_node M) v s1). codec_faithful (w_register W) x"
    and "dm_onUpdate M = Some f" and "is_iter ord" and "visits_all (inp (k + 2)) s1"
    and "fst (apiNodeList (inp (k + 2)) \<lparr>rpc_user = Some u, rpc_id = [], rpc_body = None :: unit option\<rparr> s1) = Inr (ReplyNodes ns)"
    and "codec_faithful (w_nodes W) ns"
  shows "\<exists>d' st' s2. listenForPeerUpdates 1 W M ord st (k, s) = Some (Inr (d', st'), (k + 3, s2)) \<and>
    view s2 (pn_ID (dm_node M)) = Some (rr_Node v) \<and> learned d' s2"
proof -
  have "register_loop (MeshClient_Register W (dm_admin M) (pn_Name (dm_node M)) (pn_ID (dm_node M))) (k, s) = Some (granted v, (Suc k, s1))"
    by (subst register_loop.simps) (simp add: MeshClient_Register_def Register_def registers [OF assms(3,4,5,7)])
  moreover have "Suc (Suc k) = k + 2" by simp
  moreover have "srv_nodes s1 (pn_ID (dm_node M)) \<noteq> None" "view s1 (pn_ID (dm_node M)) = Some (rr_Node v)"
    using registered_state [OF assms(5)] by (simp_all add: view_def)
  ultimately show ?thesis
    using turn_after_registration [OF assms(1,2,3,5,6,7,8,9), of "\<lparr>ds_reg = granted v, ds_last = 0, ds_peers = []\<rparr>" "Suc k" ns st]
      assms(10-12) pinged_listing(1) [of s1 "pn_ID (dm_node M)"] keyed_Nil
    by (auto simp: listenForPeerUpdates_def numeral_eq_Suc)
qed

section \<open>An example\<close>

text \<open>The server after a restart: node n1 is admitted but not registered; it comes with an old registration.\<close>

definition list_codec :: "'v list \<Rightarrow> (string, 'v) codec" where
  "list_codec vs =
     \<lparr>Marshal = (\<lambda>v. Inr (replicate (length (takeWhile (\<lambda>w. w \<noteq> v) vs)) (CHR ''x''))), Unmarshal = (\<lambda>d. Inr (vs ! length d))\<rparr>"

lemma list_codec_faithful: "v \<in> set vs \<Longrightarrow> codec_faithful (list_codec vs) v"
  by (induction vs) (auto simp: codec_faithful_def list_codec_def)

definition ex_restarted :: "(string \<times> doc) list Server" where
  "ex_restarted = snd (routes ex_deps ex_inputs (ex_authorize ''n1'') ex_server)"

definition ex_regained :: "RegisterNodeRequest \<times> (string \<times> doc) list Server" where
  "ex_regained = register_locked ex_deps ex_inputs (NewPeerNode ''n1'' ''left'') ex_restarted"

definition ex_old :: Registration where
  "ex_old = \<lparr>rg_node = ex_node ''n1'', rg_token = ''old''\<rparr>"

definition ex_loop_wire :: wire where
  "ex_loop_wire = ex_join_wire
     \<lparr>w_register := list_codec (refresh_messages ex_restarted ex_old @ refresh_messages (snd ex_regained) (granted (fst ex_regained)) @
        [fst ex_regained, \<lparr>rr_Node = NewPeerNode ''n1'' ''left'', rr_Token = [], rr_LogicalTime = 0, rr_LastUpdate = zero_time\<rparr>]),
      w_nodes := list_codec [[rr_Node (fst ex_regained)]]\<rparr>"

definition ex_manager :: "(nat \<times> (string \<times> doc) list Server, nat) DiscoveryManager" where
  "ex_manager = UpdateHandler (\<lambda>n b st. (None, Suc st))
     (NewDiscoveryManager (NewClient (admin_http ex_loop_wire ex_deps (\<lambda>k. ex_inputs) ''http://a'') ''http://a'' ''secret'')
        ''n1'' (ex_node ''n1'') False)"

lemma ex_restarted_facts:
  "reach ex_deps (Suc 0) ex_restarted" "srv_nodes ex_restarted = Map.empty" "Has (srv_acl ex_restarted) ''n1''"
  "DoAuth (srv_auth ex_restarted) (in_auth_now ex_inputs) ''Bearer secret'' = (Some \<lparr>prop_User = ''admin'', prop_Group = ''admin''\<rparr>, StatusOK)"
proof -
  show "reach ex_deps (Suc 0) ex_restarted" unfolding ex_restarted_def by (rule reach.request [OF ex_start])
  show "srv_nodes ex_restarted = Map.empty"
    by (simp add: ex_restarted_def routes_def method_is_def id_under_def ex_authorize_def ex_request_def handle_def authenticated_def
        apiNodeAuthorize_def ex_server_def ex_server_key_def acl_Add_def Let_def split: option.splits prod.splits sum.splits)
  show "Has (srv_acl ex_restarted) ''n1''" by code_simp
  show "DoAuth (srv_auth ex_restarted) (in_auth_now ex_inputs) ''Bearer secret'' = (Some \<lparr>prop_User = ''admin'', prop_Group = ''admin''\<rparr>, StatusOK)"
    by code_simp
qed

section \<open>Properties\<close>



end
