(* ===== verification/MeshService.thy ===== *)
theory MeshService
  imports Config StreamWriter MeshHelpers PeerLoop
begin

text \<open>
  The mesh service of a node: \<open>pkg/mesh/service.go\<close> and \<open>mdns.go\<close>. The libp2p host is the record \<open>host\<close> with a state of the
  network; the \<open>Service\<close> is a record of its own, with the discovery manager in it, so an operation acts on a pair of both.
  The handler of requests from the mesh and the handler of peer updates act on a state \<open>'u\<close> of the application.
  \<open>ProxyToNode\<close> sends a request to a peer, \<open>streamHandler\<close> serves one that arrives. The HTTP encoding of requests and
  responses on a stream (\<open>Request.Write\<close>, \<open>http.ReadResponse\<close>, \<open>http.ReadRequest\<close>) is an input of the two.
\<close>

section \<open>Data\<close>

text \<open>A request read from a stream, and what a handler does with it.\<close>

record stream_request =
  sr_RemoteAddr :: string
  sr_Header :: Header
  sr_request :: proxy_request

type_synonym 'u handler = "stream_request \<Rightarrow> 'u \<Rightarrow> writer_call list \<times> 'u"

text \<open>The field \<open>res\<close> is never used.\<close>

record ('s, 'u) Service =
  sv_node :: Node
  sv_relayInfo :: "AddrInfo list"
  sv_admin :: "'s Client"
  sv_peers :: "string \<rightharpoonup> string"
  sv_handler :: "'u handler"
  sv_config :: MeshConfig
  sv_discovery :: "('s, 'u) DiscoveryManager"

definition Service_Node :: "('s, 'u) Service \<Rightarrow> Node" where
  "Service_Node m = sv_node m"

definition Service_WithHandlerFunc :: "'u handler \<Rightarrow> ('s, 'u) Service \<Rightarrow> ('s, 'u) Service" where
  "Service_WithHandlerFunc h m = m\<lparr>sv_handler := h\<rparr>"

definition Service_WithUpdateHandlerFunc ::
  "(Node \<Rightarrow> bool \<Rightarrow> 'u \<Rightarrow> goerr option \<times> 'u) \<Rightarrow> ('s, 'u) Service \<Rightarrow> ('s, 'u) Service" where
  "Service_WithUpdateHandlerFunc h m = m\<lparr>sv_discovery := UpdateHandler h (sv_discovery m)\<rparr>"

definition Service_Close :: "'h host \<Rightarrow> 'h \<Rightarrow> goerr option \<times> 'h" where
  "Service_Close H h = h_Close H h"

section \<open>Dialling\<close>

definition connectNode ::
  "libp2p \<Rightarrow> 'h host \<Rightarrow> string \<Rightarrow> ('s, 'u) Service \<times> 'h \<Rightarrow> string result \<times> ('s, 'u) Service \<times> 'h" where
  "connectNode L H destNode ms =
     (let (m, h) = ms in
      (case sv_peers m destNode of
         Some destID \<Rightarrow> (Inr destID, m, h)
       | None \<Rightarrow>
           (case sv_relayInfo m of
              [] \<Rightarrow> (Inl (GoPanic ''index out of range''), m, h)
            | relay # _ \<Rightarrow>
                (let (r, h') = AddDestViaRelay L H relay destNode h in
                 (case r of
                    Inl e \<Rightarrow> (Inl e, m, h')
                  | Inr destID \<Rightarrow> (Inr destID, m\<lparr>sv_peers := (sv_peers m)(destNode \<mapsto> destID)\<rparr>, h'))))))"

definition clearDialBackoff :: "'h host \<Rightarrow> string \<Rightarrow> 'h \<Rightarrow> 'h" where
  "clearDialBackoff H i h = (case h_ClearBackoff H of None \<Rightarrow> h | Some clear \<Rightarrow> clear i h)"

definition transient_texts :: "string list" where
  "transient_texts =
     [''dial backoff'', ''all dials failed'', ''failed to dial'', ''no addresses'', ''NO_RESERVATION'',
      ''connection refused'', ''connection reset'', ''i/o timeout'', ''timed out'', ''deadline exceeded'',
      ''transient connection'', ''limited connection'',
      ''we don'' @ [CHR 0x27] @ ''t have a connection to peer'', ''stream reset'']"

definition isTransientDialErr :: "goerr \<Rightarrow> goerr option \<Rightarrow> bool" where
  "isTransientDialErr ErrDialBackoff err =
     (case err of
        None \<Rightarrow> False
      | Some e \<Rightarrow> e = ErrDialBackoff \<or> list_ex (contains (Error_string e)) transient_texts)"

definition no_direct :: "string \<Rightarrow> goerr" where
  "no_direct dest = GoErr (''no direct connection to '' @ dest @ '' available (waiting for hole-punch)'')"

definition openStreamDirect ::
  "'h host \<Rightarrow> dial_ctx \<Rightarrow> string \<Rightarrow> string \<Rightarrow> 'h \<Rightarrow> Stream result \<times> 'h" where
  "openStreamDirect H ctx dest proto s =
     (if list_ex (\<lambda>c. \<not> cn_Limited c) (h_ConnsToPeer H s dest) then h_NewStream H ctx dest proto s
      else
        (let (err, s1) = h_Connect H (ctx\<lparr>cx_ForceDirect := True\<rparr>) \<lparr>ai_ID = dest, ai_Addrs = []\<rparr> s in
         (case err of
            Some e \<Rightarrow> (Inl e, s1)
          | None \<Rightarrow>
              if list_ex (\<lambda>c. \<not> cn_Limited c) (h_ConnsToPeer H s1 dest) then h_NewStream H ctx dest proto s1
              else (Inl (no_direct dest), s1))))"

definition openStream ::
  "'h host \<Rightarrow> dial_ctx \<Rightarrow> string \<Rightarrow> bool \<Rightarrow> string \<Rightarrow> 'h \<Rightarrow> Stream result \<times> 'h" where
  "openStream H ctx dest longLived proto s =
     (let (r, s1) = openStreamDirect H ctx dest proto s in
      (case r of
         Inr stream \<Rightarrow> (Inr stream, s1)
       | Inl _ \<Rightarrow>
           (let anyCtx = ctx\<lparr>cx_AllowLimited := True\<rparr>; (err, s2) = h_Connect H anyCtx \<lparr>ai_ID = dest, ai_Addrs = []\<rparr> s1 in
            (if err = None \<and> \<not> longLived then h_NewStream H anyCtx dest proto s2
             else (Inl (no_direct dest), s2)))))"

definition Service_NewStream ::
  "libp2p \<Rightarrow> 'h host \<Rightarrow> string \<Rightarrow> bool \<Rightarrow> string \<Rightarrow> ('s, 'u) Service \<times> 'h \<Rightarrow> Stream result \<times> ('s, 'u) Service \<times> 'h" where
  "Service_NewStream L H destNode longLived proto ms =
     (let (r, m, h) = connectNode L H destNode ms in
      (case r of
         Inl e \<Rightarrow> (Inl e, m, h)
       | Inr destID \<Rightarrow> (let (stream, h') = openStream H background destID longLived proto h in (stream, m, h'))))"

text \<open>
  \<open>ClientForPeer\<close>: the peer's id is looked up when the client is made, its \<open>DialContext\<close> opens a stream
  for every connection the HTTP client needs.
\<close>

record 'h peer_client =
  pcl_DialContext :: "dial_ctx \<Rightarrow> 'h \<Rightarrow> conn result \<times> 'h"
  pcl_Timeout :: int          \<comment> \<open>in seconds\<close>

definition ClientForPeer_dial ::
  "'h host \<Rightarrow> string \<Rightarrow> bool \<Rightarrow> dial_ctx \<Rightarrow> 'h \<Rightarrow> conn result \<times> 'h" where
  "ClientForPeer_dial H destID longLived ctx s =
     (let (r, s') = openStream H ctx destID longLived OllamaProtocol s in
      (case r of Inl e \<Rightarrow> (Inl e, s') | Inr stream \<Rightarrow> (Inr (st_conn stream), s')))"

definition ClientForPeer ::
  "libp2p \<Rightarrow> 'h host \<Rightarrow> Node \<Rightarrow> bool \<Rightarrow> ('s, 'u) Service \<times> 'h \<Rightarrow> 'h peer_client result \<times> ('s, 'u) Service \<times> 'h" where
  "ClientForPeer L H peer longLived ms =
     (let (r, ms') = connectNode L H (pn_ID peer) ms in
      (case r of
         Inl e \<Rightarrow> (Inl e, ms')
       | Inr destID \<Rightarrow> (Inr \<lparr>pcl_DialContext = ClientForPeer_dial H destID longLived, pcl_Timeout = 45\<rparr>, ms')))"

section \<open>Requests\<close>

record peer_response =
  pz_StatusCode :: int
  pz_Header :: Header
  pz_Body :: "string \<times> goerr option"

record stream_io =
  io_write :: "goerr option"
  io_response :: "peer_response result"

record http_reply =
  hp_status :: int
  hp_header :: Header
  hp_body :: string

definition http_Error :: "string \<Rightarrow> int \<Rightarrow> http_reply" where
  "http_Error msg code =
     \<lparr>hp_status = code,
      hp_header = [(''Content-Type'', [''text/plain; charset=utf-8'']), (''X-Content-Type-Options'', [''nosniff''])],
      hp_body = msg @ [CHR 0x0A]\<rparr>"

text \<open>The header loop: for every key, every value is added to the headers of the reply.\<close>

definition copy_headers :: "Header \<Rightarrow> Header \<Rightarrow> Header" where
  "copy_headers from h = fold (\<lambda>(k, vs). fold (Header_Add k) vs) from h"

definition ProxyToNode ::
  "libp2p \<Rightarrow> 'h host \<Rightarrow> (Header \<Rightarrow> Header) \<Rightarrow> (Stream \<Rightarrow> stream_io) \<Rightarrow> Node \<Rightarrow> ('s, 'u) Service \<times> 'h \<Rightarrow>
   http_reply result \<times> ('s, 'u) Service \<times> 'h" where
  "ProxyToNode L H ord io destNode ms =
     (let (r, ms') = Service_NewStream L H (pn_ID destNode) True OllamaProtocol ms in
      (case r of
         Inl (GoPanic e) \<Rightarrow> (Inl (GoPanic e), ms')
       | Inl e \<Rightarrow> (Inr (http_Error (Error_string e) StatusServiceUnavailable), ms')
       | Inr stream \<Rightarrow>
           (case io_write (io stream) of
              Some e \<Rightarrow> (Inr (http_Error (Error_string e) StatusServiceUnavailable), ms')
            | None \<Rightarrow>
                (case io_response (io stream) of
                   Inl e \<Rightarrow> (Inr (http_Error (Error_string e) StatusServiceUnavailable), ms')
                 | Inr resp \<Rightarrow>
                     (Inr \<lparr>hp_status = pz_StatusCode resp, hp_header = copy_headers (ord (pz_Header resp)) [],
                           hp_body = fst (pz_Body resp)\<rparr>, ms')))))"

text \<open>
  \<open>streamHandler\<close>: the request is marked as coming from the mesh and handed to the service's handler; the result is what is
  written to the stream, \<open>None\<close> when the stream is reset.
\<close>

definition from_mesh :: "conn \<Rightarrow> stream_request \<Rightarrow> stream_request" where
  "from_mesh c r =
     (let h = Header_Set ''X-Mesh'' ''true'' (sr_Header r) in
      r\<lparr>sr_RemoteAddr := cn_RemotePeer c, sr_Header := h, sr_request := (sr_request r)\<lparr>pr_mesh := IsSource h\<rparr>\<rparr>)"

definition streamHandler :: "('s, 'u) Service \<Rightarrow> conn \<Rightarrow> stream_request result \<Rightarrow> 'u \<Rightarrow> string option \<times> 'u" where
  "streamHandler m c req u =
     (case req of
        Inl e \<Rightarrow> (None, u)
      | Inr r \<Rightarrow> (let (calls, u') = sv_handler m (from_mesh c r) u in (Some (sw_s (fold call_writer calls new_writer)), u')))"

text \<open>\<open>http.Error\<close> on a stream, and the handler a service is created with.\<close>

abbreviation StatusNotImplemented :: int where "StatusNotImplemented \<equiv> 501"

definition error_calls :: "string \<Rightarrow> int \<Rightarrow> writer_call list" where
  "error_calls msg code =
     [SetHeader ''Content-Type'' ''text/plain; charset=utf-8'', SetHeader ''X-Content-Type-Options'' ''nosniff'',
      CallWriteHeader code, CallWrite (msg @ [CHR 0x0A])]"

definition default_handler :: "'u handler" where
  "default_handler r u = (error_calls ''not implemented'' StatusNotImplemented, u)"

text \<open>
  The handler the proxy of the node installs. How an answer of the proxy is written: errors by \<open>http.Error\<close>, but for the page that is
  not found, and objects as \<open>ReplyObject\<close> does. \<open>ao_json\<close> is what the JSON encoder writes; \<open>ao_other\<close> stands for the
  reverse proxy, the redirects, the file server and the websocket upgrade of the libraries.
\<close>

record answer_io =
  ao_json :: "proxy_reply \<Rightarrow> string"
  ao_other :: "answer \<Rightarrow> writer_call list"

definition ReplyObject :: "string \<Rightarrow> writer_call list" where
  "ReplyObject json = [SetHeader ''Content-Type'' ''application/json'', CallWrite json]"

definition respond :: "answer_io \<Rightarrow> answer \<Rightarrow> writer_call list" where
  "respond io a =
     (case a of
        HttpError code msg \<Rightarrow>
          if msg = ''Custom 404: The page you are looking for does not exist.'' then [CallWriteHeader code, CallWrite msg]
          else error_calls msg code
      | ReplyJson v \<Rightarrow> ReplyObject (ao_json io v)
      | _ \<Rightarrow> ao_other io a)"

definition mesh_handler :: "answer_io \<Rightarrow> px_env \<Rightarrow> Proxy handler" where
  "mesh_handler io E r p = (let ((a, calls), p') = MeshServeHTTP E (sr_request r) p in (respond io a, p'))"

section \<open>Peers\<close>

definition Service_GetPeerMap :: "Node list result \<Rightarrow> peer_map result" where
  "Service_GetPeerMap resp =
     (case resp of
        Inl e \<Rightarrow> Inl e
      | Inr peers \<Rightarrow>
          Inr (fold (\<lambda>p. AList.update (pn_ID p)
                 \<lparr>pn_ID = pn_ID p, pn_Name = pn_Name p, pn_LogicalTime = pn_LogicalTime p, pn_LastUpdate = pn_LastUpdate p\<rparr>) peers []))"

definition Service_diffNodes :: "(peer_map \<Rightarrow> peer_map) \<Rightarrow> string \<Rightarrow> peer_map \<Rightarrow> peer_map \<Rightarrow> peer_map \<times> peer_map" where
  "Service_diffNodes ord selfID old new =
     (filter (\<lambda>(i, n). i \<noteq> selfID \<and>
        (case map_of old i of None \<Rightarrow> True | Some o' \<Rightarrow> pn_LastUpdate o' \<noteq> pn_LastUpdate n)) (ord new),
      filter (\<lambda>(i, n). i \<noteq> selfID \<and> map_of new i = None) (ord old))"

definition connection_details :: "libp2p \<Rightarrow> conn \<Rightarrow> PeerConnectionDetails" where
  "connection_details L c =
     \<lparr>pc_PeerID = cn_RemotePeer c, pc_PeerName = [], pc_Kind = ConnKind L c, pc_RemoteAddress = cn_RemoteMultiaddr c,
      pc_LocalAddress = cn_LocalMultiaddr c, pc_Direction = cn_Direction c, pc_Security = cn_Security c,
      pc_Multiplexer = cn_Transport c, pc_StreamCount = int (length (cn_Streams c)), pc_Streams = cn_Streams c\<rparr>"

definition GetPeerMeshInfo :: "libp2p \<Rightarrow> 'h host \<Rightarrow> Node \<Rightarrow> 'h \<Rightarrow> MeshInfo" where
  "GetPeerMeshInfo L H node h =
     (case lp_Decode L (pn_ID node) of
        Inl e \<Rightarrow> \<lparr>mi_AdvertisedAddresses = [], mi_Connections = []\<rparr>
      | Inr target \<Rightarrow>
          \<lparr>mi_AdvertisedAddresses = h_PeerAddrs H h target,
           mi_Connections = map (connection_details L) (h_Conns H h)\<rparr>)"

text \<open>\<open>GetPeerConnKind\<close> returns an empty string whatever it finds; the second result is what it prints.\<close>

definition GetPeerConnKind :: "libp2p \<Rightarrow> 'h host \<Rightarrow> string \<Rightarrow> ('s, 'u) Service \<times> 'h \<Rightarrow> string \<times> string list" where
  "GetPeerConnKind L H i ms =
     (case sv_peers (fst ms) i of
        None \<Rightarrow> ([], [])
      | Some peerID \<Rightarrow>
          ([], map (\<lambda>c. ConnKind L c @ '' '' @ cn_RemoteMultiaddr c) (h_ConnsToPeer H (snd ms) peerID)
               @ [''my protocols:''] @ map (\<lambda>p. ''  '' @ p) (h_Protocols H (snd ms))))"

section \<open>Local discovery\<close>

text \<open>
  \<open>mdns.go\<close>: a peer found on the local network is dialled, a failure is only logged. \<open>start tag\<close> starts the
  mdns service of libp2p, which then reports what it finds.
\<close>

definition HandlePeerFound :: "'h host \<Rightarrow> AddrInfo \<Rightarrow> 'h \<Rightarrow> 'h" where
  "HandlePeerFound H pi h = snd (h_Connect H background pi h)"

definition EnableMDNS :: "(string \<Rightarrow> goerr option) \<Rightarrow> goerr option" where
  "EnableMDNS start = start ''ollama-mesh''"

section \<open>Construction\<close>

text \<open>The options \<open>libp2p.New\<close> gets, and what decides them.\<close>

record host_opts =
  ho_listen :: "string list"
  ho_relays :: "AddrInfo list"
  ho_gater :: bool
  ho_private :: bool
  ho_advertise :: "string list"

definition visibility :: "AddressDiscovery result \<Rightarrow> MeshConfig \<Rightarrow> bool \<times> MeshConfig" where
  "visibility public mc =
     (let (isPrivate, mc') =
        (if mf_PublicAddress mc = ''auto'' then
           (case public of
              Inr dc \<Rightarrow> if IsPublic dc then (False, mc\<lparr>mf_PublicAddress := ad_Public dc\<rparr>) else (True, mc)
            | Inl e \<Rightarrow> (True, mc))
         else (False, mc))
      in (if mf_ForcePrivate mc then True else isPrivate, mc'))"

text \<open>\<open>ma.StringCast\<close> panics on an address that does not parse.\<close>

definition StringCast :: "libp2p \<Rightarrow> string \<Rightarrow> string result" where
  "StringCast L s = (case lp_NewMultiaddr L s of Inl e \<Rightarrow> Inl (GoPanic (Error_string e)) | Inr a \<Rightarrow> Inr a)"

definition host_options :: "libp2p \<Rightarrow> AddressDiscovery result \<Rightarrow> bool \<Rightarrow> AddrInfo list \<Rightarrow> MeshConfig \<Rightarrow> host_opts result" where
  "host_options L public gater relayInfo mc =
     (let (isPrivate, mc') = visibility public mc;
          opts = \<lparr>ho_listen = [''/ip4/0.0.0.0/udp/'' @ itoa (mf_Port mc) @ ''/quic-v1'', ''/p2p-circuit''],
                  ho_relays = relayInfo, ho_gater = gater, ho_private = isPrivate, ho_advertise = []\<rparr>
      in if isPrivate then Inr opts
         else (case StringCast L (''/ip4/'' @ mf_PublicAddress mc' @ ''/tcp/4001'') of
                 Inl e \<Rightarrow> Inl e
               | Inr pubTCP \<Rightarrow>
                   (case StringCast L (''/ip4/'' @ mf_PublicAddress mc' @ ''/udp/4001/quic-v1'') of
                      Inl e \<Rightarrow> Inl e
                    | Inr pubUDP \<Rightarrow> Inr (opts\<lparr>ho_advertise := [pubTCP, pubUDP]\<rparr>))))"

record ('k, 'h) service_env =
  se_libp2p :: libp2p
  se_crypto :: "'k crypto"
  se_rand :: string
  se_key_file :: read_result
  se_write_key :: "string \<Rightarrow> goerr option"
  se_order :: "(string \<times> string list) list \<Rightarrow> (string \<times> string list) list"
  se_public :: "AddressDiscovery result"
  se_New :: "'k \<Rightarrow> host_opts \<Rightarrow> ('h host \<times> 'h) result"

text \<open>
  \<open>NewService\<close>. A host whose login fails is closed and not returned. The service keeps the configuration with the public address
  that was found.
\<close>

text \<open>The relays are dialled one after the other; a failure is only logged.\<close>

definition dial_relays :: "'h host \<Rightarrow> AddrInfo list \<Rightarrow> 'h \<Rightarrow> 'h" where
  "dial_relays H relays h = fold (\<lambda>r h. snd (h_Connect H background r h)) relays h"

definition NewService ::
  "wire \<Rightarrow> ('k, 'h) service_env \<Rightarrow> 's net_http \<Rightarrow> bool \<Rightarrow> MeshConfig \<Rightarrow> 's \<Rightarrow>
   (('s, 'u) Service \<times> 'h host \<times> 'h) result \<times> 's" where
  "NewService W E http gater mc s =
     (let L = se_libp2p E; c0 = NewClient http (mf_Address mc) (mf_Secret mc) in
      (case fst (LoadOrCreateKey (se_crypto E) (se_rand E) (se_key_file E) (se_write_key E) ''node.key'') of
         Inl e \<Rightarrow> (Inl e, s)
       | Inr key \<Rightarrow>
      (case NodeIDFromKey (se_crypto E) key of
         Inl e \<Rightarrow> (Inl e, s)
       | Inr nodeID \<Rightarrow>
      (let (err1, c1, s1) = Login W (Mesh ''default'') nodeID (mf_Secret mc) c0 s in
      (case err1 of
         Some e \<Rightarrow> (Inl (GoErr (''could not login to mesh. err:'' @ Error_string e @ [CHR 0x0A])), s1)
       | None \<Rightarrow>
      (let (addrs, s2) = GetAddress W c1 s1 in
      (case addrs of
         Inl e \<Rightarrow> (Inl e, s2)
       | Inr btAddress \<Rightarrow>
      (case PeerAddrInfoFromMulti L (se_order E) btAddress of
         Inl e \<Rightarrow> (Inl e, s2)
       | Inr relayInfo \<Rightarrow>
      (case host_options L (se_public E) gater relayInfo mc of
         Inl e \<Rightarrow> (Inl e, s2)
       | Inr opts \<Rightarrow>
      (case se_New E key opts of
         Inl e \<Rightarrow> (Inl e, s2)
       | Inr (H, h) \<Rightarrow>
      (let (err2, c2, s3) = Login W (Mesh ''default'') (h_ID H) (mf_Secret mc) c1 s2 in
      (case err2 of
         Some e \<Rightarrow> (Inl (GoErr (''error authorizing host: '' @ Error_string e)), s3)
       | None \<Rightarrow>
           (let node = NewPeerNode (h_ID H) (mf_Name mc) in
            (Inr (\<lparr>sv_node = node, sv_relayInfo = relayInfo, sv_admin = c2, sv_peers = Map.empty, sv_handler = default_handler,
                   sv_config = snd (visibility (se_public E) mc),
                   sv_discovery = NewDiscoveryManager c2 (h_ID H) node (mf_MDNSEnabled mc)\<rparr>,
                  H, h_SetStreamHandler H OllamaProtocol (dial_relays H relayInfo h)), s3))))))))))))))"

section \<open>Connecting\<close>

text \<open>
  \<open>Connect\<close> starts the discovery manager once the host has a circuit address: \<open>obs\<close> are the addresses the
  host shows as time goes by, the result \<open>None\<close> says that \<open>Connect\<close> does not return.
\<close>

definition Service_Connect ::
  "(nat \<Rightarrow> string list) \<Rightarrow> ('s, 'u) Service \<Rightarrow> (goerr option \<times> discovery_task list) option" where
  "Service_Connect obs m =
     (case WaitForAddress obs False 0 of None \<Rightarrow> None | Some a \<Rightarrow> Some (None, fst (Discovery_Serve (sv_discovery m) False)))"

definition Service_Disconnect :: "goerr option" where
  "Service_Disconnect = None"

section \<open>Lemmas\<close>

interpretation service_provider: mesh_provider Service_Node Service_WithHandlerFunc Service_WithUpdateHandlerFunc
  "\<lambda>m. Some (sv_handler m)" "\<lambda>m. dm_onUpdate (sv_discovery m)"
  by unfold_locales
    (simp_all add: Service_Node_def Service_WithHandlerFunc_def Service_WithUpdateHandlerFunc_def UpdateHandler_def)

text \<open>
  What the service relies on in libp2p: without \<open>WithAllowLimitedConn\<close> a stream is never opened over a limited
  connection.
\<close>

definition respects_limits :: "'h host \<Rightarrow> bool" where
  "respects_limits H \<longleftrightarrow>
     (\<forall>ctx dest proto s stream s'. h_NewStream H ctx dest proto s = (Inr stream, s') \<and> cn_Limited (st_conn stream) \<longrightarrow>
        cx_AllowLimited ctx)"

lemma respects_limitsD:
  "respects_limits H \<Longrightarrow> h_NewStream H ctx dest proto s = (Inr stream, s') \<Longrightarrow> \<not> cx_AllowLimited ctx \<Longrightarrow>
   \<not> cn_Limited (st_conn stream)"
  unfolding respects_limits_def by blast

lemma openStreamDirect_streams:
  assumes "openStreamDirect H ctx dest proto s = (Inr stream, s')"
  shows "\<exists>t. h_NewStream H ctx dest proto t = (Inr stream, s') \<and> list_ex (\<lambda>c. \<not> cn_Limited c) (h_ConnsToPeer H t dest)"
  using assms by (auto simp: openStreamDirect_def Let_def split: if_splits prod.splits option.splits)

lemma openStream_streams:
  assumes "openStream H ctx dest longLived proto s = (Inr stream, s')"
  shows "\<exists>t ctx'. h_NewStream H ctx' dest proto t = (Inr stream, s') \<and> (longLived \<longrightarrow> ctx' = ctx)"
  using assms openStreamDirect_streams [of H ctx dest proto s stream s']
  by (auto simp: openStream_def Let_def split: if_splits prod.splits sum.splits)

lemma NewStream_streams:
  assumes "Service_NewStream L H destNode longLived proto ms = (Inr stream, ms')"
  obtains destID where "fst (connectNode L H destNode ms) = Inr destID"
    and "openStream H background destID longLived proto (snd (snd (connectNode L H destNode ms))) = (Inr stream, snd ms')"
  using assms by (auto simp: Service_NewStream_def Let_def split: prod.splits sum.splits)

lemma connected_after_address:
  assumes "Service_Connect obs m = Some (r, tasks)"
  shows "\<exists>n. circuit_address (obs n) \<noteq> []" and "ListenForPeerUpdates \<in> set tasks" and "StartMDNS \<in> set tasks \<longleftrightarrow> dm_MDNSEnabled (sv_discovery m)"
proof -
  obtain a where "WaitForAddress obs False 0 = Some a" using assms by (auto simp: Service_Connect_def split: option.splits)
  from wait_returned [OF this] show "\<exists>n. circuit_address (obs n) \<noteq> []" by auto
  show "ListenForPeerUpdates \<in> set tasks" "StartMDNS \<in> set tasks \<longleftrightarrow> dm_MDNSEnabled (sv_discovery m)"
    using assms by (auto simp: Service_Connect_def Discovery_Serve_def split: option.splits)
qed

text \<open>What a peer that asks for the models of this node gets on its stream.\<close>

lemma models_served:
  assumes "sr_request r = \<lparr>pr_method = ''GET'', pr_path = ''/.mesh/models'', pr_mesh = b, pr_body = body, pr_invite = j\<rparr>"
  shows "fst (streamHandler (Service_WithHandlerFunc (mesh_handler io E) m) c (Inr r) p) =
    Some (response_text (StatusOK, [(''Content-Type'', [''application/json''])],
      ao_json io (ModelsReply (map encode_route (ListExportedModels (pe_routes E) (px_router p))))))"
proof -
  have key: "CanonicalHeaderKey ''Content-Type'' = ''Content-Type''" by code_simp
  have "fst (fst (MeshServeHTTP E (sr_request (from_mesh c r)) p)) = meshModels E (p\<lparr>px_cid := px_cid p + 1\<rparr>)"
    using assms by (simp add: MeshServeHTTP_def from_mesh_def Let_def proxyHandleURLS_def mux_def px_get_def)
  then have "fst (mesh_handler io E (from_mesh c r) p) =
      ReplyObject (ao_json io (ModelsReply (map encode_route (ListExportedModels (pe_routes E) (px_router p)))))"
    by (simp add: mesh_handler_def meshModels_def respond_def split_beta)
  then show ?thesis
    by (simp add: streamHandler_def Service_WithHandlerFunc_def split_beta writer_response ReplyObject_def Header_Set_def key)
qed

subsection \<open>Headers that pass through\<close>

text \<open>A header map as \<open>Set\<close> and \<open>Add\<close> build it.\<close>

definition header_ok :: "Header \<Rightarrow> bool" where
  "header_ok h \<longleftrightarrow> distinct (map fst h) \<and> (\<forall>(k, vs) \<in> set h. CanonicalHeaderKey k = k \<and> vs \<noteq> [])"

lemma add_values:
  assumes "CanonicalHeaderKey k = k" and "vs \<noteq> []"
  shows "map_of (fold (Header_Add k) vs h) = (map_of h)(k \<mapsto> (case map_of h k of None \<Rightarrow> [] | Some ws \<Rightarrow> ws) @ vs)"
  using assms(2)
proof (induction vs rule: rev_nonempty_induct)
  case (single v)
  then show ?case using assms(1) by (simp add: Header_Add_def update_conv' Let_def)
next
  case (snoc v vs)
  then show ?case using assms(1) by (simp add: Header_Add_def update_conv' Let_def fun_eq_iff)
qed

lemma copy_headers_exact:
  assumes "distinct (map fst h)" and "\<forall>(k, vs) \<in> set h. CanonicalHeaderKey k = k \<and> vs \<noteq> []" and "fst ` set h \<inter> dom (map_of h0) = {}"
  shows "map_of (copy_headers h h0) = map_of h0 ++ map_of h"
  using assms
proof (induction h arbitrary: h0)
  case Nil
  then show ?case by (simp add: copy_headers_def)
next
  case (Cons x h)
  obtain k vs where x: "x = (k, vs)" by (cases x)
  have k: "CanonicalHeaderKey k = k" "vs \<noteq> []" "map_of h0 k = None" using Cons.prems(2,3) x by auto
  let ?h = "fold (Header_Add k) vs h0"
  have m: "map_of ?h = (map_of h0)(k \<mapsto> vs)" using add_values [OF k(1,2), of h0] k(3) by simp
  have "fst ` set h \<inter> dom (map_of ?h) = {}" using Cons.prems(1,3) x unfolding m by auto
  then have "map_of (copy_headers h ?h) = map_of ?h ++ map_of h" using Cons by simp
  moreover have "copy_headers (x # h) h0 = copy_headers h ?h" using x by (simp add: copy_headers_def)
  moreover have "k \<notin> dom (map_of h)" using Cons.prems(1) x by (simp add: dom_map_of_conv_image_fst)
  then have "map_of ?h ++ map_of h = map_of h0 ++ map_of (x # h)"
    unfolding m x by (auto simp: fun_eq_iff map_add_def domIff split: option.splits)
  ultimately show ?case by (simp only:)
qed

lemma map_of_iter: "is_iter ord \<Longrightarrow> distinct (map fst h) \<Longrightarrow> map_of (ord h) = map_of h"
  by (metis is_iter_distinct is_iter_set map_of_inject_set)

lemma copy_headers_same:
  assumes "header_ok h" and "is_iter ord"
  shows "map_of (copy_headers (ord h) []) = map_of h"
proof -
  have "map_of (copy_headers (ord h) []) = Map.empty ++ map_of (ord h)"
    using copy_headers_exact [of "ord h" "[]"] assms is_iter_set [OF assms(2)] is_iter_distinct [OF assms(2)]
    by (simp add: header_ok_def)
  then show ?thesis using map_of_iter [OF assms(2)] assms(1) by (simp add: header_ok_def)
qed

section \<open>An example\<close>

text \<open>A host with one connection to every peer, direct or limited, over which streams are opened.\<close>

definition ex_conn :: "bool \<Rightarrow> conn" where
  "ex_conn limited = \<lparr>cn_RemotePeer = ''p'', cn_LocalPeer = ''n'', cn_RemoteMultiaddr = ''/ip4/1'', cn_LocalMultiaddr = ''/ip4/2'',
     cn_Direction = ''Inbound'', cn_Limited = limited, cn_Security = [], cn_Transport = [], cn_Streams = []\<rparr>"

definition ex_host :: "bool \<Rightarrow> unit host" where
  "ex_host limited =
     \<lparr>h_ID = ''n1'', h_Addrs = (\<lambda>s. [''/ip4/4'']), h_PeerAddrs = (\<lambda>s p. []), h_AddAddrs = (\<lambda>i as s. s),
      h_ConnsToPeer = (\<lambda>s p. [ex_conn limited]), h_Conns = (\<lambda>s. [ex_conn limited]), h_Connect = (\<lambda>ctx p s. (None, s)),
      h_NewStream = (\<lambda>ctx p proto s. (if limited \<and> \<not> cx_AllowLimited ctx then Inl (GoErr ''limited connection'')
                                        else Inr \<lparr>st_conn = ex_conn limited, st_protocol = proto\<rparr>, s)),
      h_Protocols = (\<lambda>s. [OllamaProtocol]), h_SetStreamHandler = (\<lambda>p s. s), h_ClearBackoff = None, h_Close = (\<lambda>s. (None, s))\<rparr>"

definition ex_service :: "'u handler \<Rightarrow> (unit, 'u) Service" where
  "ex_service handler =
     (let node = NewPeerNode ''n1'' ''left''; c = NewClient \<lparr>ht_parse = (\<lambda>u. None), ht_do = (\<lambda>q s. (Inl (GoErr ''offline''), s))\<rparr> ''http://a'' [] in
      \<lparr>sv_node = node, sv_relayInfo = [\<lparr>ai_ID = ''r'', ai_Addrs = [''/ip4/3'']\<rparr>], sv_admin = c, sv_peers = Map.empty,
       sv_handler = handler, sv_config = cf_Mesh zero_config, sv_discovery = NewDiscoveryManager c ''n1'' node False\<rparr>)"

definition ex_peer_calls :: "writer_call list" where
  "ex_peer_calls = [SetHeader ''Content-Type'' ''text'', CallWriteHeader 201, CallWriteHeader 500, CallWrite ''hi'']"

definition ex_read_response :: "string \<Rightarrow> peer_response result" where
  "ex_read_response s = Inr \<lparr>pz_StatusCode = 201, pz_Header = [(''Content-Type'', [''text''])], pz_Body = (''hi'', None)\<rparr>"

definition ex_stream_request :: stream_request where
  "ex_stream_request = \<lparr>sr_RemoteAddr = [], sr_Header = [],
     sr_request = \<lparr>pr_method = ''GET'', pr_path = ''/.mesh/status'', pr_mesh = False, pr_body = ([], None), pr_invite = None\<rparr>\<rparr>"

lemma ex_host_limits: "respects_limits (ex_host limited)"
  by (auto simp: respects_limits_def ex_host_def ex_conn_def)

lemmas ex_dial = Service_NewStream_def connectNode_def ex_service_def AddDestViaRelay_def ParseAddrInfo_def CircuitAddr_def
  ex_libp2p_def openStream_def openStreamDirect_def ex_host_def ex_conn_def NewPeerNode_def Let_def

lemma ex_new_stream:
  "\<exists>stream ms'. Service_NewStream ex_libp2p (ex_host False) (pn_ID (NewPeerNode ''p'' [])) True OllamaProtocol
      (ex_service default_handler :: (unit, unit) Service, ()) = (Inr stream, ms')"
  by (simp add: ex_dial)

section \<open>Properties\<close>

text \<open>
  C35. Model traffic never goes over a limited connection. If libp2p opens no stream over a limited (relay)
  connection unless that is allowed, then whatever \<open>ProxyToNode\<close> answers is either a 503 of its own or
  the response read from a stream on a direct connection.
\<close>

theorem model_traffic_direct:
  assumes "respects_limits H" and "ProxyToNode L H ord io destNode ms = (Inr reply, ms')"
  shows "hp_status reply = StatusServiceUnavailable \<or>
    (\<exists>stream resp. \<not> cn_Limited (st_conn stream) \<and> io_response (io stream) = Inr resp \<and>
       hp_status reply = pz_StatusCode resp \<and> hp_body reply = fst (pz_Body resp))"
proof (cases "fst (Service_NewStream L H (pn_ID destNode) True OllamaProtocol ms)")
  case (Inl e)
  then show ?thesis
    using assms(2) by (cases e) (auto simp: ProxyToNode_def split_beta http_Error_def)
next
  case (Inr stream)
  obtain ms1 where ns: "Service_NewStream L H (pn_ID destNode) True OllamaProtocol ms = (Inr stream, ms1)"
    using Inr by (metis prod.collapse)
  obtain destID h where "openStream H background destID True OllamaProtocol h = (Inr stream, snd ms1)"
    using NewStream_streams [OF ns] by blast
  then obtain t where "h_NewStream H background destID OllamaProtocol t = (Inr stream, snd ms1)"
    using openStream_streams [of H background destID True OllamaProtocol h stream "snd ms1"] by auto
  then have "\<not> cn_Limited (st_conn stream)"
    using respects_limitsD [OF assms(1)] by (simp add: background_def)
  then show ?thesis
    using assms(2) ns
    by (cases "io_write (io stream)"; cases "io_response (io stream)")
      (auto simp: ProxyToNode_def http_Error_def)
qed

theorem model_traffic_direct_witness:
  "\<exists>reply ms'. ProxyToNode ex_libp2p (ex_host False) (\<lambda>h. h)
      (\<lambda>st. \<lparr>io_write = None, io_response = ex_read_response []\<rparr>) (NewPeerNode ''p'' []) (ex_service default_handler :: (unit, unit) Service, ()) = (Inr reply, ms') \<and>
     hp_status reply = 201"
proof -
  let ?io = "\<lambda>st :: Stream. \<lparr>io_write = None, io_response = ex_read_response []\<rparr>"
  have "\<exists>reply ms'. ProxyToNode ex_libp2p (ex_host False) (\<lambda>h. h) ?io (NewPeerNode ''p'' []) (ex_service default_handler :: (unit, unit) Service, ()) = (Inr reply, ms') \<and>
      hp_status reply \<noteq> 503"
    by (simp add: ProxyToNode_def ex_dial ex_read_response_def)
  then obtain reply ms' where p: "ProxyToNode ex_libp2p (ex_host False) (\<lambda>h. h) ?io (NewPeerNode ''p'' []) (ex_service default_handler :: (unit, unit) Service, ()) = (Inr reply, ms')"
    "hp_status reply \<noteq> 503" by blast
  from model_traffic_direct [OF ex_host_limits p(1)] p(2) have "hp_status reply = 201"
    by (auto simp: ex_read_response_def)
  with p(1) show ?thesis by blast
qed

text \<open>
  C36. A peer cannot pose as a local client. Whatever headers and remote address a request on a mesh stream carries,
  the handler, whichever is installed, is called with it marked as coming from the mesh and from the peer libp2p authenticated. With
  the proxy as handler, what goes back on the stream is the proxy's answer to that request, and this answer never forwards
  the request to another peer.
\<close>

theorem stream_requests_marked:
  "\<exists>(r' :: stream_request) a calls p'. sr_RemoteAddr r' = cn_RemotePeer c \<and> IsSource (sr_Header r') \<and> sr_request r' = (sr_request r)\<lparr>pr_mesh := True\<rparr> \<and>
     (\<forall>hf. streamHandler (Service_WithHandlerFunc hf m) c (Inr r) p =
        (Some (sw_s (fold call_writer (fst (hf r' p)) new_writer)), snd (hf r' p))) \<and>
     MeshServeHTTP E (sr_request r') p = ((a, calls), p') \<and>
     streamHandler (Service_WithHandlerFunc (mesh_handler io E) m) c (Inr r) p = (Some (sw_s (fold call_writer (respond io a) new_writer)), p') \<and>
     a \<noteq> ForwardPeer n body"
proof -
  let ?r = "from_mesh c r"
  obtain a calls p' where a: "MeshServeHTTP E (sr_request ?r) p = ((a, calls), p')" by (metis prod.exhaust)
  have "IsSource (Header_Set ''X-Mesh'' ''true'' h)" for h by (simp add: IsSource_def Header_Get_Set)
  then have "sr_RemoteAddr ?r = cn_RemotePeer c" "IsSource (sr_Header ?r)" "sr_request ?r = (sr_request r)\<lparr>pr_mesh := True\<rparr>"
    by (simp_all add: from_mesh_def Let_def)
  moreover have "streamHandler (Service_WithHandlerFunc hf m) c (Inr r) p =
      (Some (sw_s (fold call_writer (fst (hf ?r p)) new_writer)), snd (hf ?r p))" for hf
    by (simp add: streamHandler_def Service_WithHandlerFunc_def split_beta)
  moreover have "streamHandler (Service_WithHandlerFunc (mesh_handler io E) m) c (Inr r) p =
      (Some (sw_s (fold call_writer (respond io a) new_writer)), p')"
    using a by (simp add: streamHandler_def Service_WithHandlerFunc_def mesh_handler_def)
  moreover have "a \<noteq> ForwardPeer n body" using mesh_no_forward [of E "sr_request ?r" p n body] a by simp
  ultimately show ?thesis using a by blast
qed

text \<open>
  C37. A peer's reply arrives unchanged. The node's service \<open>m'\<close> serves the request \<open>r\<close> that arrives over the connection \<open>c\<close>,
  its handler making the calls \<open>cs\<close>; if the HTTP library reads the text of that response back, \<open>ProxyToNode\<close> on the other node
  answers with the status, the headers and the body the handler gave.
\<close>

theorem peer_reply_passed_on:
  assumes "sv_handler m' (from_mesh c r) u = (cs, u')" and "reply_of [] cs = Some (code, h, body)" and "header_ok h" and "is_iter ord"
    and "read (response_text (code, h, body)) = Inr \<lparr>pz_StatusCode = code, pz_Header = h, pz_Body = (body, None)\<rparr>"
    and "Service_NewStream L H (pn_ID destNode) True OllamaProtocol ms = (Inr stream, ms')"
    and "streamHandler m' c (Inr r) u = (Some bytes, u'')"
    and "io stream = \<lparr>io_write = None, io_response = read bytes\<rparr>"
  shows "\<exists>reply. ProxyToNode L H ord io destNode ms = (Inr reply, ms') \<and>
    hp_status reply = code \<and> map_of (hp_header reply) = map_of h \<and> hp_body reply = body"
proof -
  have "bytes = response_text (code, h, body)"
    using assms(1,2,7) by (simp add: streamHandler_def writer_response)
  then have "ProxyToNode L H ord io destNode ms =
      (Inr \<lparr>hp_status = code, hp_header = copy_headers (ord h) [], hp_body = body\<rparr>, ms')"
    using assms(5,6,8) by (simp add: ProxyToNode_def)
  then show ?thesis using copy_headers_same [OF assms(3,4)] by simp
qed

theorem peer_reply_passed_on_witness:
  "let m' = ex_service (\<lambda>r u. (ex_peer_calls, Suc u)) in
   \<exists>reply ms'. ProxyToNode ex_libp2p (ex_host False) (\<lambda>h. h)
      (\<lambda>st. \<lparr>io_write = None, io_response = ex_read_response (the (fst (streamHandler m' (ex_conn False) (Inr ex_stream_request) 0)))\<rparr>)
      (NewPeerNode ''p'' []) (ex_service default_handler :: (unit, unit) Service, ()) = (Inr reply, ms') \<and>
     hp_status reply = 201 \<and> map_of (hp_header reply) ''Content-Type'' = Some [''text''] \<and> hp_body reply = ''hi''"
proof -
  let ?h = "[(''Content-Type'', [''text''])]" and ?m' = "ex_service (\<lambda>r u. (ex_peer_calls, Suc u))"
  let ?ms = "(ex_service default_handler :: (unit, unit) Service, ())"
  have key: "CanonicalHeaderKey ''Content-Type'' = ''Content-Type''" by code_simp
  have calls: "sv_handler ?m' (from_mesh (ex_conn False) ex_stream_request) 0 = (ex_peer_calls, Suc 0)"
    by (simp add: ex_service_def Let_def)
  have r: "reply_of [] ex_peer_calls = Some (201, ?h, ''hi'')"
    by (simp add: ex_peer_calls_def Header_Set_def key)
  have h: "header_ok ?h" using key by (simp add: header_ok_def)
  have read: "ex_read_response (response_text (201, ?h, ''hi'')) = Inr \<lparr>pz_StatusCode = 201, pz_Header = ?h, pz_Body = (''hi'', None)\<rparr>"
    by (simp add: ex_read_response_def)
  obtain bytes where bytes: "streamHandler ?m' (ex_conn False) (Inr ex_stream_request) 0 = (Some bytes, Suc 0)"
    using calls by (simp add: streamHandler_def)
  obtain stream ms' where ns: "Service_NewStream ex_libp2p (ex_host False) (pn_ID (NewPeerNode ''p'' [])) True OllamaProtocol ?ms =
      (Inr stream, ms')"
    using ex_new_stream by blast
  show ?thesis
    using peer_reply_passed_on [where io = "\<lambda>st. \<lparr>io_write = None, io_response = ex_read_response bytes\<rparr>"
        and read = ex_read_response and ord = "\<lambda>h. h", OF calls r h is_iter_id read ns bytes refl]
    unfolding Let_def bytes by (cases ms') auto
qed

end
