(* ===== verification/Commands.thy ===== *)
theory Commands
  imports MeshService AdminRoutes
begin

text \<open>
  The commands of the program \<open>mesh\<close>: \<open>cmd/mesh/main.go\<close>, \<open>app_init.go\<close>, \<open>app_join.go\<close>, \<open>app_proxy.go\<close> and
  \<open>app_relay.go\<close>. The working directory is a map from file names to contents. What the user answers
  in a form of the package huh is an input: \<open>Inl\<close> the error the form returns, \<open>Inr\<close> the answers.
  Output to the terminal is not modelled. \<open>log.Fatalf\<close> and \<open>os.Exit\<close> end the process: a \<open>GoPanic\<close>.
\<close>

section \<open>Strings\<close>

text \<open>
  \<open>strconv.Atoi\<close>: an optional sign and decimal digits, in the range of a 64-bit integer. \<open>Atoi_value\<close> is the integer it returns also
  when it fails: 0 for text that is not a number, the nearest bound for one out of range.
\<close>

definition digit :: "char \<Rightarrow> bool" where
  "digit c \<longleftrightarrow> 48 \<le> (of_char c :: nat) \<and> (of_char c :: nat) \<le> 57"

definition digits_value :: "string \<Rightarrow> int" where
  "digits_value s = foldl (\<lambda>n c. n * 10 + (of_char c - 48)) 0 s"

definition signed_digits :: "string \<Rightarrow> int option" where
  "signed_digits s =
     (let (neg, ds) = (case s of c # cs \<Rightarrow> if c = CHR ''-'' then (True, cs) else if c = CHR ''+'' then (False, cs) else (False, s)
                                | [] \<Rightarrow> (False, s))
      in if ds \<noteq> [] \<and> list_all digit ds then Some (if neg then - digits_value ds else digits_value ds) else None)"

definition Atoi :: "string \<Rightarrow> int result" where
  "Atoi s =
     (case signed_digits s of
        Some n \<Rightarrow> if - (2 ^ 63) \<le> n \<and> n < 2 ^ 63 then Inr n else Inl (GoErr (''strconv.Atoi: parsing '' @ s @ '': value out of range''))
      | None \<Rightarrow> Inl (GoErr (''strconv.Atoi: parsing '' @ s @ '': invalid syntax'')))"

definition Atoi_value :: "string \<Rightarrow> int" where
  "Atoi_value s = (case signed_digits s of Some n \<Rightarrow> max (- (2 ^ 63)) (min (2 ^ 63 - 1) n) | None \<Rightarrow> 0)"

section \<open>Files\<close>

type_synonym files = "string \<rightharpoonup> string"

definition fileExists :: "files \<Rightarrow> string \<Rightarrow> bool" where
  "fileExists fs path \<longleftrightarrow> fs path \<noteq> None"

definition read_file :: "files \<Rightarrow> string \<Rightarrow> read_result" where
  "read_file fs path = (case fs path of None \<Rightarrow> ReadNotExist | Some b \<Rightarrow> ReadOk b)"

definition config_file :: "files \<Rightarrow> string result" where
  "config_file fs = (case fs ''config.yaml'' of None \<Rightarrow> Inl (GoErr ''open config.yaml: no such file or directory'') | Some b \<Rightarrow> Inr b)"

text \<open>What a command gets from outside: keys, randomness, the YAML codec, the host name, the errors of writes.\<close>

record 'k world =
  wo_crypto :: "'k crypto"
  wo_rand :: "string \<Rightarrow> string"
  wo_write :: "string \<Rightarrow> goerr option"
  wo_yaml :: "string \<Rightarrow> Config \<Rightarrow> Config result"
  wo_yaml_text :: "Config \<Rightarrow> string result"
  wo_hostname :: string
  wo_Quote :: "string \<Rightarrow> string"
  wo_Abs :: "string \<Rightarrow> string result"
  wo_Getwd :: "string result"

definition load_key :: "'k world \<Rightarrow> string \<Rightarrow> files \<Rightarrow> 'k result \<times> files" where
  "load_key Wo path fs =
     (let (r, b) = LoadOrCreateKey (wo_crypto Wo) (wo_rand Wo path) (read_file fs path) (\<lambda>b. wo_write Wo path) path
      in (r, case b of None \<Rightarrow> fs | Some d \<Rightarrow> fs(path \<mapsto> d)))"

definition write_file :: "'k world \<Rightarrow> string \<Rightarrow> string \<Rightarrow> files \<Rightarrow> goerr option \<times> files" where
  "write_file Wo path data fs = (case wo_write Wo path of Some e \<Rightarrow> (Some e, fs) | None \<Rightarrow> (None, fs(path \<mapsto> data)))"

definition wrap_error :: "string \<Rightarrow> goerr \<Rightarrow> goerr" where
  "wrap_error msg e = GoErr (msg @ '': '' @ Error_string e)"

section \<open>mesh init\<close>

record installSettings =
  is_NodeKeyPath :: string
  is_RelayKeyPath :: string
  is_ConfigPath :: string
  is_ProxyListen :: string
  is_OllamaVersion :: string
  is_MeshName :: string
  is_AdminAddress :: string
  is_AdminSecret :: string
  is_AdminPort :: int
  is_RelayPort :: int
  is_PublicAddress :: string
  is_AppPort :: int
  is_ForcePrivate :: bool
  is_MDNSEnabled :: bool
  is_ProviderID :: string
  is_ProviderType :: string
  is_ProviderURL :: string
  is_ModelDiscovery :: string

definition generateAdminSecret :: "string result \<Rightarrow> string result" where
  "generateAdminSecret rnd = (case rnd of Inl e \<Rightarrow> Inl e | Inr b \<Rightarrow> Inr (hex_EncodeToString (take 32 b)))"

definition validatePort :: "string \<Rightarrow> goerr option" where
  "validatePort s =
     (case Atoi (TrimSpace s) of
        Inl e \<Rightarrow> Some (GoErr ''enter a port between 0 and 65535'')
      | Inr n \<Rightarrow> if n < 0 \<or> n > 65535 then Some (GoErr ''enter a port between 0 and 65535'') else None)"

definition ErrUserAborted :: goerr where
  "ErrUserAborted = GoErr ''user aborted''"

definition aborted :: "goerr option \<Rightarrow> bool" where
  "aborted err \<longleftrightarrow> err = Some ErrUserAborted"

text \<open>The values of the form when it is submitted: the settings it edits, the three ports as text, the confirmation.\<close>

record install_form =
  if_settings :: "installSettings \<Rightarrow> installSettings"
  if_adminPort :: string
  if_relayPort :: string
  if_appPort :: string
  if_write :: bool

definition default_settings :: installSettings where
  "default_settings =
     \<lparr>is_NodeKeyPath = ''node.key'', is_RelayKeyPath = ''relay.key'', is_ConfigPath = ''config.yaml'',
      is_ProxyListen = DefaultProxyListen, is_OllamaVersion = ''0.33.0'', is_MeshName = [],
      is_AdminAddress = ''http://127.0.0.1:4002'', is_AdminSecret = [], is_AdminPort = 0, is_RelayPort = 0,
      is_PublicAddress = ''auto'', is_AppPort = 0, is_ForcePrivate = False, is_MDNSEnabled = True,
      is_ProviderID = ''localhost'', is_ProviderType = ''ollama'', is_ProviderURL = ''http://localhost:11434'',
      is_ModelDiscovery = ''pinned''\<rparr>"

definition collectInstallSettings :: "(goerr + install_form) \<Rightarrow> string result \<Rightarrow> installSettings result" where
  "collectInstallSettings form rnd =
     (case form of
        Inl e \<Rightarrow> Inl e
      | Inr f \<Rightarrow>
          if \<not> if_write f then Inl (GoErr ''aborted'')
          else
            (let s = (if_settings f default_settings)
                       \<lparr>is_AdminPort := Atoi_value (TrimSpace (if_adminPort f)), is_RelayPort := Atoi_value (TrimSpace (if_relayPort f)),
                        is_AppPort := Atoi_value (TrimSpace (if_appPort f))\<rparr>
             in if TrimSpace (is_AdminSecret s) = []
                then (case generateAdminSecret rnd of Inl e \<Rightarrow> Inl e | Inr sec \<Rightarrow> Inr (s\<lparr>is_AdminSecret := sec\<rparr>))
                else Inr s))"

definition bool_text :: "bool \<Rightarrow> string" where
  "bool_text b = (if b then ''true'' else ''false'')"

text \<open>The file \<open>mesh init\<close> writes, line by line; \<open>Q\<close> is the verb \<open>%q\<close>.\<close>

definition config_lines :: "(string \<Rightarrow> string) \<Rightarrow> installSettings \<Rightarrow> string list" where \<open>
  config_lines Q s =
    [''proxy:'',
     ''  # The listen address for the Ollama proxy endpoint'',
     ''  listen: '' @ Q (is_ProxyListen s),
     ''  # The version of ollama to report as'',
     ''  version: '' @ Q (is_OllamaVersion s),
     [],
     ''mesh:'',
     ''  name: '' @ Q (is_MeshName s),
     ''  # Admin (Mesh Authentication Controller) API Path and secret'',
     ''  #  This points at a server that controls access to the mesh for member nodes'',
     ''  #'',
     ''  #  admin_address - HTTP(S) endpoint proxies use to register.'',
     ''  #                  The admin node must be hosted publicly or exposed to the'',
     ''  #                  internet via port forwarding (TCP on admin_port).'',
     ''  #  admin_secret  - is the admin controller password'',
     ''  #  admin_port    - is the port the controller should bind to (if behind nat this is the port to forward to the server)'',
     ''  admin_address: '' @ Q (is_AdminAddress s),
     ''  admin_secret: '' @ Q (is_AdminSecret s),
     ''  admin_port: '' @ itoa (is_AdminPort s),
     ''  relay_port: '' @ itoa (is_RelayPort s),
     ''  # The public address the relay server should announce itself as'',
     ''  #   When the server is directly on the internet this can be "" and the public ip will be selected'',
     ''  #   IF the relay/controller is behind NAT with ports forwarded to it, this should be the address of the'',
     ''  #   router'',
     ''  #'',
     ''  #    "auto" - use an automatic scheme to determine your address'',
     ''  #'',
     ''  public_address: '' @ Q (is_PublicAddress s),
     [],
     ''  # The app port to bind to for our MESH network'',
     ''  #   for mesh proxy this can be set to zero'',
     ''  #   for mesh relay this must be set to a valid port number'',
     ''  app_port: '' @ itoa (is_AppPort s),
     ''  # Force "mesh proxy" to think it is behind NAT (for hole punching)'',
     ''  force_private: '' @ bool_text (is_ForcePrivate s),
     ''  # Enable/Discover of other LOCAL mesh proxy instances using MDNS (On Local Lan)'',
     ''  mdns_enabled: '' @ bool_text (is_MDNSEnabled s),
     [],
     ''providers:'',
     ''  - id: '' @ is_ProviderID s,
     ''    # only ollama is supported currently'',
     ''    type: '' @ is_ProviderType s,
     ''    # Base url of this server'',
     ''    base_url: '' @ Q (is_ProviderURL s),
     ''    # Controls how models are treated'',
     ''    # all       - all models that are known to'',
     ''    # pinned    - only currently loaded models are exported (prevents model thrashing)'',
     ''    # whitelist - only models in the whitelist (models:) are exported'',
     ''    model_discovery: '' @ is_ModelDiscovery s,
     ''    models:'']\<close>

definition defaultConfigYAML :: "(string \<Rightarrow> string) \<Rightarrow> installSettings \<Rightarrow> string" where
  "defaultConfigYAML Q s = concat (map (\<lambda>l. l @ [CHR 0x0A]) (config_lines Q s))"

definition initializeNewInstall ::
  "'k world \<Rightarrow> bool result \<Rightarrow> (goerr + install_form) \<Rightarrow> string result \<Rightarrow> files \<Rightarrow> goerr option \<times> files" where
  "initializeNewInstall Wo confirm form rnd fs =
     (let existing = filter (fileExists fs) [''node.key'', ''relay.key'', ''config.yaml''];
          go = (if existing \<noteq> [] then confirm else Inr True)
      in (case go of
            Inl e \<Rightarrow> (if aborted (Some e) then None else Some e, fs)
          | Inr cont \<Rightarrow>
              if \<not> cont then (None, fs)
              else
                (case collectInstallSettings form rnd of
                   Inl e \<Rightarrow> (if aborted (Some e) \<or> Error_string e = ''aborted'' then None else Some e, fs)
                 | Inr settings \<Rightarrow>
                     (let (err, fs1) = write_file Wo (is_ConfigPath settings) (defaultConfigYAML (wo_Quote Wo) settings) fs in
                      (case err of
                         Some e \<Rightarrow> (Some (wrap_error (''write '' @ is_ConfigPath settings) e), fs1)
                       | None \<Rightarrow>
                           (let (r2, fs2) = load_key Wo (is_NodeKeyPath settings) fs1 in
                            (case r2 of
                               Inl e \<Rightarrow> (Some (wrap_error (''create '' @ is_NodeKeyPath settings) e), fs2)
                             | Inr k \<Rightarrow>
                                 (let (r3, fs3) = load_key Wo (is_RelayKeyPath settings) fs2 in
                                  (case r3 of
                                     Inl e \<Rightarrow> (Some (wrap_error (''create '' @ is_RelayKeyPath settings) e), fs3)
                                   | Inr k' \<Rightarrow> (None, fs3))))))))))"

section \<open>mesh join\<close>

definition defaultJoinConfig :: "string \<Rightarrow> Config" where
  "defaultJoinConfig hostname =
     \<lparr>cf_Listen = DefaultProxyListen,
      cf_Admin = \<lparr>ac_Address = [], ac_Secret = [], ac_AdminPort = DefaultAdminPort, ac_RelayPort = DefaultRelayPort,
                  ac_PublicAddress = ''auto''\<rparr>,
      cf_Mesh = \<lparr>mf_Name = hostname, mf_Address = [], mf_Secret = [], mf_MeshId = [], mf_PublicAddress = ''auto'', mf_Port = 0,
                 mf_ForcePrivate = False, mf_MDNSEnabled = True\<rparr>,
      cf_Providers = [\<lparr>pv_ID = ''localhost'', pv_Type = ''ollama'', pv_BaseURL = ''http://127.0.0.1:11434'', pv_Token = [],
                       pv_Private = False, pv_Discovery = ''pinned'', pv_Models = []\<rparr>]\<rparr>"

definition configFromInvite :: "string \<Rightarrow> RedeemInviteResponse \<Rightarrow> Config option \<Rightarrow> Config" where
  "configFromInvite hostname resp existing =
     (let cfg = (case existing of Some c \<Rightarrow> c | None \<Rightarrow> defaultJoinConfig hostname)
      in cfg\<lparr>cf_Mesh := (cf_Mesh cfg)\<lparr>mf_Address := TrimSpace (ri_MeshServer resp), mf_Secret := ri_MeshSecret resp,
                                        mf_MeshId := ri_MeshId resp\<rparr>\<rparr>)"

definition existingJoinWarning :: "'k world \<Rightarrow> string \<Rightarrow> Config option \<Rightarrow> string" where
  "existingJoinWarning Wo abs_path cfg =
     (let cwd = (case wo_Getwd Wo of Inl e \<Rightarrow> ''.'' | Inr d \<Rightarrow> d); nl = [CHR 0x0A] in
      ''Found '' @ abs_path @ nl @ ''Working directory: '' @ cwd @ nl
      @ (case cfg of
           Some c \<Rightarrow> if mf_MeshId (cf_Mesh c) \<noteq> [] \<or> mf_Address (cf_Mesh c) \<noteq> []
                     then ''Current mesh: '' @ mf_MeshId (cf_Mesh c) @ '' @ '' @ mf_Address (cf_Mesh c) @ nl else []
         | None \<Rightarrow> [])
      @ ''If this is the wrong directory, abort now '' @ [CHR 0xE2, CHR 0x80, CHR 0x94]
      @ '' redeeming the invite cannot be undone and will replace mesh address, mesh id, and secret in this config.'')"

text \<open>\<open>confirm\<close> is the answer to the form that shows the warning.\<close>

definition existingJoinConfig ::
  "'k world \<Rightarrow> (string \<Rightarrow> bool result) \<Rightarrow> files \<Rightarrow> (Config option \<times> bool) result" where
  "existingJoinConfig Wo confirm fs =
     (if \<not> fileExists fs ''config.yaml'' then Inr (None, True)
      else
        (let abs_path = (case wo_Abs Wo ''config.yaml'' of Inl e \<Rightarrow> ''config.yaml'' | Inr p \<Rightarrow> p) in
         (case LoadConfig (config_file fs) (wo_yaml Wo) (wo_hostname Wo) of
            Inl e \<Rightarrow> Inl (wrap_error ''load config.yaml'' e)
          | Inr cfg \<Rightarrow>
              (case confirm (existingJoinWarning Wo abs_path (Some cfg)) of
                 Inl e \<Rightarrow> if aborted (Some e) then Inr (None, False) else Inl e
               | Inr cont \<Rightarrow> if \<not> cont then Inr (None, False) else Inr (Some cfg, True)))))"

definition joinWithInvite ::
  "wire \<Rightarrow> 's net_http \<Rightarrow> (string \<Rightarrow> URL result) \<Rightarrow> 'k world \<Rightarrow> string \<Rightarrow> Config option \<Rightarrow> files \<Rightarrow> 's \<Rightarrow>
   goerr option \<times> files \<times> 's" where
  "joinWithInvite W http url_Parse Wo link existing fs s =
     (let (key, fs1) = load_key Wo ''node.key'' fs in
      (case key of
         Inl e \<Rightarrow> (Some (wrap_error ''node key'' e), fs1, s)
       | Inr k \<Rightarrow>
      (case ck_ID (wo_crypto Wo) k of
         Inl e \<Rightarrow> (Some (wrap_error ''peer id'' e), fs1, s)
       | Inr i \<Rightarrow>
      (let name = (case existing of
                     Some c \<Rightarrow> if TrimSpace (mf_Name (cf_Mesh c)) \<noteq> [] then mf_Name (cf_Mesh c) else wo_hostname Wo
                   | None \<Rightarrow> wo_hostname Wo);
           (r, s1) = RedeemInvite W http url_Parse link (NewPeerNode i name) s in
      (case r of
         Inl e \<Rightarrow> (Some (wrap_error ''redeem invite'' e), fs1, s1)
       | Inr resp \<Rightarrow>
      (case wo_yaml_text Wo (configFromInvite (wo_hostname Wo) resp existing) of
         Inl e \<Rightarrow> (Some (wrap_error ''encode config'' e), fs1, s1)
       | Inr data \<Rightarrow>
      (let (err, fs2) = write_file Wo ''config.yaml'' data fs1 in
      (case err of
         Some e \<Rightarrow> (Some (wrap_error ''write config.yaml'' e), fs2, s1)
       | None \<Rightarrow> (None, fs2, s1)))))))))"

text \<open>\<open>runJoin\<close> up to the start of the proxy: \<open>None\<close> in the second place when the user aborted.\<close>

definition runJoin ::
  "wire \<Rightarrow> 's net_http \<Rightarrow> (string \<Rightarrow> URL result) \<Rightarrow> 'k world \<Rightarrow> (string \<Rightarrow> bool result) \<Rightarrow> string list \<Rightarrow> files \<Rightarrow> 's \<Rightarrow>
   Config option result \<times> files \<times> 's" where
  "runJoin W http url_Parse Wo confirm args fs s =
     (if length args \<noteq> 1 \<or> TrimSpace (hd args) = [] then (Inl (GoErr ''usage: mesh join <invite-url>''), fs, s)
      else
        (case existingJoinConfig Wo confirm fs of
           Inl e \<Rightarrow> (Inl e, fs, s)
         | Inr (existing, cont) \<Rightarrow>
             if \<not> cont then (Inr None, fs, s)
             else
               (let (err, fs1, s1) = joinWithInvite W http url_Parse Wo (TrimSpace (hd args)) existing fs s in
                (case err of
                   Some e \<Rightarrow> (Inl e, fs1, s1)
                 | None \<Rightarrow> (map_sum (\<lambda>e. e) Some (MustLoadConfig (config_file fs1) (wo_yaml Wo) (wo_hostname Wo)), fs1, s1)))))"

section \<open>mesh proxy and mesh admin\<close>

definition adminControllerAddr :: "Config \<Rightarrow> (string \<times> string) option" where
  "adminControllerAddr config =
     (let secret = TrimSpace (ac_Secret (cf_Admin config)) in
      if secret = [] then None
      else
        (let addr = TrimSpace (ac_Address (cf_Admin config));
             addr' = (if addr = [] then TrimSpace (mf_Address (cf_Mesh config)) else addr)
         in if addr' = [] then None else Some (addr', secret)))"

text \<open>\<open>admin addr secret\<close> answers the calls of the admin client for that address.\<close>

definition attachAdminController :: "(string \<Rightarrow> string \<Rightarrow> admin_call \<Rightarrow> reply result) \<Rightarrow> Config \<Rightarrow> Proxy \<Rightarrow> Proxy" where
  "attachAdminController admin config p =
     (case adminControllerAddr config of
        None \<Rightarrow> p
      | Some (addr, secret) \<Rightarrow> WithAdminController (admin addr secret) p)"

text \<open>
  The mesh service and the proxy on it, which installs its two handlers in the service (the end of \<open>NewProxy\<close>); \<open>RunInterruptible\<close> then
  serves the proxy.
\<close>

definition attach_proxy :: "answer_io \<Rightarrow> px_env \<Rightarrow> ('s, Proxy) Service \<Rightarrow> ('s, Proxy) Service" where
  "attach_proxy io PE service =
     Service_WithUpdateHandlerFunc (OnPeerUpdate PE) (Service_WithHandlerFunc (mesh_handler io PE) service)"

definition runProxy ::
  "wire \<Rightarrow> ('k, 'h) service_env \<Rightarrow> 's net_http \<Rightarrow> answer_io \<Rightarrow> px_env \<Rightarrow> (Provider \<Rightarrow> fetch_env) \<Rightarrow>
   (string \<Rightarrow> string \<Rightarrow> admin_call \<Rightarrow> reply result) \<Rightarrow> Config \<Rightarrow> 's \<Rightarrow>
   (Proxy \<times> ('s, Proxy) Service \<times> 'h host \<times> 'h) result \<times> 's" where
  "runProxy W E http io PE fenv admin config s =
     (let (r, s1) = NewService W E http False (cf_Mesh config) s in
      (case r of
         Inl e \<Rightarrow> (Inl (GoPanic (''Could not initialize mesh err:'' @ Error_string e)), s1)
       | Inr (service, H, h) \<Rightarrow>
           (let PE' = PE\<lparr>pe_node := Service_Node service\<rparr>;
                p = NewProxy PE' fenv (cf_Listen config) (cf_Providers config)
            in (Inr (attachAdminController admin config p, attach_proxy io PE' service, H, h), s1))))"

definition runHybrid :: "Config \<Rightarrow> goerr option" where
  "runHybrid config = Some (GoErr ''hybrid mode not implemented'')"

definition discoverPublicAddress :: "AddressDiscovery result \<Rightarrow> Config \<Rightarrow> string" where
  "discoverPublicAddress public config =
     (let publicAddress = mf_PublicAddress (cf_Mesh config) in
      if publicAddress = [] \<or> publicAddress = ''auto'' then
        (case public of
           Inl e \<Rightarrow> []
         | Inr dc \<Rightarrow> if IsPublic dc then ad_Public dc else if IsNAT dc then ad_Public dc else publicAddress)
      else publicAddress)"

text \<open>The copy of \<open>OutboundIP\<close> in \<open>pkg/admin/server.go\<close>, which nothing calls.\<close>

definition admin_OutboundIP :: "local_addr result \<Rightarrow> string result" where
  "admin_OutboundIP dial =
     (case dial of
        Inl e \<Rightarrow> Inl e
      | Inr (UDPAddr ip) \<Rightarrow> Inr ip
      | Inr (OtherAddr type) \<Rightarrow> Inl (GoErr (''unexpected local addr type: '' @ type)))"

text \<open>
  \<open>NewRelay\<close> of \<open>relay.go\<close>: the options that vary, among those given to \<open>libp2p.New\<close>, which returns a host or fails.
\<close>

record relay_opts =
  ro_listen :: "string list"
  ro_advertise :: "string list option"
  ro_gate :: "GateKeeper option"

definition announced_addresses :: "libp2p \<Rightarrow> string list \<Rightarrow> int \<Rightarrow> string list result" where
  "announced_addresses L publicAddress relayPort =
     foldr (\<lambda>a rest. case StringCast L (''/ip4/'' @ a @ ''/udp/'' @ itoa relayPort @ ''/quic-v1'') of
                        Inl e \<Rightarrow> Inl e
                      | Inr m \<Rightarrow> (case rest of Inl e \<Rightarrow> Inl e | Inr ms \<Rightarrow> Inr (m # ms)))
       publicAddress (Inr [])"

definition NewRelay ::
  "libp2p \<Rightarrow> ('k \<Rightarrow> relay_opts \<Rightarrow> ('h host \<times> 'h) result) \<Rightarrow> 'k \<Rightarrow> string list option \<Rightarrow> GateKeeper option \<Rightarrow> int \<Rightarrow>
   ('h Relay \<times> 'h) result" where
  "NewRelay L libp2p_New privateKey publicAddress gate relayPort =
     (let options = \<lparr>ro_listen = [''/ip4/0.0.0.0/udp/'' @ itoa relayPort @ ''/quic-v1''], ro_advertise = None, ro_gate = gate\<rparr>;
          start = (\<lambda>opts. case libp2p_New privateKey opts of Inl e \<Rightarrow> Inl e | Inr (H, h) \<Rightarrow> Inr (NewRelayOnHost H, h))
      in (case publicAddress of
            None \<Rightarrow> start options
          | Some as \<Rightarrow>
              (case announced_addresses L as relayPort of
                 Inl e \<Rightarrow> Inl e
               | Inr publicMA \<Rightarrow> start (options\<lparr>ro_advertise := Some publicMA\<rparr>))))"

text \<open>The relay's gate consults the allow list of the running admin server.\<close>

definition relay_gate :: "'db Server \<Rightarrow> GateKeeper" where
  "relay_gate s = NewGateKeeper (Has (srv_acl s))"

text \<open>The admin server and the relay it runs with; \<open>RunInterruptible\<close> then serves both.\<close>

definition runAdminAndRelay ::
  "('db, 'd) deps \<Rightarrow> libp2p \<Rightarrow> ('k \<Rightarrow> relay_opts \<Rightarrow> ('h host \<times> 'h) result) \<Rightarrow> 'k world \<Rightarrow> AddressDiscovery result \<Rightarrow>
   string result \<Rightarrow> open_result \<Rightarrow> 'db result \<Rightarrow> Config \<Rightarrow> files \<Rightarrow> ('db Server \<times> 'h Relay \<times> 'h) option result \<times> files" where
  "runAdminAndRelay D L libp2p_New Wo public key_bytes allow_file db config fs =
     (let (key, fs1) = load_key Wo ''relay.key'' fs in
      (case key of
         Inl e \<Rightarrow> (Inl e, fs1)
       | Inr k \<Rightarrow>
      (let addr = discoverPublicAddress public config in
       if addr = [] then (Inr None, fs1)
       else
      (case NewServer D key_bytes allow_file db ('':'' @ itoa (ac_AdminPort (cf_Admin config))) (ac_Secret (cf_Admin config)) of
         Inl e \<Rightarrow> (Inl (GoPanic (''Could not initialize relay service. Err:'' @ Error_string e)), fs1)
       | Inr s \<Rightarrow>
      (let s1 = WithAdvertiseURL (ac_Address (cf_Admin config)) s in
      (case NewRelay L libp2p_New k (Some [addr]) (Some (relay_gate s1)) (ac_RelayPort (cf_Admin config)) of
         Inl (GoPanic e) \<Rightarrow> (Inl (GoPanic e), fs1)
       | Inl e \<Rightarrow> (Inl (GoPanic (''Could not initialize relay service. Err:'' @ Error_string e)), fs1)
       | Inr (relay, h) \<Rightarrow> (Inr (Some (WithRelayAddresses (GetAddresses relay h) s1, relay, h)), fs1)))))))"

text \<open>
  The relay's gate admits exactly the peers on the server's list, and the relay announces itself under the discovered address: what nodes get
  from \<open>apiRelayGet\<close> are the announced addresses with the relay's id.
\<close>

lemma relay_announced:
  assumes "runAdminAndRelay D L libp2p_New Wo public key_bytes allow_file db config fs = (Inr (Some (s, relay, h)), fs')"
    and host: "\<And>k opts H h ms. libp2p_New k opts = Inr (H, h) \<Longrightarrow> ro_advertise opts = Some ms \<Longrightarrow> h_Addrs H h = ms"
  shows "discoverPublicAddress public config \<noteq> []"
    and "announced_addresses L [discoverPublicAddress public config] (ac_RelayPort (cf_Admin config)) = Inr (h_Addrs (rl_host relay) h)"
    and "srv_relayAddress s = GetAddresses relay h"
proof -
  obtain k fs1 where key: "load_key Wo ''relay.key'' fs = (Inr k, fs1)"
    using assms(1) by (auto simp: runAdminAndRelay_def split: prod.splits sum.splits)
  then show addr: "discoverPublicAddress public config \<noteq> []"
    using assms(1) by (auto simp: runAdminAndRelay_def Let_def split: if_splits)
  let ?new = "\<lambda>s. NewRelay L libp2p_New k (Some [discoverPublicAddress public config])
    (Some (relay_gate (WithAdvertiseURL (ac_Address (cf_Admin config)) s))) (ac_RelayPort (cf_Admin config))"
  obtain s0 where s: "?new s0 = Inr (relay, h)" "s = WithRelayAddresses (GetAddresses relay h) (WithAdvertiseURL (ac_Address (cf_Admin config)) s0)"
    using assms(1) key addr by (auto simp: runAdminAndRelay_def Let_def split: sum.splits goerr.splits prod.splits)
  then show "announced_addresses L [discoverPublicAddress public config] (ac_RelayPort (cf_Admin config)) = Inr (h_Addrs (rl_host relay) h)"
    by (auto simp: NewRelay_def NewRelayOnHost_def Let_def split: sum.splits prod.splits dest!: host)
  show "srv_relayAddress s = GetAddresses relay h" unfolding s(2) by (simp add: WithRelayAddresses_def)
qed

lemma proxy_attached:
  "sv_handler (attach_proxy io PE m) = mesh_handler io PE" "dm_onUpdate (sv_discovery (attach_proxy io PE m)) = Some (OnPeerUpdate PE)"
  "sv_node (attach_proxy io PE m) = sv_node m"
  using service_provider.attached [of "OnPeerUpdate PE" "mesh_handler io PE" m] by (simp_all add: attach_proxy_def Service_Node_def)

lemma proxy_attached_frame:
  "sv_relayInfo (attach_proxy io PE m) = sv_relayInfo m"
  "dm_admin (sv_discovery (attach_proxy io PE m)) = dm_admin (sv_discovery m)"
  "dm_selfID (sv_discovery (attach_proxy io PE m)) = dm_selfID (sv_discovery m)"
  "dm_node (sv_discovery (attach_proxy io PE m)) = dm_node (sv_discovery m)"
  by (simp_all add: attach_proxy_def Service_WithHandlerFunc_def Service_WithUpdateHandlerFunc_def UpdateHandler_def)

section \<open>Dispatch\<close>

datatype command = Usage | Init | JoinCommand "string list" | RunProxy | RunAdmin | RunHybrid

text \<open>\<open>main\<close>: all commands but \<open>init\<close> and \<open>join\<close> load the configuration first, also those that do not exist.\<close>

definition main_command :: "string list \<Rightarrow> command \<times> bool" where
  "main_command args =
     (case args of
        [] \<Rightarrow> (Usage, False)
      | [_] \<Rightarrow> (Usage, False)
      | _ # c # rest \<Rightarrow>
          (let cmd = ToLower c in
           if cmd = ''init'' then (Init, False)
           else if cmd = ''join'' then (JoinCommand rest, False)
           else if cmd = ''proxy'' then (RunProxy, True)
           else if cmd = ''admin'' then (RunAdmin, True)
           else if cmd = ''proxy+admin'' \<or> cmd = ''standalone'' \<or> cmd = ''hybrid'' then (RunHybrid, True)
           else (Usage, True)))"

end
