(* ===== verification/Joining.thy ===== *)
theory Joining
  imports Commands
begin

text \<open>
  From an invitation to a running node: the commands of \<open>cmd/mesh\<close> and the constructor of the mesh service,
  talking to the admin server over HTTP.
\<close>

section \<open>Configuration files\<close>

text \<open>The keys of the block mapping under a top-level key of a document written one key per line.\<close>

definition line_key :: "string \<Rightarrow> string" where
  "line_key l = takeWhile (\<lambda>c. c \<noteq> CHR '':'') (dropWhile (\<lambda>c. c = CHR '' '') l)"

definition plain_line :: "string \<Rightarrow> bool" where
  "plain_line l \<longleftrightarrow> (case dropWhile (\<lambda>c. c = CHR '' '') l of [] \<Rightarrow> False | c # cs \<Rightarrow> c \<noteq> CHR ''#'')"

definition keys_under :: "string \<Rightarrow> string list \<Rightarrow> string list" where
  "keys_under key ls =
     map line_key (filter plain_line
       (takeWhile (\<lambda>l. l = [] \<or> hd l = CHR '' '' \<or> hd l = CHR ''#'') (tl (dropWhile (\<lambda>l. l \<noteq> key @ '':'') ls))))"

text \<open>
  What the program relies on of the YAML decoder: in a document of printable lines whose keys at the top and under \<open>mesh\<close>
  are plain words, a field for which \<open>mesh\<close> has no key is not touched. Quoted, merged and flow-style keys are
  outside this fragment.
\<close>

definition printable_line :: "string \<Rightarrow> bool" where
  "printable_line l \<longleftrightarrow> list_all (\<lambda>c. \<not> digit7 c \<and> (digit5 c \<or> digit6 c) \<and> c \<noteq> CHR 0x7F) l"   \<comment> \<open>bytes 32 to 126\<close>

definition plain_key :: "string \<Rightarrow> bool" where
  "plain_key k \<longleftrightarrow> k \<noteq> [] \<and>
     list_all (\<lambda>c. c = CHR ''_'' \<or> 97 \<le> (of_char c :: nat) \<and> of_char c \<le> (122 :: nat)) k"

definition block_document :: "string list \<Rightarrow> bool" where
  "block_document ls \<longleftrightarrow> list_all printable_line ls \<and> ''mesh:'' \<in> set ls \<and>
     list_all (\<lambda>l. l = [] \<or> hd l = CHR '' '' \<or> hd l = CHR ''#'' \<or> plain_key (line_key l)) ls \<and>
     list_all plain_key (keys_under ''mesh'' ls)"

definition lines_text :: "string list \<Rightarrow> string" where
  "lines_text ls = concat (map (\<lambda>l. l @ [CHR 0x0A]) ls)"

definition reads_blocks :: "(string \<Rightarrow> Config \<Rightarrow> Config result) \<Rightarrow> bool" where
  "reads_blocks yaml \<longleftrightarrow>
     (\<forall>ls c0 c. block_document ls \<and> yaml (lines_text ls) c0 = Inr c \<and> ''address'' \<notin> set (keys_under ''mesh'' ls) \<longrightarrow>
        mf_Address (cf_Mesh c) = mf_Address (cf_Mesh c0))"

lemma Split_lines_text: "list_all printable_line ls \<Longrightarrow> Split (CHR 0x0A) (lines_text ls) = ls @ [[]]"
proof (induction ls)
  case (Cons l ls)
  then have "\<forall>c \<in> set l. digit5 c \<or> digit6 c" by (simp add: printable_line_def list_all_iff)
  moreover have "\<not> (digit5 (CHR 0x0A) \<or> digit6 (CHR 0x0A))" by simp
  ultimately have "CHR 0x0A \<notin> set l" by blast
  then show ?case using Cons by (simp add: lines_text_def Split_sep)
qed (simp add: lines_text_def)

lemma init_mesh_keys:
  "keys_under ''mesh'' (config_lines Q s) =
     [''name'', ''admin_address'', ''admin_secret'', ''admin_port'', ''relay_port'', ''public_address'', ''app_port'',
      ''force_private'', ''mdns_enabled'']"
  by (simp add: keys_under_def config_lines_def plain_line_def line_key_def)

lemma load_key_node:
  assumes "load_key Wo path fs = (Inr k, fs')" and "path \<noteq> []"
    and "\<forall>k d. ck_Marshal (wo_crypto Wo) k = Inr d \<longrightarrow> ck_Unmarshal (wo_crypto Wo) d = Inr k"
  shows "\<exists>b. fs' path = Some b \<and> ck_Unmarshal (wo_crypto Wo) b = Inr k"
  using assms
  by (auto simp: load_key_def LoadOrCreateKey_def read_file_def split: option.splits sum.splits)

lemma load_key_frame: "load_key Wo path fs = (r, fs') \<Longrightarrow> p \<noteq> path \<Longrightarrow> fs' p = fs p"
  by (auto simp: load_key_def split: prod.splits option.splits)

lemma joined_ok:
  assumes "joinWithInvite W http url_Parse Wo link existing fs s = (None, fs', s')"
  shows "\<exists>k i name resp data. fst (load_key Wo ''node.key'' fs) = Inr k \<and> ck_ID (wo_crypto Wo) k = Inr i \<and>
    RedeemInvite W http url_Parse link (NewPeerNode i name) s = (Inr resp, s') \<and>
    wo_yaml_text Wo (configFromInvite (wo_hostname Wo) resp existing) = Inr data \<and>
    fs' = (snd (load_key Wo ''node.key'' fs))(''config.yaml'' \<mapsto> data)"
proof -
  obtain key fs1 where lk: "load_key Wo ''node.key'' fs = (key, fs1)" by fastforce
  obtain k where k: "key = Inr k" using assms lk by (cases key) (simp_all add: joinWithInvite_def)
  obtain i where i: "ck_ID (wo_crypto Wo) k = Inr i"
    using assms lk k by (cases "ck_ID (wo_crypto Wo) k") (simp_all add: joinWithInvite_def)
  let ?name = "case existing of Some c \<Rightarrow> if TrimSpace (mf_Name (cf_Mesh c)) \<noteq> [] then mf_Name (cf_Mesh c) else wo_hostname Wo
                 | None \<Rightarrow> wo_hostname Wo"
  obtain r s1 where r: "RedeemInvite W http url_Parse link (NewPeerNode i ?name) s = (r, s1)" by fastforce
  obtain resp where resp: "r = Inr resp" using assms lk k i r by (cases r) (simp_all add: joinWithInvite_def)
  obtain data where data: "wo_yaml_text Wo (configFromInvite (wo_hostname Wo) resp existing) = Inr data"
    using assms lk k i r resp
    by (cases "wo_yaml_text Wo (configFromInvite (wo_hostname Wo) resp existing)") (simp_all add: joinWithInvite_def)
  have "fs' = fs1(''config.yaml'' \<mapsto> data)" "s' = s1"
    using assms lk k i r resp data
    by (cases "wo_write Wo ''config.yaml''"; simp add: joinWithInvite_def write_file_def)+
  then show ?thesis using lk k i r resp data by auto
qed

lemma invite_keeps_defaults:
  "h \<noteq> [] \<Longrightarrow> applyConfigDefaults h (configFromInvite h resp (Some (applyConfigDefaults h c))) =
     configFromInvite h resp (Some (applyConfigDefaults h c))"
  by (simp add: defaults_fields configFromInvite_def DefaultProxyListen_def DefaultRelayPort_def DefaultAdminPort_def)

section \<open>Starting the service\<close>

lemma client_relay:
  assumes "DoAuth (srv_auth s) (in_auth_now (inp k)) (''Bearer '' @ cl_token c) = (Some u, StatusOK)" and "cl_token c \<noteq> []"
    and "cl_rt c = admin_http W D inp (cl_Address c)"
    and "codec_faithful (w_relay W) \<lparr>gr_ID = [], gr_MultiAddress = srv_relayAddress s, gr_LastUpdate = srv_lastUpdate s,
           gr_LogicalTime = srv_logicalTime s\<rparr>"
  shows "GetAddress W c (k, s) = (Inr (srv_relayAddress s), (Suc k, s))"
proof -
  let ?resp = "\<lparr>gr_ID = [], gr_MultiAddress = srv_relayAddress s, gr_LastUpdate = srv_lastUpdate s, gr_LogicalTime = srv_logicalTime s\<rparr>"
  obtain d where d: "Marshal (w_relay W) ?resp = Inr d" "Unmarshal (w_relay W) d = Inr ?resp"
    using assms(4) unfolding codec_faithful_def by blast
  have r: "routes D (inp k) (call_request W (cl_token c) ''GET'' (v1 [''relay'']) None) s =
      (reply_or_error (Inr (ReplyRelay ?resp)), s)"
    using assms(1,2) by (simp add: routes_def call_request_def method_is_def id_under_def authenticated_def apiRelayGet_def)
  have path: "Split (CHR ''/'') ''api/v1/relay'' = v1 [''relay'']" by code_simp
  show ?thesis
    unfolding GetAddress_def GetRelay_def
    using Get_admin [OF assms(3), of "''api/v1/relay''" "w_relay W" k s] path r d
      call_result_reply [of W "ReplyRelay ?resp" d "Unmarshal (w_relay W)"]
    by (simp add: encode_reply_def)
qed

text \<open>What the key file of a node gives.\<close>

lemma key_read:
  assumes "se_key_file E = ReadOk b" and "ck_Unmarshal (se_crypto E) b = Inr key"
  shows "LoadOrCreateKey (se_crypto E) (se_rand E) (se_key_file E) (se_write_key E) ''node.key'' = (Inr key, None)"
  using assms by (simp add: LoadOrCreateKey_def)

lemma relays_grouped:
  assumes "\<forall>s \<in> set addrList. \<exists>ai. lp_AddrInfoFromString L s = Inr ai" and "is_iter ord"
  shows "\<exists>relays. PeerAddrInfoFromMulti L ord addrList = Inr relays \<and> ai_ID ` set relays = listed_ids L addrList"
  using grouped_by_peer [OF assms] by blast

text \<open>The addresses a node with a public address announces parse.\<close>

definition announces :: "('k, 'h) service_env \<Rightarrow> MeshConfig \<Rightarrow> bool" where
  "announces E mc \<longleftrightarrow>
     (let a = mf_PublicAddress (snd (visibility (se_public E) mc)); parses = (\<lambda>s. isl (lp_NewMultiaddr (se_libp2p E) s) = False) in
      parses (''/ip4/'' @ a @ ''/tcp/4001'') \<and> parses (''/ip4/'' @ a @ ''/udp/4001/quic-v1''))"

lemma host_options_ok:
  assumes "announces E mc"
  shows "\<exists>opts. host_options (se_libp2p E) (se_public E) gater relays mc = Inr opts"
proof -
  obtain b mc' where v: "visibility (se_public E) mc = (b, mc')" by fastforce
  have "\<exists>m. StringCast (se_libp2p E) s = Inr m" if "\<not> isl (lp_NewMultiaddr (se_libp2p E) s)" for s
    using that by (auto simp: StringCast_def isl_def split: sum.splits)
  then obtain m n where cast: "StringCast (se_libp2p E) (''/ip4/'' @ mf_PublicAddress mc' @ ''/tcp/4001'') = Inr m"
    "StringCast (se_libp2p E) (''/ip4/'' @ mf_PublicAddress mc' @ ''/udp/4001/quic-v1'') = Inr n"
    using assms v unfolding announces_def Let_def by force
  show ?thesis unfolding host_options_def Let_def v prod.case cast sum.case by (cases b) simp_all
qed

lemma redeemed_node_logs_in:
  assumes "available D" and "gcm_ok (dep_gcm D)" and "reach D n s1"
    and "adminRedeemInviteLink D inp0 \<lparr>rpc_user = None, rpc_id = i, rpc_body = Some node\<rparr> s = (Inr (ReplyRedeem resp), s1)"
    and "ri_MeshId resp = ''default''" and "ri_MeshSecret resp \<noteq> []"
    and "\<forall>r d. Marshal (dep_node D) r = Inr d \<longrightarrow>
           (\<exists>r'. Unmarshal (dep_node D) d = Inr r' \<and> mn_PasswordHash r' = mn_PasswordHash r)"
    and "\<forall>j. \<exists>nonce. in_nonce (inp j) = Inr nonce \<and> length nonce = gcm_NonceSize" and "length (srv_magicKey s1) = keySize"
    and "codec_faithful (dep_claims D) \<lparr>sc_NodeID = pn_ID node, sc_Expires = 0\<rparr>"
    and "codec_faithful (w_login W) \<lparr>nl_NodeID = pn_ID node, nl_MeshId = ''default'', nl_MeshSecret = ri_MeshSecret resp\<rparr>"
    and "\<forall>token. codec_faithful (w_session W) \<lparr>nr_Token = token, nr_NodeID = pn_ID node, nr_Expires = 0\<rparr>"
    and "cl_rt c = admin_http W D inp (cl_Address c)"
  shows "\<exists>token. Login W (Mesh ''default'') (pn_ID node) (ri_MeshSecret resp) c (j, s1) = (None, SetToken token c, (Suc j, s1)) \<and>
    token \<noteq> [] \<and>
    (\<forall>now. DoAuth (srv_auth s1) now (''Bearer '' @ token) = (Some \<lparr>prop_User = pn_ID node, prop_Group = ''mesh''\<rparr>, StatusOK))"
proof -
  let ?i = "pn_ID node" and ?sec = "ri_MeshSecret resp"
  obtain nonce where nonce: "in_nonce (inp j) = Inr nonce" "length nonce = gcm_NonceSize" using assms(8) by blast
  obtain token where t: "apiNodeLogin D (inp j) \<lparr>rpc_user = None, rpc_id = [],
       rpc_body = Some \<lparr>nl_NodeID = ?i, nl_MeshId = ''default'', nl_MeshSecret = ?sec\<rparr>\<rparr> s1 =
     (Inr (ReplyLogin \<lparr>nr_Token = token, nr_NodeID = ?i, nr_Expires = 0\<rparr>), s1)" and "token \<noteq> []"
    and "\<And>now. DoAuth (srv_auth s1) now (''Bearer '' @ token) = (Some \<lparr>prop_User = ?i, prop_Group = ''mesh''\<rparr>, StatusOK)"
    using redeemed_login [OF assms(1-4) _ _ assms(6,7) nonce assms(9,10)] assms(5) by auto
  moreover have "Login W (Mesh ''default'') ?i ?sec c (j, s1) = (None, SetToken token c, (Suc j, s1))"
    using client_login [of D inp j ?i "Mesh ''default''" ?sec s1 _ s1 c W] t assms(11,12,13) by (simp add: Mesh_def)
  ultimately show ?thesis by blast
qed

text \<open>A node that can log in whatever token it had: \<open>NewService\<close> makes its three calls and returns.\<close>

lemma service_starts:
  assumes login: "\<And>c j. cl_rt c = admin_http W D inp (cl_Address c) \<Longrightarrow>
      \<exists>token. Login W (Mesh ''default'') i (mf_Secret mc) c (j, s1) = (None, SetToken token c, (Suc j, s1)) \<and> token \<noteq> [] \<and>
        (\<forall>now. DoAuth (srv_auth s1) now (''Bearer '' @ token) = (Some u, StatusOK))"
    and "codec_faithful (w_relay W) \<lparr>gr_ID = [], gr_MultiAddress = srv_relayAddress s1, gr_LastUpdate = srv_lastUpdate s1,
           gr_LogicalTime = srv_logicalTime s1\<rparr>"
    and "http = admin_http W D inp (mf_Address mc)"
    and "se_key_file E = ReadOk b" and "ck_Unmarshal (se_crypto E) b = Inr key" and "ck_ID (se_crypto E) key = Inr i"
    and "\<forall>a \<in> set (srv_relayAddress s1). \<exists>ai. lp_AddrInfoFromString (se_libp2p E) a = Inr ai" and "is_iter (se_order E)"
    and "announces E mc" and "\<forall>opts. se_New E key opts = Inr (H, h)" and "h_ID H = i"
  shows "\<exists>service h' c. NewService W E http gater mc (k, s1) = (Inr (service, H, h'), (k + 3, s1)) \<and>
    sv_node service = NewPeerNode i (mf_Name mc) \<and>
    ai_ID ` set (sv_relayInfo service) = listed_ids (se_libp2p E) (srv_relayAddress s1) \<and>
    sv_discovery service = NewDiscoveryManager c i (NewPeerNode i (mf_Name mc)) (mf_MDNSEnabled mc) \<and>
    (\<forall>now. DoAuth (srv_auth s1) now (''Bearer '' @ cl_token c) = (Some u, StatusOK))"
proof -
  let ?c0 = "NewClient http (mf_Address mc) (mf_Secret mc)"
  have rt0: "cl_rt ?c0 = admin_http W D inp (cl_Address ?c0)" using assms(3) by (simp add: NewClient_def)
  obtain t1 where l1: "Login W (Mesh ''default'') i (mf_Secret mc) ?c0 (k, s1) = (None, SetToken t1 ?c0, (Suc k, s1))" "t1 \<noteq> []"
    "DoAuth (srv_auth s1) (in_auth_now (inp (Suc k))) (''Bearer '' @ t1) = (Some u, StatusOK)"
    using login [OF rt0] by blast
  let ?c1 = "SetToken t1 ?c0"
  have rt1: "cl_rt ?c1 = admin_http W D inp (cl_Address ?c1)" "cl_token ?c1 = t1"
    using rt0 by (simp_all add: SetToken_def NewClient_def)
  have relay: "GetAddress W ?c1 (Suc k, s1) = (Inr (srv_relayAddress s1), (Suc (Suc k), s1))"
    using client_relay [where c = ?c1, OF _ _ rt1(1) assms(2)] l1(2,3) rt1(2) by simp
  obtain t2 where l2: "Login W (Mesh ''default'') i (mf_Secret mc) ?c1 (Suc (Suc k), s1) = (None, SetToken t2 ?c1, (Suc (Suc (Suc k)), s1))"
    "\<forall>now. DoAuth (srv_auth s1) now (''Bearer '' @ t2) = (Some u, StatusOK)"
    using login [OF rt1(1)] by blast
  obtain relays where relays: "PeerAddrInfoFromMulti (se_libp2p E) (se_order E) (srv_relayAddress s1) = Inr relays"
    "ai_ID ` set relays = listed_ids (se_libp2p E) (srv_relayAddress s1)"
    using relays_grouped [OF assms(7,8)] by blast
  obtain opts where opts: "host_options (se_libp2p E) (se_public E) gater relays mc = Inr opts"
    using host_options_ok [OF assms(9)] by blast
  have key: "fst (LoadOrCreateKey (se_crypto E) (se_rand E) (se_key_file E) (se_write_key E) ''node.key'') = Inr key"
    using key_read [OF assms(4,5)] by simp
  let ?node = "NewPeerNode i (mf_Name mc)" and ?c2 = "SetToken t2 ?c1"
  have ns: "NewService W E http gater mc (k, s1) =
      (Inr (\<lparr>sv_node = ?node, sv_relayInfo = relays, sv_admin = ?c2, sv_peers = Map.empty, sv_handler = default_handler,
             sv_config = snd (visibility (se_public E) mc), sv_discovery = NewDiscoveryManager ?c2 i ?node (mf_MDNSEnabled mc)\<rparr>,
            H, h_SetStreamHandler H OllamaProtocol (dial_relays H relays h)), (k + 3, s1))"
    using key assms(6,10,11) l1(1) relay relays(1) opts l2(1) by (simp add: NewService_def NodeIDFromKey_def Let_def numeral_3_eq_3)
  have "cl_token ?c2 = t2" by (simp add: SetToken_def)
  then show ?thesis using relays(2) l2(2) unfolding ns by auto
qed

section \<open>An example\<close>

text \<open>A node directory with a configuration, joining the mesh of the example server.\<close>

definition ex_config :: Config where
  "ex_config = (defaultJoinConfig ''host'')\<lparr>cf_Mesh := (cf_Mesh (defaultJoinConfig ''host''))\<lparr>mf_Name := ''left''\<rparr>\<rparr>"

definition ex_joined_config :: Config where
  "ex_joined_config = configFromInvite ''host'' ex_credentials (Some ex_config)"

definition ex_world :: "string world" where
  "ex_world =
     \<lparr>wo_crypto = ex_crypto, wo_rand = (\<lambda>p. ''n1''), wo_write = (\<lambda>p. None),
      wo_yaml = (\<lambda>d c. Inr (if d = ''new'' then ex_joined_config else ex_config)),
      wo_yaml_text = (\<lambda>c. if c = ex_joined_config then Inr ''new'' else Inl (GoErr ''yaml'')),
      wo_hostname = ''host'', wo_Quote = (\<lambda>s. s), wo_Abs = Inr, wo_Getwd = Inr ''/''\<rparr>"

definition ex_files :: files where
  "ex_files = [''config.yaml'' \<mapsto> ''old'']"

definition ex_service_env :: "(string, unit) service_env" where
  "ex_service_env =
     \<lparr>se_libp2p = ex_libp2p, se_crypto = ex_crypto, se_rand = [], se_key_file = ReadOk ''n1'', se_write_key = (\<lambda>b. None),
      se_order = (\<lambda>m. m), se_public = Inl (GoErr ''offline''), se_New = (\<lambda>k opts. Inr (ex_host False, ()))\<rparr>"

lemma ex_redeem_call:
  "RedeemInvite ex_join_wire ex_http (\<lambda>raw. Inr ex_url) link (ex_node ''n1'') (0, ex_invited) = (Inr ex_credentials, (Suc 0, ex_redeemed))"
proof -
  let ?c = "NewClient ex_http ''http://a'' []"
  have safe: "url_safe ''75''" "pn_ID (ex_node ''n1'') \<noteq> []" by code_simp+
  have "cl_rt ?c = admin_http ex_join_wire ex_deps (\<lambda>k. ex_inputs) (cl_Address ?c)" by (simp add: NewClient_def ex_http_def)
  then have "Client_Post ?c (''/api/v1/redeem/'' @ ''75'') (w_redeem ex_join_wire) (ex_node ''n1'') (w_redeemed ex_join_wire) (0, ex_invited) =
      (Inr ex_credentials, (Suc 0, ex_redeemed))"
    using client_redeem(1) [OF ex_redeem_ok [unfolded ex_redeem_def] _ safe(1)] ex_wire_faithful(5,6) unfolding ex_join_wire_def by blast
  moreover have "parseInviteURL (\<lambda>raw. Inr ex_url) link = Inr ex_url" "u_Scheme ex_url @ ''://'' @ u_Host ex_url = ''http://a''"
    "u_EscapedPath ex_url = ''/api/v1/redeem/'' @ ''75''" "u_RawQuery ex_url = []"
    by (simp_all add: parseInviteURL_def ex_url_def)
  ultimately show ?thesis using safe(2) unfolding RedeemInvite_def Let_def by (simp only: if_False sum.case refl simp_thms)
qed

lemma ex_join_call:
  "\<exists>fs'. joinWithInvite ex_join_wire ex_http (\<lambda>raw. Inr ex_url) ex_world link (Some ex_config) ex_files (0, ex_invited) =
     (None, fs', (Suc 0, ex_redeemed))"
proof -
  have key: "load_key ex_world ''node.key'' ex_files = (Inr ''n1'', ex_files(''node.key'' \<mapsto> ''n1''))"
    by (simp add: load_key_def LoadOrCreateKey_def read_file_def ex_files_def ex_world_def ex_crypto_def)
  have name: "TrimSpace (mf_Name (cf_Mesh ex_config)) \<noteq> []" "mf_Name (cf_Mesh ex_config) = ''left''" by code_simp+
  have "wo_yaml_text ex_world (configFromInvite (wo_hostname ex_world) ex_credentials (Some ex_config)) = Inr ''new''"
    by (simp add: ex_world_def ex_joined_config_def)
  moreover have "ck_ID (wo_crypto ex_world) ''n1'' = Inr ''n1''" "wo_write ex_world ''config.yaml'' = None"
    by (simp_all add: ex_world_def ex_crypto_def)
  ultimately show ?thesis
    using key name ex_redeem_call [of link] by (simp add: joinWithInvite_def write_file_def ex_node_def)
qed

lemma ex_redeemed_reach: "reach ex_deps (Suc 1) ex_redeemed"
proof -
  have "ex_member = ex_redeemed"
    by (simp add: ex_member_def ex_redeemed_def routes_def method_is_def id_under_def ex_request_def handle_def
        split_beta ex_redeem_def Let_def)
  then show ?thesis using ex_member_reach by simp
qed

definition ex_relay :: GetRelayResponse where
  "ex_relay = \<lparr>gr_ID = [], gr_MultiAddress = srv_relayAddress ex_redeemed, gr_LastUpdate = srv_lastUpdate ex_redeemed,
     gr_LogicalTime = srv_logicalTime ex_redeemed\<rparr>"

section \<open>Properties\<close>



text \<open>
  C32. An invited node starts. The server has accepted a redemption for the default mesh. A node whose key
  file holds the key of that node, with the credentials in its configuration, then gets through
  \<open>runProxy\<close>: it logs in, learns the relays, creates its host and logs in again, provided that its
  addresses parse and libp2p gives a host with the id of the key. It gets the server's relays,
  one entry per peer. Its discovery loop talks to the server with a token the server accepts as this node's and reports peers to the
  proxy, and requests from the mesh are served by the proxy.
\<close>

theorem invited_node_starts:
  assumes "available D" and "gcm_ok (dep_gcm D)" and "reach D n s1"
    and "adminRedeemInviteLink D inp0 \<lparr>rpc_user = None, rpc_id = i, rpc_body = Some node\<rparr> s = (Inr (ReplyRedeem resp), s1)"
    and "ri_MeshId resp = ''default''" and "ri_MeshSecret resp \<noteq> []"
    and "\<forall>r d. Marshal (dep_node D) r = Inr d \<longrightarrow>
           (\<exists>r'. Unmarshal (dep_node D) d = Inr r' \<and> mn_PasswordHash r' = mn_PasswordHash r)"
    and "\<forall>j. \<exists>nonce. in_nonce (inp j) = Inr nonce \<and> length nonce = gcm_NonceSize" and "length (srv_magicKey s1) = keySize"
    and "codec_faithful (dep_claims D) \<lparr>sc_NodeID = pn_ID node, sc_Expires = 0\<rparr>"
    and "codec_faithful (w_login W) \<lparr>nl_NodeID = pn_ID node, nl_MeshId = ''default'', nl_MeshSecret = ri_MeshSecret resp\<rparr>"
    and "\<forall>token. codec_faithful (w_session W) \<lparr>nr_Token = token, nr_NodeID = pn_ID node, nr_Expires = 0\<rparr>"
    and "codec_faithful (w_relay W) \<lparr>gr_ID = [], gr_MultiAddress = srv_relayAddress s1, gr_LastUpdate = srv_lastUpdate s1,
           gr_LogicalTime = srv_logicalTime s1\<rparr>"
    and "http = admin_http W D inp (mf_Address (cf_Mesh config))" and "mf_Secret (cf_Mesh config) = ri_MeshSecret resp"
    and "se_key_file E = ReadOk b" and "ck_Unmarshal (se_crypto E) b = Inr key" and "ck_ID (se_crypto E) key = Inr (pn_ID node)"
    and "\<forall>a \<in> set (srv_relayAddress s1). \<exists>ai. lp_AddrInfoFromString (se_libp2p E) a = Inr ai" and "is_iter (se_order E)"
    and "announces E (cf_Mesh config)" and "\<forall>opts. se_New E key opts = Inr (H, h)" and "h_ID H = pn_ID node"
  shows "\<exists>p service h'. runProxy W E http io PE fenv admin config (k, s1) = (Inr (p, service, H, h'), (k + 3, s1)) \<and>
    sv_node service = NewPeerNode (pn_ID node) (mf_Name (cf_Mesh config)) \<and>
    ai_ID ` set (sv_relayInfo service) = listed_ids (se_libp2p E) (srv_relayAddress s1) \<and>
    (\<forall>now. DoAuth (srv_auth s1) now (''Bearer '' @ cl_token (dm_admin (sv_discovery service))) =
       (Some \<lparr>prop_User = pn_ID node, prop_Group = ''mesh''\<rparr>, StatusOK)) \<and>
    dm_selfID (sv_discovery service) = pn_ID node \<and> dm_node (sv_discovery service) = sv_node service \<and>
    dm_onUpdate (sv_discovery service) = Some (OnPeerUpdate (PE\<lparr>pe_node := sv_node service\<rparr>)) \<and>
    sv_handler service = mesh_handler io (PE\<lparr>pe_node := sv_node service\<rparr>)"
proof -
  let ?mc = "cf_Mesh config"
  note login = redeemed_node_logs_in [OF assms(1-12), folded assms(15)]
  obtain service :: "(nat \<times> 'a Server, Proxy) Service" and h' c
    where "NewService W E http False ?mc (k, s1) = (Inr (service, H, h'), (k + 3, s1))"
    "sv_node service = NewPeerNode (pn_ID node) (mf_Name ?mc)"
    "ai_ID ` set (sv_relayInfo service) = listed_ids (se_libp2p E) (srv_relayAddress s1)"
    "sv_discovery service = NewDiscoveryManager c (pn_ID node) (NewPeerNode (pn_ID node) (mf_Name ?mc)) (mf_MDNSEnabled ?mc)"
    "\<forall>now. DoAuth (srv_auth s1) now (''Bearer '' @ cl_token c) = (Some \<lparr>prop_User = pn_ID node, prop_Group = ''mesh''\<rparr>, StatusOK)"
    using service_starts [where mc = ?mc and gater = False, OF login assms(13,14,16-23)] by blast
  then show ?thesis
    by (simp add: runProxy_def Service_Node_def proxy_attached proxy_attached_frame NewDiscoveryManager_def Let_def)
qed

theorem invited_node_starts_witness:
  "let W = ex_join_wire\<lparr>w_relay := pick_codec ex_relay ex_relay\<rparr>
   in \<exists>p service h'. runProxy W ex_service_env (admin_http W ex_deps (\<lambda>k. ex_inputs) (mf_Address (cf_Mesh ex_joined_config)))
          \<lparr>ao_json = (\<lambda>v. ''{}''), ao_other = (\<lambda>a. [])\<rparr> (ex_px_env ''n1'' []) ex_env (\<lambda>a s c. Inl (GoErr ''offline'')) ex_joined_config (0, ex_redeemed) =
        (Inr (p, service, ex_host False, h'), (0 + 3, ex_redeemed)) \<and>
      sv_node service = NewPeerNode ''n1'' (mf_Name (cf_Mesh ex_joined_config)) \<and>
      dm_onUpdate (sv_discovery service) = Some (OnPeerUpdate ((ex_px_env ''n1'' [])\<lparr>pe_node := sv_node service\<rparr>))"
proof -
  let ?W = "ex_join_wire\<lparr>w_relay := pick_codec ex_relay ex_relay\<rparr>" and ?mc = "cf_Mesh ex_joined_config"
  have s: "pn_ID (ex_node ''n1'') = ''n1''" "ri_MeshId ex_credentials = ''default''" "ri_MeshSecret ex_credentials = ''72''"
    "length (srv_magicKey ex_redeemed) = keySize" "srv_relayAddress ex_redeemed = []" "mf_Secret ?mc = ''72''"
    by code_simp+
  have secret: "ri_MeshSecret ex_credentials \<noteq> []" unfolding s(3) by simp
  have nonce: "\<forall>j :: nat. \<exists>nonce. in_nonce ex_inputs = Inr nonce \<and> length nonce = gcm_NonceSize" using ex_nonce by blast
  have login: "codec_faithful (w_login ?W) \<lparr>nl_NodeID = ''n1'', nl_MeshId = ''default'', nl_MeshSecret = ''72''\<rparr>"
    "\<forall>token. codec_faithful (w_session ?W) \<lparr>nr_Token = token, nr_NodeID = ''n1'', nr_Expires = 0\<rparr>"
    using ex_wire_faithful(3,4) by (simp_all add: ex_join_wire_def)
  have relay: "codec_faithful (w_relay ?W) \<lparr>gr_ID = [], gr_MultiAddress = srv_relayAddress ex_redeemed,
      gr_LastUpdate = srv_lastUpdate ex_redeemed, gr_LogicalTime = srv_logicalTime ex_redeemed\<rparr>"
    using pick_faithful by (simp add: ex_relay_def)
  have env: "se_key_file ex_service_env = ReadOk ''n1''" "ck_Unmarshal (se_crypto ex_service_env) ''n1'' = Inr ''n1''"
    "ck_ID (se_crypto ex_service_env) ''n1'' = Inr ''n1''" "is_iter (se_order ex_service_env)"
    "announces ex_service_env ?mc" "\<forall>opts. se_New ex_service_env ''n1'' opts = Inr (ex_host False, ())"
    "h_ID (ex_host False) = ''n1''" "\<forall>a \<in> set (srv_relayAddress ex_redeemed). \<exists>ai. lp_AddrInfoFromString (se_libp2p ex_service_env) a = Inr ai"
    using is_iter_id s(5) by (simp_all add: announces_def Let_def ex_service_env_def ex_crypto_def ex_libp2p_def ex_host_def)
  show ?thesis
    unfolding Let_def
    using invited_node_starts [where inp = "\<lambda>k. ex_inputs" and config = ex_joined_config and k = 0 and W = ?W,
        OF ex_available ex_gcm_ok ex_redeemed_reach ex_redeem_ok [unfolded ex_redeem_def] s(2) secret ex_hash_kept nonce s(4)
          ex_claims_faithful _ _ relay refl, unfolded s(1,3), OF login s(6) env(1,2,3,8,4,5,6,7)] by blast
qed

lemma init_block_document:
  assumes "list_all printable_line (config_lines Q s)"
  shows "block_document (config_lines Q s)"
  using assms unfolding block_document_def init_mesh_keys
  by (simp add: config_lines_def line_key_def plain_key_def)

text \<open>
  C34. A fresh install cannot be started. The file \<open>mesh init\<close> writes has no key \<open>address\<close> under \<open>mesh\<close>, so the decoder leaves
  \<open>Mesh.Address\<close> empty and the commands that load the file end with an error, whatever printable text the
  user entered.
\<close>

theorem init_config_rejected:
  assumes "reads_blocks yaml" and "list_all printable_line (config_lines Q s)"
  shows "\<exists>e. MustLoadConfig (Inr (defaultConfigYAML Q s)) yaml hostname = Inl (GoPanic e)"
proof (cases "yaml (defaultConfigYAML Q s) zero_config")
  case (Inl e)
  then show ?thesis by (simp add: MustLoadConfig_def LoadConfig_def)
next
  case (Inr c)
  have "''address'' \<notin> set (keys_under ''mesh'' (config_lines Q s))" unfolding init_mesh_keys by simp
  moreover have "yaml (lines_text (config_lines Q s)) zero_config = Inr c" using Inr by (simp add: defaultConfigYAML_def lines_text_def)
  ultimately have "mf_Address (cf_Mesh c) = mf_Address (cf_Mesh zero_config)"
    using assms(1) init_block_document [OF assms(2)] unfolding reads_blocks_def by blast
  then have "mf_Address (cf_Mesh c) = []" by (simp add: zero_config_def)
  then show ?thesis using Inr by (simp add: MustLoadConfig_def LoadConfig_def defaults_fields)
qed

text \<open>A decoder that looks for the key, for the settings a user gets by accepting every default.\<close>

definition ex_yaml :: "string \<Rightarrow> Config \<Rightarrow> Config result" where
  "ex_yaml d c =
     Inr (if ''address'' \<in> set (keys_under ''mesh'' (raw_lines d)) then c\<lparr>cf_Mesh := (cf_Mesh c)\<lparr>mf_Address := ''http://mesh''\<rparr>\<rparr> else c)"

lemma ex_yaml_reads: "reads_blocks ex_yaml"
  by (auto simp: reads_blocks_def ex_yaml_def block_document_def raw_lines_def Split_lines_text Let_def)

theorem init_config_rejected_witness:
  "\<exists>e. MustLoadConfig (Inr (defaultConfigYAML (\<lambda>s. s) default_settings)) ex_yaml ''host'' = Inl (GoPanic e)"
proof (rule init_config_rejected [OF ex_yaml_reads])
  show "list_all printable_line (config_lines (\<lambda>s. s) default_settings)"
    by code_simp
qed

end
