(* ===== verification/UiHelpers.thy ===== *)
theory UiHelpers
  imports ProxyNode JsonClient
begin

text \<open>
  The rest of \<open>pkg/proxy\<close>: helpers of \<open>handlers_ui.go\<close> and the mesh client of \<open>client.go\<close>. An absolute path is the list of
  its elements, so that \<open>filepath.Dir\<close> drops the last one and the root is its own parent; \<open>is_file\<close> answers \<open>os.Stat\<close>.
\<close>

section \<open>Capabilities and names\<close>

text \<open>The loop of \<open>capabilityStrings\<close> with the keys seen so far.\<close>

fun capabilities_loop :: "string list \<Rightarrow> string list \<Rightarrow> string list" where
  "capabilities_loop seen [] = []"
| "capabilities_loop seen (c # cs) =
     (let s = TrimSpace c in
      if s = [] then capabilities_loop seen cs
      else if ToLower s \<in> set seen then capabilities_loop seen cs
      else s # capabilities_loop (ToLower s # seen) cs)"

definition capabilityStrings :: "string list \<Rightarrow> string list" where
  "capabilityStrings caps = capabilities_loop [] caps"

definition shortPeer :: "string \<Rightarrow> string" where
  "shortPeer i = (if length i \<le> 12 then i else take 8 i @ [CHR 0xE2, CHR 0x80, CHR 0xA6])"

section \<open>The web directory\<close>

type_synonym path = "string list"

text \<open>The directory \<open>dir\<close> and its parents up to the root, each with \<open>web\<close> joined.\<close>

fun web_candidates :: "path \<Rightarrow> path list" where
  "web_candidates [] = [[''web'']]"
| "web_candidates (d # ds) = ((d # ds) @ [''web'']) # web_candidates (butlast (d # ds))"

definition findWebDir :: "path result \<Rightarrow> path result \<Rightarrow> (path \<Rightarrow> bool) \<Rightarrow> path option" where
  "findWebDir exe cwd is_file =
     find (\<lambda>d. is_file (d @ [''index.html'']))
       ((case exe of Inl e \<Rightarrow> [] | Inr p \<Rightarrow> [butlast p @ [''web'']]) @ (case cwd of Inl e \<Rightarrow> [] | Inr d \<Rightarrow> web_candidates d))"

text \<open>\<open>webDir\<close> falls back to the relative directory \<open>web\<close>, \<open>uiFileSystem\<close> to the embedded files.\<close>

datatype ui_files = DirFiles path | EmbeddedFiles

definition webDir :: "path result \<Rightarrow> path result \<Rightarrow> (path \<Rightarrow> bool) \<Rightarrow> path" where
  "webDir exe cwd is_file = (case findWebDir exe cwd is_file of Some d \<Rightarrow> d | None \<Rightarrow> [''web''])"

definition uiFileSystem :: "path result \<Rightarrow> path result \<Rightarrow> (path \<Rightarrow> bool) \<Rightarrow> ui_files" where
  "uiFileSystem exe cwd is_file = (case findWebDir exe cwd is_file of Some d \<Rightarrow> DirFiles d | None \<Rightarrow> EmbeddedFiles)"

section \<open>Calls to a peer\<close>

definition NewMeshClient :: "string \<Rightarrow> 's net_http \<Rightarrow> 's Client" where
  "NewMeshClient address doer = WithDoer doer (NewClient doer (''http://'' @ address @ ''.mesh'') [])"

definition GetModelsMesh_call :: "(string, WireModel list) codec \<Rightarrow> 's Client \<Rightarrow> 's \<Rightarrow> routes_map result \<times> 's" where
  "GetModelsMesh_call codec c s = (let (r, s') = Client_Get c ''/.mesh/models'' codec s in (GetModelsMesh r, s'))"

definition GetMeshStatus :: "(string, NodeStatus) codec \<Rightarrow> 's Client \<Rightarrow> 's \<Rightarrow> NodeStatus result \<times> 's" where
  "GetMeshStatus codec c = Client_Get c ''/.mesh/status'' codec"

definition GetMeshMembers :: "(string, NodeStatus list) codec \<Rightarrow> 's Client \<Rightarrow> 's \<Rightarrow> NodeStatus list result \<times> 's" where
  "GetMeshMembers codec c = Client_Get c ''/.mesh/members'' codec"

section \<open>Lemmas\<close>

lemma capabilities_spec:
  "distinct (map ToLower (capabilities_loop seen cs)) \<and>
   ToLower ` set (capabilities_loop seen cs) = ToLower ` TrimSpace ` {c \<in> set cs. TrimSpace c \<noteq> []} - set seen"
proof (induction cs arbitrary: seen)
  case (Cons c cs)
  consider "TrimSpace c = []" | "TrimSpace c \<noteq> []" "ToLower (TrimSpace c) \<in> set seen"
    | "TrimSpace c \<noteq> []" "ToLower (TrimSpace c) \<notin> set seen" by blast
  then show ?case
  proof cases
    case 1
    then have "{x \<in> set (c # cs). TrimSpace x \<noteq> []} = {x \<in> set cs. TrimSpace x \<noteq> []}" by auto
    then show ?thesis using Cons.IH [of seen] 1 by simp
  next
    case 2
    then show ?thesis using Cons.IH [of seen] by (auto simp: Let_def)
  next
    case 3
    have "{x \<in> set (c # cs). TrimSpace x \<noteq> []} = insert c {x \<in> set cs. TrimSpace x \<noteq> []}" using 3(1) by auto
    then show ?thesis using Cons.IH [of "ToLower (TrimSpace c) # seen"] 3 by (auto simp: Let_def)
  qed
qed simp

text \<open>Each capability is listed once, however its spelling varies in case and surrounding space.\<close>

lemma capabilityStrings_once:
  "distinct (map ToLower (capabilityStrings caps)) \<and>
   ToLower ` set (capabilityStrings caps) = ToLower ` TrimSpace ` {c \<in> set caps. TrimSpace c \<noteq> []}"
  using capabilities_spec [of "[]" caps] by (simp add: capabilityStrings_def)

text \<open>The search walks up to the root: the candidates are the prefixes of the working directory, longest first.\<close>

lemma web_candidates_prefixes: "web_candidates d = map (\<lambda>p. p @ [''web'']) (rev (prefixes d))"
proof (induction d rule: web_candidates.induct)
  case (2 d ds)
  have "d # ds = butlast (d # ds) @ [last (d # ds)]" by (rule append_butlast_last_id [symmetric]) simp
  then have "prefixes (d # ds) = prefixes (butlast (d # ds)) @ [d # ds]" by (metis prefixes_snoc)
  then have "map (\<lambda>p. p @ [''web'']) (rev (prefixes (d # ds))) =
      ((d # ds) @ [''web'']) # map (\<lambda>p. p @ [''web'']) (rev (prefixes (butlast (d # ds))))" by (simp del: prefixes.simps butlast.simps)
  then show ?case using 2 by (simp only: web_candidates.simps)
qed simp

lemma findWebDir_found:
  assumes "findWebDir exe (Inr cwd) is_file = None" and "prefix d cwd"
  shows "\<not> is_file (d @ [''web'', ''index.html''])"
proof -
  have "d @ [''web''] \<in> set (web_candidates cwd)" using assms(2) by (simp add: web_candidates_prefixes)
  then have "\<not> is_file ((d @ [''web'']) @ [''index.html''])" using assms(1) by (auto simp: findWebDir_def find_None_iff)
  then show ?thesis by simp
qed

end
