(* ===== verification/MeshFetch.thy ===== *)
theory MeshFetch
  imports MeshService UiHelpers
begin

text \<open>
  Two nodes and the stream between them: the HTTP client of one (\<open>pkg/proxy/client.go\<close> over \<open>ClientForPeer\<close>) and the stream handler of the
  other with its proxy. What \<open>net/http\<close> does on a stream is in \<open>mesh_wire\<close>.
\<close>

section \<open>HTTP over a stream\<close>

text \<open>
  \<open>mw_parse\<close> is the error of \<open>http.NewRequest\<close> for a location, \<open>mw_request\<close> what \<open>http.ReadRequest\<close> makes of a request that was written to a
  stream, \<open>mw_response\<close> what \<open>http.ReadResponse\<close> and reading the body make of the bytes that come back.
\<close>

record mesh_wire =
  mw_parse :: "string \<Rightarrow> goerr option"
  mw_request :: "http_msg \<Rightarrow> stream_request result"
  mw_response :: "string \<Rightarrow> http_answer result"

text \<open>The client dials, the service at the other end serves; a stream that is reset ends the exchange with an error.\<close>

definition stream_do ::
  "mesh_wire \<Rightarrow> 'h peer_client \<Rightarrow> ('s, 'u) Service \<Rightarrow> http_msg \<Rightarrow> 'h \<times> 'u \<Rightarrow> http_answer result \<times> 'h \<times> 'u" where
  "stream_do W client m q st =
     (case pcl_DialContext client background (fst st) of
        (Inl e, h) \<Rightarrow> (Inl e, h, snd st)
      | (Inr c, h) \<Rightarrow>
          (case streamHandler m c (mw_request W q) (snd st) of
             (None, u) \<Rightarrow> (Inl (GoErr ''stream reset''), h, u)
           | (Some reply, u) \<Rightarrow> (mw_response W reply, h, u)))"

definition stream_http :: "mesh_wire \<Rightarrow> 'h peer_client \<Rightarrow> ('s, 'u) Service \<Rightarrow> ('h \<times> 'u) net_http" where
  "stream_http W client m = \<lparr>ht_parse = mw_parse W, ht_do = stream_do W client m\<rparr>"

text \<open>The request the mesh client sends for a path, to a peer of the given name.\<close>

definition mesh_url :: "string \<Rightarrow> string \<Rightarrow> string" where
  "mesh_url name path = ''http://'' @ name @ ''.mesh'' @ path"

definition mesh_get :: "string \<Rightarrow> string \<Rightarrow> http_msg" where
  "mesh_get name path =
     \<lparr>hm_method = ''GET'', hm_url = mesh_url name path, hm_auth = None, hm_type = ''application/json'', hm_body = None\<rparr>"

text \<open>What the two nodes need of \<open>net/http\<close>: the request arrives with its path, and a JSON response comes back as it was written.\<close>

definition carries :: "mesh_wire \<Rightarrow> string \<Rightarrow> string \<Rightarrow> bool" where
  "carries W name path \<longleftrightarrow> mw_parse W (mesh_url name path) = None \<and>
     (\<exists>r. mw_request W (mesh_get name path) = Inr r \<and> pr_method (sr_request r) = ''GET'' \<and> pr_path (sr_request r) = path)"

definition returns_json :: "mesh_wire \<Rightarrow> bool" where
  "returns_json W \<longleftrightarrow>
     (\<forall>json. mw_response W (response_text (StatusOK, [(''Content-Type'', [''application/json''])], json)) =
        Inr \<lparr>ha_Status = ''200 OK'', ha_StatusCode = StatusOK, ha_data = Inr json\<rparr>)"

section \<open>Lemmas\<close>

lemma mesh_get_request:
  assumes "mw_parse W (mesh_url name path) = None"
  shows "newRequest (NewMeshClient name (stream_http W client m)) ''GET''
      (cl_Address (NewMeshClient name (stream_http W client m)) @ path) None = Inr (mesh_get name path)"
  using assms
  by (simp add: newRequest_def NewMeshClient_def WithDoer_def NewClient_def stream_http_def setAuth_def mesh_get_def mesh_url_def)

lemma stream_get:
  assumes "mw_parse W (mesh_url name path) = None" and "pcl_DialContext client background h = (Inr c, h')"
    and "streamHandler m c (mw_request W (mesh_get name path)) u = (Some reply, u')"
    and "mw_response W reply = Inr \<lparr>ha_Status = st, ha_StatusCode = StatusOK, ha_data = Inr json\<rparr>"
  shows "Client_Get (NewMeshClient name (stream_http W client m)) path codec (h, u) = (Unmarshal codec json, (h', u'))"
proof -
  let ?c = "NewMeshClient name (stream_http W client m)"
  have "ht_do (cl_rt ?c) (mesh_get name path) (h, u) =
      (Inr \<lparr>ha_Status = st, ha_StatusCode = StatusOK, ha_data = Inr json\<rparr>, (h', u'))"
    using assms(2-4) by (simp add: NewMeshClient_def WithDoer_def stream_http_def stream_do_def)
  then show ?thesis
    using mesh_get_request [OF assms(1), of client m]
    by (simp add: Client_Get_def Do_def the_reply_def split: sum.splits)
qed

text \<open>A node whose name does not give a URL is never asked: \<open>http.NewRequest\<close> fails and nothing is dialled.\<close>

lemma unparsable_name_never_dialled:
  assumes "mw_parse W (mesh_url name path) = Some e"
  shows "Client_Get (NewMeshClient name (stream_http W client m)) path codec st = (Inl (ApiErr ErrClientRequest (Error_string e)), st)"
  using assms
  by (simp add: Client_Get_def Do_def the_reply_def newRequest_def NewMeshClient_def WithDoer_def NewClient_def stream_http_def mesh_url_def
      NewRequestError_def)

lemma models_fetched:
  assumes "carries W (pn_Name n) ''/.mesh/models''" and "returns_json W" and "pcl_DialContext client background h = (Inr c, h')"
    and "Unmarshal codec (ao_json io (ModelsReply ms)) = Inr ms" and "ms = map encode_route (ListExportedModels (pe_routes E) (px_router p))"
  shows "fst (Client_Get (NewMeshClient (pn_Name n) (stream_http W client (Service_WithHandlerFunc (mesh_handler io E) m)))
      ''/.mesh/models'' codec (h, p)) = Inr ms"
proof -
  let ?m = "Service_WithHandlerFunc (mesh_handler io E) m"
  obtain r where r: "mw_request W (mesh_get (pn_Name n) ''/.mesh/models'') = Inr r" "pr_method (sr_request r) = ''GET''"
    "pr_path (sr_request r) = ''/.mesh/models''" and parse: "mw_parse W (mesh_url (pn_Name n) ''/.mesh/models'') = None"
    using assms(1) by (auto simp: carries_def)
  let ?q = "sr_request r"
  have "?q = \<lparr>pr_method = ''GET'', pr_path = ''/.mesh/models'', pr_mesh = pr_mesh ?q, pr_body = pr_body ?q, pr_invite = pr_invite ?q\<rparr>"
    using r(2,3) by simp
  note served = models_served [OF this, where io = io and E = E and m = m and c = c and p = p, folded assms(5)]
  obtain u' where s: "streamHandler ?m c (mw_request W (mesh_get (pn_Name n) ''/.mesh/models'')) p =
      (Some (response_text (StatusOK, [(''Content-Type'', [''application/json''])], ao_json io (ModelsReply ms))), u')"
    using served unfolding r(1) by (metis prod.collapse)
  have "Client_Get (NewMeshClient (pn_Name n) (stream_http W client ?m)) ''/.mesh/models'' codec (h, p) =
      (Unmarshal codec (ao_json io (ModelsReply ms)), (h', u'))"
    by (rule stream_get [OF parse assms(3) s assms(2) [unfolded returns_json_def, rule_format]])
  then show ?thesis unfolding assms(4) by (simp only: fst_conv)
qed

section \<open>An example\<close>

text \<open>A wire that carries the one exchange; a JSON text that the decoder reads as the models of the example.\<close>

abbreviation json_header :: Header where
  "json_header \<equiv> [(''Content-Type'', [''application/json''])]"

definition ex_mesh_wire :: mesh_wire where
  "ex_mesh_wire =
     \<lparr>mw_parse = (\<lambda>u. None),
      mw_request = (\<lambda>q. Inr (ex_stream_request\<lparr>sr_request := (sr_request ex_stream_request)\<lparr>pr_path := ''/.mesh/models''\<rparr>\<rparr>)),
      mw_response = (\<lambda>s. Inr \<lparr>ha_Status = ''200 OK'', ha_StatusCode = StatusOK,
                              ha_data = Inr (drop (length (response_text (StatusOK, json_header, []))) s)\<rparr>)\<rparr>"

lemma ex_mesh_wire_ok: "carries ex_mesh_wire name ''/.mesh/models''" "returns_json ex_mesh_wire"
proof -
  show "carries ex_mesh_wire name ''/.mesh/models''" by (simp add: carries_def ex_mesh_wire_def ex_stream_request_def)
  let ?head = "response_text (StatusOK, json_header, [])"
  have split: "response_text (StatusOK, json_header, json) = ?head @ json" for json
    by (simp add: response_text_def)
  have rest: "drop (length xs) (xs @ ys) = ys" for xs ys :: string by simp
  have "drop (length ?head) (response_text (StatusOK, json_header, json)) = json" for json
    using rest [of ?head json] unfolding split [of json, symmetric] .
  then show "returns_json ex_mesh_wire" unfolding returns_json_def ex_mesh_wire_def by (simp only: mesh_wire.select_convs simp_thms)
qed

definition ex_peer_client :: "unit peer_client" where
  "ex_peer_client = \<lparr>pcl_DialContext = ClientForPeer_dial (ex_host False) ''p'' True, pcl_Timeout = 45\<rparr>"

lemma ex_peer_dial: "\<exists>c h'. pcl_DialContext ex_peer_client background h = (Inr c, h')"
  by (simp add: ex_peer_client_def ClientForPeer_dial_def ex_dial)

definition ex_answers :: answer_io where
  "ex_answers = \<lparr>ao_json = (\<lambda>v. ''{}''), ao_other = (\<lambda>a. [CallWriteHeader 200])\<rparr>"

section \<open>Properties\<close>

text \<open>
  C17. An exported model is served across the mesh. Node A has its proxy on its mesh service; node B, told of A, asks it for its models over a stream.
  Then a chat request to B for a model that A exports and B has no provider for is forwarded to A, and when it arrives there on a stream A hands the same
  body to its own provider with the provider's token and writes what comes back to the stream.
\<close>

theorem exported_model_served:
  assumes "proxy_inv (EB, pB)" and "is_iter (pe_peers EB)" and "mA = Service_WithHandlerFunc (mesh_handler io EA) m0"
    and "\<forall>k. \<exists>c h'. pcl_DialContext client background (h k) = (Inr c, h')"
    and "\<forall>k. pe_models EB nA k =
           fst (Client_Get (NewMeshClient (pn_Name nA) (stream_http W client mA)) ''/.mesh/models'' codec (h k, pA))"
    and "carries W (pn_Name nA) ''/.mesh/models''" and "returns_json W"
    and "ms = map encode_route (ListExportedModels (pe_routes EA) (px_router pA))"
    and "Unmarshal codec (ao_json io (ModelsReply ms)) = Inr ms"
    and "is_iter (pe_routes EA)" and "router_ok (px_router pA)"
    and "GetModelRoute (px_router pA) m = Some route" and "mr_Name route = m" and "mr_providers route = pv # pvs"
    and "\<not> IsPrivate route" and "pe_url_ok EA (mp_BaseURL pv)"
    and "pn_ID nA \<notin> wm_Name ` set ms" and "GetModelRoute (px_router pB) (pn_ID nA) = None"
    and "pr_path r = ''/v1/chat/completions'' \<or> pr_path r = ''/v1/responses''"
    and "pr_body r = (body, None)" and "length body \<le> maxBody" and "peekModel EB body = m" and "peekModel EA body = m"
    and "pr_path (sr_request q) = pr_path r" and "pr_body (sr_request q) = (body, None)"
    and "\<forall>rt. GetModelRoute (px_router pB) m = Some rt \<longrightarrow> mr_providers rt = []"
  shows "fst (fst (ServeHTTP EB r (snd (OnPeerUpdate EB nA False pB)))) = ForwardPeer nA body \<and>
    fst (streamHandler mA c (Inr q) pA) = Some (sw_s (fold call_writer (ao_other io (ForwardLocal (mp_BaseURL pv)
      (if mp_Token pv \<noteq> [] then Some (''Bearer '' @ mp_Token pv) else None) body)) new_writer))"
proof -
  have "pe_models EB nA k = Inr ms" for k
  proof -
    obtain c h' where "pcl_DialContext client background (h k) = (Inr c, h')" using assms(4) by blast
    from models_fetched [OF assms(6,7) this assms(9,8), of m0] show ?thesis using assms(3,5) by simp
  qed
  then have ms: "\<forall>k. pe_models EB nA k = Inr ms" by blast
  have "meshModels EA pA = ReplyJson (ModelsReply ms)" using assms(8) by (simp add: meshModels_def)
  note served = exported_served [OF assms(1,2) this ms assms(10-18) _ _ assms(21-23)]
  let ?q = "sr_request (from_mesh c q)"
  have q: "pr_path ?q = pr_path r" "pr_body ?q = (body, None)" using assms(24,25) by (simp_all add: from_mesh_def Let_def)
  then have "fst (fst (MeshServeHTTP EA ?q pA)) =
      ForwardLocal (mp_BaseURL pv) (if mp_Token pv \<noteq> [] then Some (''Bearer '' @ mp_Token pv) else None) body"
    using served [of ?q] assms(19) by simp
  then have "fst (streamHandler mA c (Inr q) pA) = Some (sw_s (fold call_writer (ao_other io (ForwardLocal (mp_BaseURL pv)
      (if mp_Token pv \<noteq> [] then Some (''Bearer '' @ mp_Token pv) else None) body)) new_writer))"
    by (simp add: assms(3) streamHandler_def Service_WithHandlerFunc_def mesh_handler_def respond_def split_beta)
  then show ?thesis using served [of r] assms(19,20) by simp
qed

text \<open>A node without providers of its own.\<close>

definition ex_bare_px :: Proxy where
  "ex_bare_px = ex_px\<lparr>px_router := NewModelDiscovery (ex_peer ''b'') []\<rparr>"

lemma ex_bare_router:
  "router_ok (px_router ex_bare_px)" "GetModelRoute (px_router ex_bare_px) name = None"
  by (simp_all add: ex_bare_px_def NewModelDiscovery_def router_ok_def GetModelRoute_def)

lemma ex_bare_inv: "proxy_inv (ex_px_env self ms, ex_bare_px)"
  using ex_px_inv [of self ms] ex_bare_router(1) by (simp add: proxy_inv_def)

theorem exported_model_served_witness:
  "fst (fst (ServeHTTP (ex_px_env ''b'' ex_models) (ex_chat ''/v1/chat/completions'')
       (snd (OnPeerUpdate (ex_px_env ''b'' ex_models) ex_self False ex_bare_px)))) = ForwardPeer ex_self ''llama'' \<and>
   fst (streamHandler (Service_WithHandlerFunc (mesh_handler ex_answers (ex_px_env ''me'' [])) (ex_service default_handler)) (ex_conn False)
     (Inr (ex_stream_request\<lparr>sr_request := ex_chat ''/v1/chat/completions''\<rparr>)) ex_px) =
     Some (sw_s (fold call_writer [CallWriteHeader 200] new_writer))"
proof -
  let ?EA = "ex_px_env ''me'' []" and ?EB = "ex_px_env ''b'' ex_models" and ?m0 = "ex_service default_handler :: (unit, Proxy) Service"
  let ?mA = "Service_WithHandlerFunc (mesh_handler ex_answers ?EA) ?m0" and ?path = "''/v1/chat/completions''"
  let ?codec = "\<lparr>Marshal = (\<lambda>v. Inr ''{}''), Unmarshal = (\<lambda>d. Inr ex_models)\<rparr> :: (string, WireModel list) codec"
  obtain route where route: "GetModelRoute (px_router ex_px) ''llama'' = Some route"
    "mr_Name route = ''llama''" "mr_providers route = [provider_entry False ex_provider]"
  proof -
    have "map_option mr_Name (GetModelRoute (px_router ex_px) ''llama'') = Some ''llama'' \<and>
        map_option mr_providers (GetModelRoute (px_router ex_px) ''llama'') = Some [provider_entry False ex_provider]" by code_simp
    then show thesis using that by auto
  qed
  have ms: "ex_models = map encode_route (ListExportedModels (pe_routes ?EA) (px_router ex_px))"
    by (simp add: ex_models_def ex_px_env_def ex_px_def)
  have codec: "Unmarshal ?codec (ao_json ex_answers (ModelsReply ex_models)) = Inr ex_models" by simp
  have dial: "\<forall>k :: nat. \<exists>c h'. pcl_DialContext ex_peer_client background () = (Inr c, h')" using ex_peer_dial by blast
  then obtain c h' where c: "pcl_DialContext ex_peer_client background () = (Inr c, h')" by blast
  have fetch: "\<forall>k. pe_models ?EB ex_self k =
      fst (Client_Get (NewMeshClient (pn_Name ex_self) (stream_http ex_mesh_wire ex_peer_client ?mA)) ''/.mesh/models'' ?codec ((), ex_px))"
    using models_fetched [where n = ex_self and m = ?m0, OF ex_mesh_wire_ok c codec ms] ex_env_models [of "''b''" ex_models ex_self] by simp
  have r: "router_ok (px_router ex_px)" using ex_router_ok by (simp add: ex_px_def)
  have priv: "\<not> IsPrivate route" using route(3) by (simp add: IsPrivate_def provider_entry_def)
  have url: "pe_url_ok ?EA (mp_BaseURL (provider_entry False ex_provider))" by (simp add: ex_px_env_def)
  have path: "pr_path (ex_chat ?path) = ?path \<or> pr_path (ex_chat ?path) = ''/v1/responses''" by (simp add: ex_chat_def)
  have q: "pr_path (sr_request (ex_stream_request\<lparr>sr_request := ex_chat ?path\<rparr>)) = pr_path (ex_chat ?path)"
    "pr_body (sr_request (ex_stream_request\<lparr>sr_request := ex_chat ?path\<rparr>)) = (''llama'', None)"
    using ex_chat_body(1) by simp_all
  have bare: "GetModelRoute (px_router ex_bare_px) (pn_ID ex_self) = None"
    "\<forall>rt. GetModelRoute (px_router ex_bare_px) ''llama'' = Some rt \<longrightarrow> mr_providers rt = []"
    using ex_bare_router(2) by simp_all
  show ?thesis
    using exported_model_served [where h = "\<lambda>k. ()" and c = "ex_conn False", OF ex_bare_inv ex_env_iter(1) refl dial fetch ex_mesh_wire_ok ms codec
        ex_env_iter(2) r route priv url ex_free(4) bare(1) path ex_chat_body(1,2,3,3) q bare(2)]
    by (simp add: ex_answers_def)
qed

end
