(* ===== verification/TypedReplies.thy ===== *)
theory TypedReplies
  imports ClientServer
begin

text \<open>
  The client and the server agree on the types of the replies: the struct a handler of \<open>pkg/admin\<close> encodes is the
  one the method of \<open>api/client_mesh.go\<close>, \<open>client_admin.go\<close> or \<open>redeem.go\<close> for that endpoint decodes, and the method
  returns what the handler replied.
\<close>

section \<open>Handlers\<close>

lemma handler_types:
  "fst (apiNodeLogin D inp ctx1 s) = Inr r \<Longrightarrow> \<exists>v. r = ReplyLogin v"
  "fst (apiRelayGet ctx2 s) = Inr r \<Longrightarrow> \<exists>v. r = ReplyRelay v"
  "fst (apiNodeAuthorize inp ctx3 s) = Inr r \<Longrightarrow> \<exists>v. r = ReplyNode v"
  "fst (apiNodeRegister D inp ctx3 s) = Inr r \<Longrightarrow> \<exists>v. r = ReplyRegister v"
  "fst (apiNodeRefresh inp ctx3 s) = Inr r \<Longrightarrow> \<exists>v. r = ReplyRegister v"
  "fst (apiNodeList inp ctx2 s) = Inr r \<Longrightarrow> \<exists>v. r = ReplyNodes v"
  "fst (adminListNodes D ctx2 s) = Inr r \<Longrightarrow> \<exists>v. r = ReplyAdminNodes v"
  "fst (adminCreateInviteLink D inp ctx4 s) = Inr r \<Longrightarrow> \<exists>v. r = ReplyInvite v"
  "fst (adminListInviteLinks D inp ctx2 s) = Inr r \<Longrightarrow> \<exists>v. r = ReplyInvites v"
proof -
  show "fst (apiNodeLogin D inp ctx1 s) = Inr r \<Longrightarrow> \<exists>v. r = ReplyLogin v"
    by (auto simp: apiNodeLogin_def Let_def split: sum.splits if_splits prod.splits option.splits)
  show "fst (apiRelayGet ctx2 s) = Inr r \<Longrightarrow> \<exists>v. r = ReplyRelay v"
    by (auto simp: apiRelayGet_def)
  show "fst (apiNodeAuthorize inp ctx3 s) = Inr r \<Longrightarrow> \<exists>v. r = ReplyNode v"
    by (auto simp: apiNodeAuthorize_def Let_def split: sum.splits if_splits prod.splits option.splits)
  show "fst (apiNodeRegister D inp ctx3 s) = Inr r \<Longrightarrow> \<exists>v. r = ReplyRegister v"
    by (auto simp: apiNodeRegister_def Let_def split: sum.splits prod.splits)
  show "fst (apiNodeRefresh inp ctx3 s) = Inr r \<Longrightarrow> \<exists>v. r = ReplyRegister v"
    by (auto simp: apiNodeRefresh_def Let_def split: sum.splits if_splits prod.splits option.splits)
  show "fst (apiNodeList inp ctx2 s) = Inr r \<Longrightarrow> \<exists>v. r = ReplyNodes v"
    by (auto simp: apiNodeList_def)
  show "fst (adminListNodes D ctx2 s) = Inr r \<Longrightarrow> \<exists>v. r = ReplyAdminNodes v"
    by (auto simp: adminListNodes_def Let_def split: sum.splits if_splits prod.splits option.splits)
  show "fst (adminCreateInviteLink D inp ctx4 s) = Inr r \<Longrightarrow> \<exists>v. r = ReplyInvite v"
    by (auto simp: adminCreateInviteLink_def Let_def split: sum.splits if_splits prod.splits option.splits)
  show "fst (adminListInviteLinks D inp ctx2 s) = Inr r \<Longrightarrow> \<exists>v. r = ReplyInvites v"
    by (auto simp: adminListInviteLinks_def Let_def split: sum.splits if_splits prod.splits option.splits)
qed

lemma redeem_type:
  "fst (adminRedeemInviteLink D inp ctx s) = Inr r \<Longrightarrow> \<exists>v. r = ReplyRedeem v"
proof -
  assume "fst (adminRedeemInviteLink D inp ctx s) = Inr r"
  then obtain s1 where "adminRedeemInviteLink D inp ctx s = (Inr r, s1)" by (metis prod.collapse)
  then obtain key invite node where "redeem_commit D inp (key, invite, node) s = (Inr r, s1)" using redeem_ok_split by blast
  then show "\<exists>v. r = ReplyRedeem v"
    by (auto simp: redeem_commit_def Let_def split: sum.splits if_splits prod.splits option.splits)
qed

section \<open>Wrappers\<close>

text \<open>An object is only ever sent with status 200, and is what the handler returned.\<close>

definition sends :: "(reply \<Rightarrow> bool) \<Rightarrow> http_response \<Rightarrow> bool" where
  "sends P resp \<longleftrightarrow> (\<forall>r. resp_body resp = JsonBody r \<longrightarrow> resp_status resp = StatusOK \<and> P r)"

lemma sends_reply: "(\<And>r. x = Inr r \<Longrightarrow> P r) \<Longrightarrow> sends P (reply_or_error x)"
  by (auto simp: sends_def reply_or_error_def split: sum.splits goerr.splits)

lemma sends_handle: "(\<And>ctx r. fst (fn ctx s) = Inr r \<Longrightarrow> P r) \<Longrightarrow> sends P (fst (handle fn i body s))"
  by (auto simp: handle_def split_beta Let_def intro: sends_reply)

lemma sends_authenticated: "(\<And>ctx r. fst (fn ctx s) = Inr r \<Longrightarrow> P r) \<Longrightarrow> sends P (fst (authenticated a t h fn i body s))"
  by (auto simp: authenticated_def split_beta Let_def intro: sends_reply) (auto simp: sends_def)

lemma asAdmin_json: "fst (asAdmin fn ctx s) = Inr r \<Longrightarrow> fst (fn ctx s) = Inr r"
  by (auto simp: asAdmin_def split: sum.splits if_splits)

section \<open>Calls\<close>

text \<open>
  The result of a client's method agrees with the answer of the server: if the server answers with an object, it is one of the
  type \<open>con\<close>, and when \<open>encoding/json\<close> carries this object faithfully the method returns \<open>use\<close> of exactly that object, with the server in the
  state the handler left it in.
\<close>

definition decodes ::
  "('v \<Rightarrow> reply) \<Rightarrow> (string, 'v) codec \<Rightarrow> ('v \<Rightarrow> 'o) \<Rightarrow> http_response \<times> 's \<Rightarrow> nat \<Rightarrow> 'o \<times> nat \<times> 's \<Rightarrow> bool" where
  "decodes con codec use answer k result \<longleftrightarrow>
     (\<forall>r. resp_body (fst answer) = JsonBody r \<longrightarrow>
        (\<exists>v. r = con v \<and> (codec_faithful codec v \<longrightarrow> result = (use v, Suc k, snd answer))))"

lemma decodes_call:
  assumes "sends (\<lambda>r. \<exists>v. r = con v) (fst answer)" and "\<And>v. encode_reply W (con v) = Marshal co v"
    and "\<And>v. call_result W (Unmarshal co) (fst answer) = Inr v \<Longrightarrow> result = (use v, Suc k, snd answer)"
  shows "decodes con co use answer k result"
  unfolding decodes_def
proof (intro allI impI)
  fix r assume r: "resp_body (fst answer) = JsonBody r"
  then obtain v where v: "r = con v" "resp_status (fst answer) = StatusOK" using assms(1) by (auto simp: sends_def)
  have "result = (use v, Suc k, snd answer)" if "codec_faithful co v"
  proof -
    obtain d where d: "Marshal co v = Inr d" "Unmarshal co d = Inr v"
      using \<open>codec_faithful co v\<close> unfolding codec_faithful_def by blast
    then have "call_result W (Unmarshal co) (fst answer) = Inr v"
      using r v assms(2) by (simp add: call_result_def write_response_def)
    then show ?thesis by (rule assms(3))
  qed
  then show "\<exists>v. r = con v \<and> (codec_faithful co v \<longrightarrow> result = (use v, Suc k, snd answer))" using v(1) by blast
qed

lemma decodes_post:
  assumes "cl_rt c = admin_http W D inp (cl_Address c)" and "Marshal ci x = Inr d" and "Split (CHR ''/'') loc = path"
    and "sends (\<lambda>r. \<exists>v. r = con v) (fst (routes D (inp k) (call_request W (cl_token c) ''POST'' path (Some d)) s))"
    and "\<And>v. encode_reply W (con v) = Marshal co v"
    and "\<And>v s'. Client_Post c (CHR ''/'' # loc) ci x co (k, s) = (Inr v, (Suc k, s')) \<Longrightarrow> result = (use v, Suc k, s')"
  shows "decodes con co use (routes D (inp k) (call_request W (cl_token c) ''POST'' path (Some d)) s) k result"
proof (rule decodes_call [OF assms(4,5)])
  fix v assume "call_result W (Unmarshal co) (fst (routes D (inp k) (call_request W (cl_token c) ''POST'' path (Some d)) s)) = Inr v"
  then show "result = (use v, Suc k, snd (routes D (inp k) (call_request W (cl_token c) ''POST'' path (Some d)) s))"
    using Post_admin [OF assms(1,2), of loc co k s] assms(3) by (intro assms(6)) (simp add: split_beta)
qed

lemma decodes_get:
  assumes "cl_rt c = admin_http W D inp (cl_Address c)" and "Split (CHR ''/'') loc = path"
    and "sends (\<lambda>r. \<exists>v. r = con v) (fst (routes D (inp k) (call_request W (cl_token c) ''GET'' path None) s))"
    and "\<And>v. encode_reply W (con v) = Marshal co v"
    and "\<And>v s'. Client_Get c (CHR ''/'' # loc) co (k, s) = (Inr v, (Suc k, s')) \<Longrightarrow> result = (use v, Suc k, s')"
  shows "decodes con co use (routes D (inp k) (call_request W (cl_token c) ''GET'' path None) s) k result"
proof (rule decodes_call [OF assms(3,4)])
  fix v assume "call_result W (Unmarshal co) (fst (routes D (inp k) (call_request W (cl_token c) ''GET'' path None) s)) = Inr v"
  then show "result = (use v, Suc k, snd (routes D (inp k) (call_request W (cl_token c) ''GET'' path None) s))"
    using Get_admin [OF assms(1), of loc co k s] assms(2) by (intro assms(5)) (simp add: split_beta)
qed

text \<open>What each endpoint sends.\<close>

lemma endpoint_types:
  "sends (\<lambda>r. \<exists>v. r = ReplyLogin v) (fst (routes D inp (call_request W t ''POST'' (v1 [''login'']) b) s))"
  "sends (\<lambda>r. \<exists>v. r = ReplyNode v) (fst (routes D inp (call_request W t ''POST'' (v1 [''authorize'']) b) s))"
  "sends (\<lambda>r. \<exists>v. r = ReplyRegister v) (fst (routes D inp (call_request W t ''POST'' (v1 [''nodes'']) b) s))"
  "i \<noteq> [] \<Longrightarrow> sends (\<lambda>r. \<exists>v. r = ReplyRegister v) (fst (routes D inp (call_request W t ''POST'' (v1 [''nodes'', i]) b) s))"
  "sends (\<lambda>r. \<exists>v. r = ReplyInvite v) (fst (routes D inp (call_request W t ''POST'' (v1 [''admin'', ''invite'']) b) s))"
  "i \<noteq> [] \<Longrightarrow> sends (\<lambda>r. \<exists>v. r = ReplyRedeem v) (fst (routes D inp (call_request W t ''POST'' (v1 [''redeem'', i]) b) s))"
  "sends (\<lambda>r. \<exists>v. r = ReplyNodes v) (fst (routes D inp (call_request W t ''GET'' (v1 [''nodes'']) None) s))"
  "sends (\<lambda>r. \<exists>v. r = ReplyRelay v) (fst (routes D inp (call_request W t ''GET'' (v1 [''relay'']) None) s))"
  "sends (\<lambda>r. \<exists>v. r = ReplyAdminNodes v) (fst (routes D inp (call_request W t ''GET'' (v1 [''admin'', ''nodes'']) None) s))"
  "sends (\<lambda>r. \<exists>v. r = ReplyInvites v) (fst (routes D inp (call_request W t ''GET'' (v1 [''admin'', ''invite'']) None) s))"
  by (auto simp: routes_def call_request_def method_is_def id_under_def
      intro!: sends_handle sends_authenticated dest!: asAdmin_json dest: handler_types redeem_type)

section \<open>Methods\<close>

text \<open>The answer of the server to a request of a client with token \<open>tok\<close>.\<close>

abbreviation api_answer ::
  "wire \<Rightarrow> ('db, 'd) deps \<Rightarrow> (nat \<Rightarrow> inputs) \<Rightarrow> string \<Rightarrow> nat \<times> 'db Server \<Rightarrow> string \<Rightarrow> string list \<Rightarrow> string option \<Rightarrow>
    http_response \<times> 'db Server" where
  "api_answer W D inp tok st method path body \<equiv>
     routes D (inp (fst st)) (call_request W tok method path body) (snd st)"

lemma paths:
  "Split (CHR ''/'') ''api/v1/login'' = v1 [''login'']" "Split (CHR ''/'') ''api/v1/authorize'' = v1 [''authorize'']"
  "Split (CHR ''/'') ''api/v1/nodes'' = v1 [''nodes'']" "Split (CHR ''/'') ''api/v1/relay'' = v1 [''relay'']"
  "Split (CHR ''/'') ''api/v1/admin/nodes'' = v1 [''admin'', ''nodes'']"
  "Split (CHR ''/'') ''api/v1/admin/invite'' = v1 [''admin'', ''invite'']"
  by code_simp+

lemma encoded_types:
  "encode_reply W (ReplyLogin a) = Marshal (w_session W) a" "encode_reply W (ReplyNode b) = Marshal (w_node W) b"
  "encode_reply W (ReplyRegister e) = Marshal (w_register W) e" "encode_reply W (ReplyInvite f) = Marshal (w_invited W) f"
  "encode_reply W (ReplyRedeem g) = Marshal (w_redeemed W) g" "encode_reply W (ReplyNodes h) = Marshal (w_nodes W) h"
  "encode_reply W (ReplyRelay m) = Marshal (w_relay W) m" "encode_reply W (ReplyAdminNodes n) = Marshal (w_admin_nodes W) n"
  "encode_reply W (ReplyInvites p) = Marshal (w_invites W) p"
  by (simp_all add: encode_reply_def)

lemma login_typed:
  assumes "cl_rt c = admin_http W D inp (cl_Address c)"
    and "Marshal (w_login W) \<lparr>nl_NodeID = i, nl_MeshId = mc_meshId mc, nl_MeshSecret = secret\<rparr> = Inr d"
  shows "decodes ReplyLogin (w_session W) (\<lambda>v. (None, SetToken (nr_Token v) c))
      (api_answer W D inp (cl_token c) (k, s) ''POST'' (v1 [''login'']) (Some d)) k
      (let (e, c', st) = Login W mc i secret c (k, s) in ((e, c'), st))"
  unfolding fst_conv snd_conv by (rule decodes_post [OF assms(1,2) paths(1) endpoint_types(1) encoded_types(1)]) (simp add: Login_def)

lemma authorize_typed:
  assumes "cl_rt c = admin_http W D inp (cl_Address c)"
    and "Marshal (w_register W) \<lparr>rr_Node = NewPeerNode i [], rr_Token = [], rr_LogicalTime = 0, rr_LastUpdate = zero_time\<rparr> = Inr d"
  shows "decodes ReplyNode (w_node W) (\<lambda>v. None)
      (api_answer W D inp (cl_token c) (k, s) ''POST'' (v1 [''authorize'']) (Some d)) k (Authorize W c i (k, s))"
  unfolding fst_conv snd_conv by (rule decodes_post [OF assms(1,2) paths(2) endpoint_types(2) encoded_types(2)]) (simp add: Authorize_def)

lemma register_typed:
  assumes "cl_rt c = admin_http W D inp (cl_Address c)"
    and "Marshal (w_register W) \<lparr>rr_Node = NewPeerNode i name, rr_Token = [], rr_LogicalTime = 0, rr_LastUpdate = zero_time\<rparr> = Inr d"
  shows "decodes ReplyRegister (w_register W) (\<lambda>v. Inr \<lparr>rg_node = rr_Node v, rg_token = rr_Token v\<rparr>)
      (api_answer W D inp (cl_token c) (k, s) ''POST'' (v1 [''nodes'']) (Some d)) k (MeshClient_Register W c name i (k, s))"
  unfolding fst_conv snd_conv by (rule decodes_post [OF assms(1,2) paths(3) endpoint_types(3) encoded_types(3)]) (simp add: MeshClient_Register_def register_call_def Register_def)

lemma refresh_typed:
  assumes "cl_rt c = admin_http W D inp (cl_Address c)"
    and "Marshal (w_register W) \<lparr>rr_Node = rg_node r, rr_Token = rg_token r, rr_LogicalTime = 0, rr_LastUpdate = zero_time\<rparr> = Inr d"
    and "url_safe (pn_ID (rg_node r))"
  shows "decodes ReplyRegister (w_register W) (\<lambda>v. (Inr (True, rr_LogicalTime v), r\<lparr>rg_token := rr_Token v\<rparr>))
      (api_answer W D inp (cl_token c) (k, s) ''POST'' (v1 [''nodes'', pn_ID (rg_node r)]) (Some d)) k
      (let (res, r', st) = MeshClient_Refresh W c r (k, s) in ((res, r'), st))"
  unfolding fst_conv snd_conv by (rule decodes_post [OF assms(1,2) Split_under(1) [OF assms(3)] endpoint_types(4) [OF url_safe_segment [OF assms(3), THEN conjunct2]] encoded_types(3)]) (simp add: MeshClient_Refresh_def refresh_call_def Registration_Refresh_def)

lemma invite_typed:
  assumes "cl_rt c = admin_http W D inp (cl_Address c)"
    and "Marshal (w_invite W) (if ci_MeshId req = [] then req\<lparr>ci_MeshId := ''default''\<rparr> else req) = Inr d"
  shows "decodes ReplyInvite (w_invited W) Inr
      (api_answer W D inp (cl_token c) (k, s) ''POST'' (v1 [''admin'', ''invite'']) (Some d)) k (CreateInvite W c req (k, s))"
  unfolding fst_conv snd_conv by (rule decodes_post [OF assms(1,2) paths(6) endpoint_types(5) encoded_types(4)]) (simp add: CreateInvite_def)

lemma peers_typed:
  assumes "cl_rt c = admin_http W D inp (cl_Address c)"
  shows "decodes ReplyNodes (w_nodes W) Inr
      (api_answer W D inp (cl_token c) (k, s) ''GET'' (v1 [''nodes'']) None) k (GetPeers_call W c (k, s))"
  unfolding fst_conv snd_conv by (rule decodes_get [OF assms(1) paths(3) endpoint_types(7) encoded_types(6)]) (simp add: GetPeers_call_def)

lemma relay_typed:
  assumes "cl_rt c = admin_http W D inp (cl_Address c)"
  shows "decodes ReplyRelay (w_relay W) (\<lambda>v. Inr (gr_MultiAddress v, gr_LastUpdate v, gr_LogicalTime v))
      (api_answer W D inp (cl_token c) (k, s) ''GET'' (v1 [''relay'']) None) k (GetRelay W c (k, s))"
  unfolding fst_conv snd_conv by (rule decodes_get [OF assms(1) paths(4) endpoint_types(8) encoded_types(7)]) (simp add: GetRelay_def)

lemma list_nodes_typed:
  assumes "cl_rt c = admin_http W D inp (cl_Address c)"
  shows "decodes ReplyAdminNodes (w_admin_nodes W) Inr
      (api_answer W D inp (cl_token c) (k, s) ''GET'' (v1 [''admin'', ''nodes'']) None) k (ListNodes W c (k, s))"
  unfolding fst_conv snd_conv by (rule decodes_get [OF assms(1) paths(5) endpoint_types(9) encoded_types(8)]) (simp add: ListNodes_def)

lemma list_invites_typed:
  assumes "cl_rt c = admin_http W D inp (cl_Address c)"
  shows "decodes ReplyInvites (w_invites W) Inr
      (api_answer W D inp (cl_token c) (k, s) ''GET'' (v1 [''admin'', ''invite'']) None) k (ListInvites W c (k, s))"
  unfolding fst_conv snd_conv by (rule decodes_get [OF assms(1) paths(6) endpoint_types(10) encoded_types(9)]) (simp add: ListInvites_def)

text \<open>The redemption of an invite has no session; the server is found from the link.\<close>

lemma redeem_typed:
  assumes "parseInviteURL url_Parse link = Inr u" and "http = admin_http W D inp (u_Scheme u @ ''://'' @ u_Host u)"
    and "u_RawQuery u = []" and "u_EscapedPath u = ''/api/v1/redeem/'' @ i" and "url_safe i" and "pn_ID node \<noteq> []"
    and "Marshal (w_redeem W) node = Inr d"
  shows "decodes ReplyRedeem (w_redeemed W) Inr
      (api_answer W D inp [] (k, s) ''POST'' (v1 [''redeem'', i]) (Some d)) k (RedeemInvite W http url_Parse link node (k, s))"
proof -
  let ?c = "NewClient http (u_Scheme u @ ''://'' @ u_Host u) []"
  have rt: "cl_rt ?c = admin_http W D inp (cl_Address ?c)" using assms(2) by (simp add: NewClient_def)
  have tok: "cl_token ?c = []" by (simp add: NewClient_def)
  have "RedeemInvite W http url_Parse link node (k, s) =
      Client_Post ?c (CHR ''/'' # (''api/v1/redeem/'' @ i)) (w_redeem W) node (w_redeemed W) (k, s)"
    using assms(1,3,4,6) by (simp add: RedeemInvite_def)
  then have "decodes ReplyRedeem (w_redeemed W) Inr
      (api_answer W D inp (cl_token ?c) (k, s) ''POST'' (v1 [''redeem'', i]) (Some d)) k (RedeemInvite W http url_Parse link node (k, s))"
    unfolding fst_conv snd_conv
    by (intro decodes_post [OF rt assms(7) Split_under(2) [OF assms(5)] endpoint_types(6) encoded_types(5)])
      (simp_all add: url_safe_segment [OF assms(5)])
  then show ?thesis unfolding tok .
qed

section \<open>Properties\<close>

text \<open>
  C23. Client and server agree on the types. For every method of the API clients that decodes an object: when the server
  answers the request the method sends with an object, this is one of the struct the method decodes, and if
  \<open>encoding/json\<close> carries that one object faithfully the method returns its contents, with the server in the state the
  handler left it in; no other object can come back.
\<close>

theorem client_decodes_replies:
  assumes "cl_rt c = admin_http W D inp (cl_Address c)" and "url_safe (pn_ID (rg_node r))"
    and "Marshal (w_login W) \<lparr>nl_NodeID = i, nl_MeshId = mc_meshId mc, nl_MeshSecret = secret\<rparr> = Inr dl"
    and "Marshal (w_register W) \<lparr>rr_Node = NewPeerNode i [], rr_Token = [], rr_LogicalTime = 0, rr_LastUpdate = zero_time\<rparr> = Inr da"
    and "Marshal (w_register W) \<lparr>rr_Node = NewPeerNode i name, rr_Token = [], rr_LogicalTime = 0, rr_LastUpdate = zero_time\<rparr> = Inr dn"
    and "Marshal (w_register W) \<lparr>rr_Node = rg_node r, rr_Token = rg_token r, rr_LogicalTime = 0, rr_LastUpdate = zero_time\<rparr> = Inr dr"
    and "Marshal (w_invite W) (if ci_MeshId req = [] then req\<lparr>ci_MeshId := ''default''\<rparr> else req) = Inr di"
    and "parseInviteURL url_Parse link = Inr u" and "u_Scheme u @ ''://'' @ u_Host u = cl_Address c"
    and "u_RawQuery u = []" and "u_EscapedPath u = ''/api/v1/redeem/'' @ j" and "url_safe j" and "pn_ID node \<noteq> []"
    and "Marshal (w_redeem W) node = Inr dd"
  shows
   "decodes ReplyLogin (w_session W) (\<lambda>v. (None, SetToken (nr_Token v) c))
       (api_answer W D inp (cl_token c) (k, s) ''POST'' (v1 [''login'']) (Some dl)) k
       (let (e, c', st) = Login W mc i secret c (k, s) in ((e, c'), st)) \<and>
    decodes ReplyNode (w_node W) (\<lambda>v. None)
       (api_answer W D inp (cl_token c) (k, s) ''POST'' (v1 [''authorize'']) (Some da)) k (Authorize W c i (k, s)) \<and>
    decodes ReplyRegister (w_register W) (\<lambda>v. Inr \<lparr>rg_node = rr_Node v, rg_token = rr_Token v\<rparr>)
       (api_answer W D inp (cl_token c) (k, s) ''POST'' (v1 [''nodes'']) (Some dn)) k (MeshClient_Register W c name i (k, s)) \<and>
    decodes ReplyRegister (w_register W) (\<lambda>v. (Inr (True, rr_LogicalTime v), r\<lparr>rg_token := rr_Token v\<rparr>))
       (api_answer W D inp (cl_token c) (k, s) ''POST'' (v1 [''nodes'', pn_ID (rg_node r)]) (Some dr)) k
       (let (res, r', st) = MeshClient_Refresh W c r (k, s) in ((res, r'), st)) \<and>
    decodes ReplyInvite (w_invited W) Inr
       (api_answer W D inp (cl_token c) (k, s) ''POST'' (v1 [''admin'', ''invite'']) (Some di)) k (CreateInvite W c req (k, s)) \<and>
    decodes ReplyNodes (w_nodes W) Inr
       (api_answer W D inp (cl_token c) (k, s) ''GET'' (v1 [''nodes'']) None) k (GetPeers_call W c (k, s)) \<and>
    decodes ReplyRelay (w_relay W) (\<lambda>v. Inr (gr_MultiAddress v, gr_LastUpdate v, gr_LogicalTime v))
       (api_answer W D inp (cl_token c) (k, s) ''GET'' (v1 [''relay'']) None) k (GetRelay W c (k, s)) \<and>
    decodes ReplyAdminNodes (w_admin_nodes W) Inr
       (api_answer W D inp (cl_token c) (k, s) ''GET'' (v1 [''admin'', ''nodes'']) None) k (ListNodes W c (k, s)) \<and>
    decodes ReplyInvites (w_invites W) Inr
       (api_answer W D inp (cl_token c) (k, s) ''GET'' (v1 [''admin'', ''invite'']) None) k (ListInvites W c (k, s)) \<and>
    decodes ReplyRedeem (w_redeemed W) Inr
       (api_answer W D inp [] (k, s) ''POST'' (v1 [''redeem'', j]) (Some dd)) k (RedeemInvite W (cl_rt c) url_Parse link node (k, s))"
  by (intro conjI login_typed [OF assms(1,3)] authorize_typed [OF assms(1,4)] register_typed [OF assms(1,5)]
      refresh_typed [OF assms(1,6,2)] invite_typed [OF assms(1,7)] peers_typed [OF assms(1)] relay_typed [OF assms(1)]
      list_nodes_typed [OF assms(1)] list_invites_typed [OF assms(1)]
      redeem_typed [OF assms(8) assms(1) [folded assms(9)] assms(10-14)])

text \<open>The registered node of the example refreshes its registration.\<close>

definition ex_typed_wire :: wire where
  "ex_typed_wire =
     (ex_wire \<lparr>rr_Node = ex_node ''n1'', rr_Token = ''72'', rr_LogicalTime = 0, rr_LastUpdate = zero_time\<rparr>
              \<lparr>rr_Node = ex_node ''n1'', rr_Token = ''72'', rr_LogicalTime = 1, rr_LastUpdate = 1000000000000\<rparr>)
     \<lparr>w_invite := \<lparr>Marshal = (\<lambda>v. Inr (ci_Name v)), Unmarshal = (\<lambda>d. Inl (GoErr ''no object''))\<rparr>\<rparr>"

theorem client_decodes_replies_witness:
  "let r = \<lparr>rg_node = ex_node ''n1'', rg_token = ''72''\<rparr>;
       c = NewClient (admin_http ex_typed_wire ex_deps (\<lambda>k. ex_inputs) ''http://a'') ''http://a'' ''secret''
   in \<exists>d v. resp_body (fst (api_answer ex_typed_wire ex_deps (\<lambda>k. ex_inputs) ''secret'' (0, ex_joined)
               ''POST'' (v1 [''nodes'', ''n1'']) (Some d))) = JsonBody (ReplyRegister v) \<and>
            rr_LogicalTime v = 1 \<and> fst (MeshClient_Refresh ex_typed_wire c r (0, ex_joined)) = Inr (True, 1)"
proof -
  let ?A = "\<lparr>rr_Node = ex_node ''n1'', rr_Token = ''72'', rr_LogicalTime = 0, rr_LastUpdate = zero_time\<rparr>"
  let ?B = "\<lparr>rr_Node = ex_node ''n1'', rr_Token = ''72'', rr_LogicalTime = 1, rr_LastUpdate = 1000000000000\<rparr>"
  let ?r = "\<lparr>rg_node = ex_node ''n1'', rg_token = ''72''\<rparr>" and ?W = ex_typed_wire
  let ?c = "NewClient (admin_http ex_typed_wire ex_deps (\<lambda>k. ex_inputs) ''http://a'') ''http://a'' ''secret''"
  let ?req = "\<lparr>ci_Name = [], ci_LifetimeSec = 60, ci_OneTime = True, ci_MeshId = []\<rparr>"
  have marshal: "\<exists>d. Marshal (w_register ?W) v = Inr d" "\<exists>d. Marshal (w_login ?W) l = Inr d"
    "\<exists>d. Marshal (w_invite ?W) q = Inr d" "\<exists>d. Marshal (w_redeem ?W) n = Inr d" for v l q n
    by (simp_all add: ex_typed_wire_def ex_wire_def pick_codec_def)
  have resp: "resp_body (fst (api_answer ?W ex_deps (\<lambda>k. ex_inputs) ''secret'' (0, ex_joined) ''POST'' (v1 [''nodes'', ''n1''])
      (Some ''a''))) = JsonBody (ReplyRegister ?B)" by code_simp
  have A: "Marshal (w_register ?W) \<lparr>rr_Node = rg_node ?r, rr_Token = rg_token ?r, rr_LogicalTime = 0, rr_LastUpdate = zero_time\<rparr> = Inr ''a''"
    by (simp add: ex_typed_wire_def ex_wire_def pick_codec_def)
  have c: "cl_rt ?c = admin_http ?W ex_deps (\<lambda>k. ex_inputs) (cl_Address ?c)" "cl_token ?c = ''secret''" by (simp_all add: NewClient_def)
  have i: "url_safe (pn_ID (rg_node ?r))" "pn_ID (rg_node ?r) = ''n1''" "url_safe ''75''" "pn_ID (ex_node ''n1'') \<noteq> []" by code_simp+
  have u: "parseInviteURL (\<lambda>raw. Inr ex_url) ''http://a/api/v1/redeem/75'' = Inr ex_url"
    "u_Scheme ex_url @ ''://'' @ u_Host ex_url = cl_Address ?c" "u_RawQuery ex_url = []" "u_EscapedPath ex_url = ''/api/v1/redeem/'' @ ''75''"
    by (simp_all add: parseInviteURL_def ex_url_def NewClient_def)
  obtain dl da dn di dd where d: "Marshal (w_login ?W) \<lparr>nl_NodeID = ''n1'', nl_MeshId = mc_meshId (Mesh ''default''), nl_MeshSecret = ''72''\<rparr> = Inr dl"
    "Marshal (w_register ?W) \<lparr>rr_Node = NewPeerNode ''n1'' [], rr_Token = [], rr_LogicalTime = 0, rr_LastUpdate = zero_time\<rparr> = Inr da"
    "Marshal (w_register ?W) \<lparr>rr_Node = NewPeerNode ''n1'' ''left'', rr_Token = [], rr_LogicalTime = 0, rr_LastUpdate = zero_time\<rparr> = Inr dn"
    "Marshal (w_invite ?W) (if ci_MeshId ?req = [] then ?req\<lparr>ci_MeshId := ''default''\<rparr> else ?req) = Inr di"
    "Marshal (w_redeem ?W) (ex_node ''n1'') = Inr dd"
    using marshal by metis
  have "decodes ReplyRegister (w_register ?W) (\<lambda>v. (Inr (True, rr_LogicalTime v), ?r\<lparr>rg_token := rr_Token v\<rparr>))
      (api_answer ?W ex_deps (\<lambda>k. ex_inputs) (cl_token ?c) (0, ex_joined) ''POST'' (v1 [''nodes'', pn_ID (rg_node ?r)]) (Some ''a'')) 0
      (let (res, r', st) = MeshClient_Refresh ?W ?c ?r (0, ex_joined) in ((res, r'), st))"
    using client_decodes_replies [where c = ?c and r = ?r and k = 0 and s = ex_joined, OF c(1) i(1) d(1-3) A d(4) u i(3,4) d(5)] by (elim conjE)
  moreover have "codec_faithful (w_register ?W) ?B" by (simp add: ex_typed_wire_def ex_wire_faithful)
  ultimately have "(let (res, r', st) = MeshClient_Refresh ?W ?c ?r (0, ex_joined) in ((res, r'), st)) =
      ((Inr (True, rr_LogicalTime ?B), ?r\<lparr>rg_token := rr_Token ?B\<rparr>), Suc 0,
        snd (api_answer ?W ex_deps (\<lambda>k. ex_inputs) ''secret'' (0, ex_joined) ''POST'' (v1 [''nodes'', ''n1'']) (Some ''a'')))"
    unfolding decodes_def c(2) i(2) using resp by blast
  then have "fst (MeshClient_Refresh ?W ?c ?r (0, ex_joined)) = Inr (True, 1)"
    by (cases "MeshClient_Refresh ?W ?c ?r (0, ex_joined)") simp
  then show ?thesis unfolding Let_def using resp by (intro exI [of _ "''a''"] exI [of _ ?B] conjI) simp_all
qed

end
