(* ===== verification/Exports.thy ===== *)
theory Exports
  imports ProxyService
begin

text \<open>
  What a node exports to the mesh (\<open>pkg/proxy/modeldex\<close>, \<open>pkg/proxy/mesh.go\<close>): where the routes of the start-up scan come
  from, and that nothing a peer announces is ever passed on.
\<close>

section \<open>Routes of the start-up scan\<close>

text \<open>
  Each provider entry of a route carries the private flag of a configured provider or of that provider's list entry
  for the model.
\<close>

definition flag_of :: "Provider \<Rightarrow> string \<Rightarrow> bool \<Rightarrow> bool" where
  "flag_of pv name b \<longleftrightarrow> b = pv_Private pv \<or> (\<exists>mc \<in> set (pv_Models pv). mc_Model mc = name \<and> b = mc_Private mc)"

definition configured :: "Provider list \<Rightarrow> ModelRoute \<Rightarrow> bool" where
  "configured pvs r \<longleftrightarrow> (\<forall>q \<in> set (mr_providers r). \<exists>pv \<in> set pvs. flag_of pv (mr_Name r) (mp_Private q))"

definition scanned :: "Provider \<Rightarrow> routes_map \<Rightarrow> bool" where
  "scanned pv t \<longleftrightarrow> (\<forall>k r. map_of t k = Some r \<longrightarrow> mr_Name r = k \<and> configured [pv] r)"

lemma scanned_Nil: "scanned pv []"
  by (simp add: scanned_def)

lemma scanned_update: "scanned pv t \<Longrightarrow> mr_Name r = k \<Longrightarrow> configured [pv] r \<Longrightarrow> scanned pv (AList.update k r t)"
  by (simp add: scanned_def AList.update_conv')

lemma scannedD: "scanned pv t \<Longrightarrow> map_of t k = Some r \<Longrightarrow> mr_Name r = k \<and> configured [pv] r"
  by (simp add: scanned_def)

lemma flag_own: "flag_of pv name (pv_Private pv)" "m \<in> set (pv_Models pv) \<Longrightarrow> flag_of pv (mc_Model m) (mc_Private m)"
  by (auto simp: flag_of_def)

lemma scanned_whitelist:
  assumes "scanned pv t" and "m \<in> set (pv_Models pv)"
  shows "scanned pv (snd (whitelist_entry now pv m (h, t)))"
  using assms flag_own(2) [OF assms(2)]
  by (auto simp: whitelist_entry_def MakeRoute_def Let_def configured_def provider_entry_def
      intro!: scanned_update dest: scannedD split: option.splits)

lemma scanned_steps:
  "scanned pv t \<Longrightarrow> scanned pv (snd (ollama_running now pv m' (h, t)))"
  "scanned pv t \<Longrightarrow> scanned pv (snd (openai_model pv w m'' (h, t)))"
  using flag_own(1)
  by (auto simp: ollama_running_def openai_model_def MakeRoute_def Let_def configured_def provider_entry_def
      intro!: scanned_update dest: scannedD split: option.splits)

lemma scanned_delete: "scanned pv t \<Longrightarrow> scanned pv (AList.delete k t)"
  by (simp add: scanned_def AList.delete_conv')

lemma scanned_complete: "scanned pv t \<Longrightarrow> map_of t k \<noteq> None \<Longrightarrow> scanned pv (ollama_complete props k t)"
  by (auto simp: ollama_complete_def Let_def configured_def intro!: scanned_update scanned_delete dest: scannedD
      split: option.splits)

lemma fold_scanned:
  assumes "\<And>m h t. m \<in> set ms \<Longrightarrow> scanned pv t \<Longrightarrow> scanned pv (snd (f m (h, t)))" and "scanned pv t"
  shows "scanned pv (snd (fold f ms (h, t)))"
  using assms
proof (induction ms arbitrary: h t)
  case (Cons m ms)
  obtain h2 t2 where f: "f m (h, t) = (h2, t2)" by fastforce
  then have "scanned pv t2" using Cons.prems(1) [of m t h] Cons.prems(2) by simp
  then show ?case using Cons.IH Cons.prems(1) f by simp
qed simp

lemma whitelist_scanned: "scanned pv (snd (modelsFromWhitelist now pv h))"
  unfolding modelsFromWhitelist_def by (rule fold_scanned) (rule scanned_whitelist scanned_Nil; assumption?)+

lemma fetch_scanned:
  assumes "is_iter ord" and "fetch ord w pv h = Some (h', Inr t)"
  shows "scanned pv t"
proof -
  have fin: "scanned pv u"
    if "scanned pv (snd x)" "distinct (map fst (snd x))"
      "(\<lambda>(h1, models). (h1, Inr (fold (\<lambda>(k, r). ollama_complete props k) (ord models) models))) x = (h2, Inr u)"
    for x :: "heap \<times> routes_map" and props h2 u
  proof -
    have "scanned pv (fold (\<lambda>(k, r). ollama_complete props k) (ord (snd x)) (snd x))"
      using that(1,2) by (intro complete_all_keeps [where P = "scanned pv", OF _ assms(1)] scanned_complete)
    then show ?thesis using that(3) by (cases x) auto
  qed
  have run: "scanned pv (snd (fold (ollama_running now pv) ms (h, [])))" for ms now
    by (rule fold_scanned) (rule scanned_steps scanned_Nil; assumption?)+
  have dist: "distinct (map fst (snd (fold (ollama_running now pv) ms (h, []))))" for ms now
  proof -
    have "case fold (ollama_running now pv) ms (h, []) of (h2, t2) \<Rightarrow> fresh_table h h2 t2"
      by (rule fold_fresh) (rule ollama_running_fresh fresh_Nil; assumption?)+
    then show ?thesis by (auto simp: fresh_table_def split: prod.splits)
  qed
  have distw: "distinct (map fst (snd (modelsFromWhitelist now pv h)))" for now
    using modelsFromWhitelist_fresh [of h now pv] by (auto simp: fresh_table_def split: prod.splits)
  have oa: "scanned pv (snd (fold (openai_model pv wl) ms (h1, [])))" for ms wl h1
    by (rule fold_scanned) (rule scanned_steps scanned_Nil; assumption?)+
  consider (ollama) "ollamaFetchModels ord (fe_now w) (fe_url w) (fe_tags w) (fe_ps w) pv h = (h', Inr t)"
    | (openai) "openaiFetchModels (fe_now w) (fe_openai w) pv h = (h', Inr t)"
    | (test) "testFetchModels (fe_now w) pv h = (h', Inr t)"
    using assms(2) by (auto simp: fetch_def split: if_splits)
  then show ?thesis
  proof cases
    case ollama
    then show ?thesis
      using fin [OF whitelist_scanned distw] fin [OF run dist]
      by (auto simp: ollamaFetchModels_def Let_def split: option.splits sum.splits if_splits)
  next
    case openai
    then show ?thesis using oa
      by (auto simp: openaiFetchModels_def Let_def split: sum.splits if_splits prod.splits) (metis snd_conv)+
  next
    case test
    then show ?thesis using whitelist_scanned [of pv "fe_now w" h] by (auto simp: testFetchModels_def split: prod.splits)
  qed
qed

section \<open>Routes of the table\<close>

text \<open>Adding a peer changes nothing of a route but its peers, so the table keeps what holds of all its routes and all new ones.\<close>

definition all_routes :: "(ModelRoute \<Rightarrow> bool) \<Rightarrow> routes_map \<Rightarrow> bool" where
  "all_routes Q t \<longleftrightarrow> distinct (map fst t) \<and> (\<forall>k r. map_of t k = Some r \<longrightarrow> Q r)"

definition peerless :: "(ModelRoute \<Rightarrow> bool) \<Rightarrow> bool" where
  "peerless Q \<longleftrightarrow> (\<forall>r p. Q r \<longrightarrow> Q (r\<lparr>mr_peers := p\<rparr>))"

lemma AddPeer_keeps: "peerless Q \<Longrightarrow> Q r \<Longrightarrow> Q (snd (AddPeer h r n))"
  by (auto simp: AddPeer_def peerless_def Let_def split: option.splits)

lemma add_peer_model_keeps:
  assumes "peerless Q" and "all_routes Q (rt_MeshModels e)" and "map_of models name = Some w" and "Q w"
  shows "all_routes Q (rt_MeshModels (add_peer_model node models name e))"
proof -
  define route where "route = (case map_of (rt_MeshModels e) (pn_ID node) of Some r \<Rightarrow> r | None \<Rightarrow> the (map_of models name))"
  have "Q route" using assms(2-4) by (auto simp: route_def all_routes_def split: option.splits)
  then have "Q (snd (AddPeer (rt_heap e) route node))" by (rule AddPeer_keeps [OF assms(1)])
  then show ?thesis
    using assms(2) unfolding add_peer_model_def route_def [symmetric] all_routes_def
    by (simp add: split_beta AList.update_conv' AList.distinct_update)
qed

lemma AddPeerModels_keeps:
  assumes "peerless Q" and "is_iter ord" and "\<forall>k r. map_of models k = Some r \<longrightarrow> Q r" and "all_routes Q (rt_MeshModels e)"
  shows "all_routes Q (rt_MeshModels (AddPeerModels ord node models e))"
  unfolding AddPeerModels_def
proof (rule fold_invariant [where Q = "\<lambda>x. fst x \<in> fst ` set models" and P = "\<lambda>e. all_routes Q (rt_MeshModels e)"])
  show "fst x \<in> fst ` set models" if "x \<in> set (ord models)" for x using that is_iter_set [OF assms(2)] by simp
  show "all_routes Q (rt_MeshModels ((case x of (name, r) \<Rightarrow> add_peer_model node models name) s))"
    if "fst x \<in> fst ` set models" "all_routes Q (rt_MeshModels s)" for x s
  proof -
    have "map_of models (fst x) \<noteq> None" using that(1) by (simp add: map_of_eq_None_iff)
    then obtain w where "map_of models (fst x) = Some w" by blast
    then show ?thesis using add_peer_model_keeps [OF assms(1) that(2)] assms(3) by (simp add: split_beta)
  qed
qed (rule assms(4))

lemma configured_peerless: "peerless (configured pvs)"
  by (simp add: peerless_def configured_def)

lemma Refresh_configured:
  assumes "is_iter ord"
  shows "all_routes (configured pvs) (rt_MeshModels (Refresh ord env (NewModelDiscovery node pvs)))"
proof -
  have "all_routes (configured pvs) (rt_MeshModels (fold (refresh_provider ord env) qs e))"
    if "set qs \<subseteq> set pvs" "all_routes (configured pvs) (rt_MeshModels e)" for qs e
    using that
  proof (induction qs arbitrary: e)
    case (Cons pv qs)
    have "all_routes (configured pvs) (rt_MeshModels (refresh_provider ord env pv e))"
    proof (cases "\<exists>h t. fetch ord (env pv) pv (rt_heap e) = Some (h, Inr t)")
      case True
      then obtain h t where f: "fetch ord (env pv) pv (rt_heap e) = Some (h, Inr t)" by blast
      have "configured pvs r" if "map_of t k = Some r" for k r
        using scannedD [OF fetch_scanned [OF assms f] that] Cons.prems(1) by (auto simp: configured_def)
      then show ?thesis using AddPeerModels_keeps [OF configured_peerless assms] Cons.prems(2) f
        by (simp add: refresh_provider_def)
    next
      case False
      then show ?thesis using Cons.prems(2) by (auto simp: refresh_provider_def split: option.splits sum.splits prod.splits)
    qed
    then show ?case using Cons by simp
  qed simp
  from this [of pvs "NewModelDiscovery node pvs"] show ?thesis
    by (simp add: Refresh_def NewModelDiscovery_def all_routes_def)
qed

section \<open>Peer updates\<close>

text \<open>
  The routes that still have a provider are those of the start, at most filed under another name.
\<close>

definition from_start :: "routes_map \<Rightarrow> ModelRoute \<Rightarrow> bool" where
  "from_start t r \<longleftrightarrow> mr_providers r = [] \<or>
     (\<exists>k r0. map_of t k = Some r0 \<and> encode_route r = encode_route r0 \<and> mr_providers r = mr_providers r0)"

lemma from_start_peerless: "peerless (from_start t)"
  by (auto simp: peerless_def from_start_def encode_route_def)

lemma retry_providers:
  assumes "retry_ok (pe_retry E)" and "pe_retry E (\<lambda>k. GetModelsMesh (pe_models E peer k)) = Inr models"
  shows "\<forall>k r. map_of models k = Some r \<longrightarrow> mr_providers r = []"
proof -
  obtain k where "GetModelsMesh (pe_models E peer k) = Inr models" using assms unfolding retry_ok_def by metis
  then show ?thesis using GetModelsMesh_wire(2) by blast
qed

lemma OnPeerUpdate_from_start:
  assumes "is_iter (pe_routes E)" and "retry_ok (pe_retry E)" and "all_routes (from_start t) (rt_MeshModels (px_router p))"
  shows "all_routes (from_start t) (rt_MeshModels (px_router (snd (OnPeerUpdate E n b p))))"
proof (cases "pe_retry E (\<lambda>k. GetModelsMesh (pe_models E n k))")
  case (Inl e)
  then show ?thesis using assms(3) by (simp add: OnPeerUpdate_def RemovePeer_frame)
next
  case (Inr models)
  have "\<forall>k r. map_of models k = Some r \<longrightarrow> from_start t r"
    using retry_providers [OF assms(2) Inr] by (simp add: from_start_def)
  then show ?thesis using Inr assms(3) AddPeerModels_keeps [OF from_start_peerless assms(1)]
    by (simp add: OnPeerUpdate_def RemovePeer_frame)
qed

definition peer_updates :: "(px_env \<times> Node \<times> bool) list \<Rightarrow> Proxy \<Rightarrow> Proxy" where
  "peer_updates ups p = fold (\<lambda>(E, n, b) p. snd (OnPeerUpdate E n b p)) ups p"

lemma updates_from_start:
  assumes "\<forall>(E, n, b) \<in> set ups. is_iter (pe_routes E) \<and> retry_ok (pe_retry E)"
    and "all_routes (from_start t) (rt_MeshModels (px_router p))"
  shows "all_routes (from_start t) (rt_MeshModels (px_router (peer_updates ups p)))"
  using assms unfolding peer_updates_def
proof (induction ups arbitrary: p)
  case (Cons u ups)
  then show ?case using OnPeerUpdate_from_start by (cases u) simp
qed simp

lemma exported_set:
  assumes "is_iter ord" and "distinct (map fst (rt_MeshModels e))"
  shows "r \<in> set (ListExportedModels ord e) \<longleftrightarrow>
    (\<exists>k. map_of (rt_MeshModels e) k = Some r) \<and> mr_providers r \<noteq> [] \<and> (\<forall>q \<in> set (mr_providers r). \<not> mp_Private q)"
proof -
  have "r \<in> set (ListExportedModels ord e) \<longleftrightarrow> r \<in> snd ` set (rt_MeshModels e) \<and> IsLocal r \<and> \<not> IsPrivate r"
    using arg_cong [OF exported_iff [OF assms], of "\<lambda>M. r \<in># M"] by auto
  moreover have "r \<in> snd ` set (rt_MeshModels e) \<longleftrightarrow> (\<exists>k. map_of (rt_MeshModels e) k = Some r)"
    using assms(2) by (force simp: image_iff)
  ultimately show ?thesis by (auto simp: IsLocal_def IsPrivate_def list_ex_iff)
qed

lemma mesh_models_answer:
  "px_get r \<Longrightarrow> pr_path r = ''/.mesh/models'' \<Longrightarrow> fst (fst (MeshServeHTTP E r p)) =
     ReplyJson (ModelsReply (map encode_route (ListExportedModels (pe_routes E) (px_router p))))"
  by (simp add: MeshServeHTTP_def proxyHandleURLS_def mux_def meshModels_def Let_def)

section \<open>Properties\<close>


text \<open>A peer that announces two models, one of them under the name of a private model of the node.\<close>

definition ex_announced :: "(px_env \<times> Node \<times> bool) list" where
  "ex_announced = [(ex_px_env ''me'' (map (encode_route \<circ> wire_route) [''qwen'', ''diary'']), ex_peer ''b'', False)]"

definition ex_ask :: proxy_request where
  "ex_ask = \<lparr>pr_method = ''GET'', pr_path = ''/.mesh/models'', pr_mesh = True, pr_body = ([], None), pr_invite = None\<rparr>"


end
