(* ===== verification/Notifier.thy ===== *)
theory Notifier
  imports Prelude
begin

text \<open>
  The refresh socket: \<open>pkg/proxy/socket/notifier.go\<close> and \<open>client.go\<close>. A browser connects with a web
  socket; the proxy calls \<open>Broadcast\<close> when the models change, and every connected browser gets a
  message. The parts run concurrently: \<open>Poll\<close> serves the action channel, each connection has a
  reader and a writer goroutine, each caller of \<open>Handle\<close> and \<open>Broadcast\<close> is another one. The operations
  are functions; \<open>sock_step\<close> interleaves them. A pointer is a number, nil is 0, and
  the heap holds the \<open>Client\<close> structs. Whether a read or a write on a connection succeeds is up to the network,
  except that it fails once the connection was closed locally. A message from the browser and
  a pong change nothing and are no steps.
\<close>

section \<open>Channels\<close>

text \<open>A send in a \<open>select\<close> with \<open>default\<close>, and one that blocks (\<open>None\<close>) while the buffer is full.\<close>

definition offer :: "nat \<Rightarrow> 'a \<Rightarrow> 'a list \<Rightarrow> 'a list" where
  "offer cap x q = (if length q < cap then q @ [x] else q)"

definition send :: "nat \<Rightarrow> 'a \<Rightarrow> 'a list \<Rightarrow> 'a list option" where
  "send cap x q = (if length q < cap then Some (q @ [x]) else None)"

section \<open>Data\<close>

type_synonym client_ptr = nat

datatype ws_message = Text string | Ping | CloseFrame

record Action =
  act_Action :: string
  act_Client :: client_ptr

record SockClient =
  ws_open :: bool
  ws_sent :: "ws_message list"
  ws_wakeup :: "bool list"
  ws_wakeup_closed :: bool

record Notifier =
  nt_clients :: "client_ptr \<rightharpoonup> bool"
  nt_action :: "Action list"

type_synonym sock_heap = "client_ptr \<rightharpoonup> SockClient"

definition action_cap :: nat where "action_cap = 64"

definition wakeup_cap :: nat where "wakeup_cap = 8"

definition NewNotifier :: Notifier where
  "NewNotifier = \<lparr>nt_clients = Map.empty, nt_action = []\<rparr>"

definition new_client :: SockClient where
  "new_client = \<lparr>ws_open = True, ws_sent = [], ws_wakeup = [], ws_wakeup_closed = False\<rparr>"

text \<open>In nanoseconds.\<close>

definition writeWait :: int where "writeWait = 10 * 1000000000"

definition pongWait :: int where "pongWait = 60 * 1000000000"

definition pingPeriod :: int where "pingPeriod = (pongWait * 9) div 10"

section \<open>Operations\<close>

definition Broadcast :: "Notifier \<Rightarrow> Notifier" where
  "Broadcast n = n\<lparr>nt_action := offer action_cap \<lparr>act_Action = ''broadcast'', act_Client = 0\<rparr> (nt_action n)\<rparr>"

definition Notifier_Register :: "client_ptr \<Rightarrow> Notifier \<Rightarrow> Notifier option" where
  "Notifier_Register c n =
     map_option (\<lambda>q. n\<lparr>nt_action := q\<rparr>) (send action_cap \<lparr>act_Action = ''register'', act_Client = c\<rparr> (nt_action n))"

definition Deregister :: "client_ptr \<Rightarrow> Notifier \<Rightarrow> Notifier option" where
  "Deregister c n =
     map_option (\<lambda>q. n\<lparr>nt_action := q\<rparr>) (send action_cap \<lparr>act_Action = ''deregister'', act_Client = c\<rparr> (nt_action n))"

definition SockClient_Close :: "client_ptr \<Rightarrow> sock_heap \<Rightarrow> sock_heap result" where
  "SockClient_Close p h =
     (case h p of
        None \<Rightarrow> Inl (GoPanic ''nil pointer: Client'')
      | Some c \<Rightarrow> Inr (h(p \<mapsto> c\<lparr>ws_open := False\<rparr>)))"

definition wake :: "SockClient \<Rightarrow> SockClient" where
  "wake c = c\<lparr>ws_wakeup := offer wakeup_cap True (ws_wakeup c)\<rparr>"

definition Wakeup :: "client_ptr \<Rightarrow> sock_heap \<Rightarrow> sock_heap result" where
  "Wakeup p h =
     (case h p of
        None \<Rightarrow> Inl (GoPanic ''nil pointer: Client'')
      | Some c \<Rightarrow>
          if ws_wakeup_closed c then Inl (GoPanic ''send on closed channel'')
          else Inr (h(p \<mapsto> wake c)))"

text \<open>
  What \<open>Poll\<close> does with one action. The clients are known to \<open>Poll\<close> alone; for a broadcast the result holds
  the clients that are still to be woken, in the order in which \<open>range\<close> visits them.
\<close>

definition Poll_action ::
  "client_ptr list \<Rightarrow> Action \<Rightarrow> (client_ptr \<rightharpoonup> bool) \<times> sock_heap \<Rightarrow>
    ((client_ptr \<rightharpoonup> bool) \<times> sock_heap \<times> client_ptr list) result" where
  "Poll_action order action s =
     (case s of (clients, h) \<Rightarrow>
        if act_Action action = ''register'' then Inr (clients(act_Client action \<mapsto> True), h, [])
        else if act_Action action = ''deregister'' then
          (case SockClient_Close (act_Client action) h of
             Inl e \<Rightarrow> Inl e
           | Inr h' \<Rightarrow> Inr (clients(act_Client action := None), h', []))
        else if act_Action action = ''broadcast'' then Inr (clients, h, order)
        else Inr (clients, h, []))"

text \<open>
  One round of \<open>writePump\<close>. \<open>ok\<close> says whether the writes succeed, the second component whether the
  loop goes on; leaving it closes the connection.
\<close>

definition writePump_wakeup :: "bool \<Rightarrow> SockClient \<Rightarrow> (SockClient \<times> bool) option" where
  "writePump_wakeup ok c =
     (case ws_wakeup c of
        [] \<Rightarrow> if ws_wakeup_closed c
              then Some (c\<lparr>ws_sent := (if ok then ws_sent c @ [CloseFrame] else ws_sent c), ws_open := False\<rparr>, False)
              else None
      | _ # rest \<Rightarrow>
          if ok then Some (c\<lparr>ws_wakeup := rest, ws_sent := ws_sent c @ [Text ''wakeup'']\<rparr>, True)
          else Some (c\<lparr>ws_wakeup := rest, ws_open := False\<rparr>, False))"

definition writePump_tick :: "bool \<Rightarrow> SockClient \<Rightarrow> SockClient \<times> bool" where
  "writePump_tick ok c =
     (if ok then (c\<lparr>ws_sent := ws_sent c @ [Ping]\<rparr>, True) else (c\<lparr>ws_open := False\<rparr>, False))"

section \<open>All goroutines together\<close>

text \<open>
  Where the goroutines of a connection are: none yet; \<open>Handle\<close> in \<open>Register\<close>; \<open>readPump\<close> reading;
  its deferred \<open>Deregister\<close>; \<open>readPump\<close> returned.
\<close>

datatype reader = NoConn | Registering | Reading | Leaving | Gone

text \<open>
  Where \<open>Poll\<close> is: in the loop over the clients with these left to wake, or ended by a panic. With nobody
  left to wake it waits for the next action.
\<close>

datatype poll_at = Waking "client_ptr list" | Panicked goerr

record Sockets =
  so_notifier :: Notifier
  so_poll :: poll_at
  so_heap :: sock_heap
  so_reader :: "client_ptr \<Rightarrow> reader"
  so_writer :: "client_ptr \<Rightarrow> bool"

definition sock_init :: Sockets where
  "sock_init = \<lparr>so_notifier = NewNotifier, so_poll = Waking [], so_heap = Map.empty, so_reader = (\<lambda>p. NoConn), so_writer = (\<lambda>p. False)\<rparr>"

text \<open>\<open>Handle\<close> up to \<open>Register\<close>; when the upgrade fails it returns at once and nothing changes.\<close>

definition Handle_upgraded :: "client_ptr \<Rightarrow> Sockets \<Rightarrow> Sockets" where
  "Handle_upgraded p s = s\<lparr>so_heap := (so_heap s)(p \<mapsto> new_client), so_reader := (so_reader s)(p := Registering)\<rparr>"

definition Handle_register :: "client_ptr \<Rightarrow> Sockets \<Rightarrow> Sockets option" where
  "Handle_register p s =
     map_option (\<lambda>n. s\<lparr>so_notifier := n, so_writer := (so_writer s)(p := True), so_reader := (so_reader s)(p := Reading)\<rparr>)
       (Notifier_Register p (so_notifier s))"

definition readPump_deferred :: "client_ptr \<Rightarrow> Sockets \<Rightarrow> Sockets option" where
  "readPump_deferred p s =
     map_option (\<lambda>n. s\<lparr>so_notifier := n, so_reader := (so_reader s)(p := Gone)\<rparr>) (Deregister p (so_notifier s))"

text \<open>
  \<open>Poll\<close> takes the next action, and wakes the next client. Its lock is taken by nobody else, so the other
  goroutines run between two of these steps. A panic is a step too: it ends \<open>Poll\<close> for good.
\<close>

definition Poll_take :: "client_ptr list \<Rightarrow> Sockets \<Rightarrow> Sockets option" where
  "Poll_take order s =
     (case (so_poll s, nt_action (so_notifier s)) of
        (Waking [], action # rest) \<Rightarrow> Some
          (case Poll_action order action (nt_clients (so_notifier s), so_heap s) of
             Inl e \<Rightarrow> s\<lparr>so_notifier := (so_notifier s)\<lparr>nt_action := rest\<rparr>, so_poll := Panicked e\<rparr>
           | Inr (clients, h, ps) \<Rightarrow>
               s\<lparr>so_notifier := \<lparr>nt_clients = clients, nt_action = rest\<rparr>, so_poll := Waking ps, so_heap := h\<rparr>)
      | _ \<Rightarrow> None)"

definition Poll_wake :: "Sockets \<Rightarrow> Sockets option" where
  "Poll_wake s =
     (case so_poll s of
        Waking (p # ps) \<Rightarrow> Some
          (case Wakeup p (so_heap s) of
             Inl e \<Rightarrow> s\<lparr>so_poll := Panicked e\<rparr>
           | Inr h \<Rightarrow> s\<lparr>so_poll := Waking ps, so_heap := h\<rparr>)
      | _ \<Rightarrow> None)"

definition write_result :: "client_ptr \<Rightarrow> SockClient \<times> bool \<Rightarrow> Sockets \<Rightarrow> Sockets" where
  "write_result p r s = s\<lparr>so_heap := (so_heap s)(p \<mapsto> fst r), so_writer := (so_writer s)(p := snd r)\<rparr>"

datatype sock_event = Took | Woke | Other

inductive sock_step :: "sock_event \<Rightarrow> Sockets \<Rightarrow> Sockets \<Rightarrow> bool" where
  broadcast: "sock_step Other s (s\<lparr>so_notifier := Broadcast (so_notifier s)\<rparr>)"
| upgrade: "p \<noteq> 0 \<Longrightarrow> so_reader s p = NoConn \<Longrightarrow> sock_step Other s (Handle_upgraded p s)"
| register: "so_reader s p = Registering \<Longrightarrow> Handle_register p s = Some s' \<Longrightarrow> sock_step Other s s'"
| read_error: "so_reader s p = Reading \<Longrightarrow> sock_step Other s (s\<lparr>so_reader := (so_reader s)(p := Leaving)\<rparr>)"
| deregister: "so_reader s p = Leaving \<Longrightarrow> readPump_deferred p s = Some s' \<Longrightarrow> sock_step Other s s'"
| wakeup: "so_writer s p \<Longrightarrow> so_heap s p = Some c \<Longrightarrow> ok \<longrightarrow> ws_open c \<Longrightarrow> writePump_wakeup ok c = Some r \<Longrightarrow>
    sock_step Other s (write_result p r s)"
| tick: "so_writer s p \<Longrightarrow> so_heap s p = Some c \<Longrightarrow> ok \<longrightarrow> ws_open c \<Longrightarrow>
    sock_step Other s (write_result p (writePump_tick ok c) s)"
| take: "distinct order \<Longrightarrow> set order = dom (nt_clients (so_notifier s)) \<Longrightarrow> Poll_take order s = Some s' \<Longrightarrow>
    sock_step Took s s'"
| wake: "Poll_wake s = Some s' \<Longrightarrow> sock_step Woke s s'"

text \<open>Runs, with what happened in them.\<close>

inductive sock_run :: "Sockets \<Rightarrow> sock_event list \<Rightarrow> Sockets \<Rightarrow> bool" where
  start: "sock_run s [] s"
| more: "sock_run s es t \<Longrightarrow> sock_step e t u \<Longrightarrow> sock_run s (es @ [e]) u"

inductive_cases took_stepE: "sock_step Took s s'"
inductive_cases woke_stepE: "sock_step Woke s s'"
inductive_cases other_stepE: "sock_step Other s s'"

section \<open>Bounded mailboxes\<close>

text \<open>
  What the callers of a non-blocking send rely on, for both channels: the buffer stays within its
  capacity, a message is appended while there is room, and after a send the buffer is not empty, so that
  a receiver will look again even when the message itself was dropped.
\<close>

locale mailbox =
  fixes buf :: "'s \<Rightarrow> 'a list" and put :: "'s \<Rightarrow> 's" and cap :: nat and msg :: 'a
  assumes put_buf: "buf (put s) = offer cap msg (buf s)" and cap_pos: "0 < cap"
begin

lemma put_bounded: "length (buf s) \<le> cap \<Longrightarrow> length (buf (put s)) \<le> cap"
  by (simp add: put_buf offer_def)

lemma put_room: "length (buf s) < cap \<Longrightarrow> buf (put s) = buf s @ [msg]"
  by (simp add: put_buf offer_def)

lemma put_nonempty: "buf (put s) \<noteq> []"
  using cap_pos by (auto simp: put_buf offer_def)

end

abbreviation broadcast_action :: Action where
  "broadcast_action \<equiv> \<lparr>act_Action = ''broadcast'', act_Client = 0\<rparr>"

interpretation actions: mailbox nt_action Broadcast action_cap broadcast_action
  by unfold_locales (simp_all add: Broadcast_def action_cap_def)

interpretation wakeups: mailbox ws_wakeup wake wakeup_cap True
  by unfold_locales (simp_all add: wake_def wakeup_cap_def)

lemma send_Some: "send cap x q = Some q' \<longleftrightarrow> length q < cap \<and> q' = q @ [x]"
  by (auto simp: send_def)

section \<open>Membership\<close>

text \<open>Whether a client is registered once the actions in the queue have been served.\<close>

definition settle :: "client_ptr \<Rightarrow> Action \<Rightarrow> bool \<Rightarrow> bool" where
  "settle p a b =
     (if act_Client a \<noteq> p then b else if act_Action a = ''register'' then True
      else if act_Action a = ''deregister'' then False else b)"

definition settled :: "client_ptr \<Rightarrow> Notifier \<Rightarrow> bool" where
  "settled p n = fold (settle p) (nt_action n) (p \<in> dom (nt_clients n))"

abbreviation live :: "Sockets \<Rightarrow> client_ptr \<Rightarrow> bool" where
  "live s p \<equiv> so_reader s p = Reading \<or> so_reader s p = Leaving"

definition client_ok :: "SockClient \<Rightarrow> bool" where
  "client_ok c \<longleftrightarrow> \<not> ws_wakeup_closed c \<and> length (ws_wakeup c) \<le> wakeup_cap \<and> CloseFrame \<notin> set (ws_sent c)"

definition action_ok :: "sock_heap \<Rightarrow> Action \<Rightarrow> bool" where
  "action_ok h a \<longleftrightarrow> act_Action a = ''broadcast'' \<or>
     (act_Action a = ''register'' \<or> act_Action a = ''deregister'') \<and> h (act_Client a) \<noteq> None"

definition sock_inv :: "Sockets \<Rightarrow> bool" where
  "sock_inv s \<longleftrightarrow>
     length (nt_action (so_notifier s)) \<le> action_cap \<and>
     (\<forall>a \<in> set (nt_action (so_notifier s)). action_ok (so_heap s) a) \<and>
     dom (nt_clients (so_notifier s)) \<subseteq> dom (so_heap s) \<and>
     finite (dom (so_heap s)) \<and>
     (\<forall>c \<in> ran (so_heap s). client_ok c) \<and>
     (\<forall>p. so_reader s p = NoConn \<longleftrightarrow> so_heap s p = None) \<and>
     (\<forall>p. settled p (so_notifier s) \<longleftrightarrow> live s p) \<and>
     (\<exists>ps. so_poll s = Waking ps \<and> set ps \<subseteq> dom (so_heap s)) \<and>
     (\<forall>p c. so_reader s p = Gone \<longrightarrow> so_heap s p = Some c \<longrightarrow> ws_open c \<longrightarrow>
        \<lparr>act_Action = ''deregister'', act_Client = p\<rparr> \<in> set (nt_action (so_notifier s)))"

lemma settle_frame: "act_Action a = ''broadcast'' \<Longrightarrow> settle p a b = b"
  by (simp add: settle_def)

lemma client_ok_new: "client_ok new_client"
  by (simp add: client_ok_def new_client_def)

lemma client_ok_wake: "client_ok c \<Longrightarrow> client_ok (wake c)"
  using wakeups.put_bounded [of c] by (simp add: client_ok_def) (simp add: wake_def)

lemma client_ok_write:
  "client_ok c \<Longrightarrow> writePump_wakeup ok c = Some r \<Longrightarrow> client_ok (fst r)"
  "client_ok c \<Longrightarrow> client_ok (fst (writePump_tick ok c))"
  by (auto simp: client_ok_def writePump_wakeup_def writePump_tick_def split: list.splits if_splits)

lemma action_ok_mono: "action_ok h a \<Longrightarrow> dom h \<subseteq> dom h' \<Longrightarrow> action_ok h' a"
  by (auto simp: action_ok_def)

section \<open>The invariant\<close>

lemma settled_send:
  assumes "nt_action n' = nt_action n @ [a]" and "nt_clients n' = nt_clients n"
  shows "settled p n' = settle p a (settled p n)"
  using assms by (simp add: settled_def)

lemma settled_broadcast: "settled p (Broadcast n) = settled p n"
  by (simp add: settled_def Broadcast_def offer_def settle_frame)

lemma sock_invD:
  assumes "sock_inv s"
  shows "so_reader s p = NoConn \<longleftrightarrow> so_heap s p = None" and "settled p (so_notifier s) \<longleftrightarrow> live s p"
    and "so_heap s p = Some c \<Longrightarrow> client_ok c"
    and "\<exists>ps. so_poll s = Waking ps \<and> set ps \<subseteq> dom (so_heap s)"
    and "dom (nt_clients (so_notifier s)) \<subseteq> dom (so_heap s)" and "finite (dom (so_heap s))"
    and "length (nt_action (so_notifier s)) \<le> action_cap"
    and "a \<in> set (nt_action (so_notifier s)) \<Longrightarrow> action_ok (so_heap s) a"
    and "so_reader s p = Gone \<Longrightarrow> so_heap s p = Some c \<Longrightarrow> ws_open c \<Longrightarrow>
      \<lparr>act_Action = ''deregister'', act_Client = p\<rparr> \<in> set (nt_action (so_notifier s))"
  using assms unfolding sock_inv_def by (blast intro: ranI)+

lemma inv_init: "sock_inv sock_init"
  by (simp add: sock_inv_def sock_init_def NewNotifier_def settled_def)

lemma inv_broadcast:
  assumes "sock_inv s"
  shows "sock_inv (s\<lparr>so_notifier := Broadcast (so_notifier s)\<rparr>)"
proof -
  have "\<forall>a \<in> set (nt_action (Broadcast (so_notifier s))). action_ok (so_heap s) a"
    using assms by (auto simp: sock_inv_def Broadcast_def offer_def action_ok_def)
  moreover have "nt_clients (Broadcast n) = nt_clients n" for n by (simp add: Broadcast_def)
  moreover have "a \<in> set (nt_action n) \<Longrightarrow> a \<in> set (nt_action (Broadcast n))" for a n by (auto simp: Broadcast_def offer_def)
  ultimately show ?thesis
    using assms actions.put_bounded [of "so_notifier s"] by (simp add: sock_inv_def settled_broadcast)
qed

lemma inv_upgrade:
  assumes "sock_inv s" and "so_reader s p = NoConn"
  shows "sock_inv (Handle_upgraded p s)"
proof -
  let ?h = "(so_heap s)(p \<mapsto> new_client)"
  have d: "dom (so_heap s) \<subseteq> dom ?h" by auto
  then have "\<forall>a \<in> set (nt_action (so_notifier s)). action_ok ?h a"
    using assms(1) action_ok_mono unfolding sock_inv_def by blast
  moreover have "\<forall>c \<in> ran ?h. client_ok c" using assms client_ok_new by (auto simp: sock_inv_def ran_def)
  moreover have "settled x (so_notifier s) \<longleftrightarrow> live (Handle_upgraded p s) x" for x
    using sock_invD(2) [OF assms(1)] assms(2) by (simp add: Handle_upgraded_def)
  moreover have "dom (nt_clients (so_notifier s)) \<subseteq> dom ?h" using sock_invD(5) [OF assms(1)] d by blast
  moreover have "finite (dom ?h)" using assms(1) by (simp add: sock_inv_def)
  moreover have "\<exists>ps. so_poll s = Waking ps \<and> set ps \<subseteq> dom ?h" using sock_invD(4) [OF assms(1)] d by blast
  ultimately show ?thesis using assms by (simp add: sock_inv_def Handle_upgraded_def del: dom_fun_upd)
qed

text \<open>A client's own \<open>register\<close> or \<open>deregister\<close> settles where its reader now is.\<close>

lemma inv_send:
  assumes "sock_inv s" and "send action_cap \<lparr>act_Action = kind, act_Client = p\<rparr> (nt_action (so_notifier s)) = Some q"
    and "kind = ''register'' \<and> r = Reading \<or> kind = ''deregister'' \<and> r = Gone" and "so_reader s p \<noteq> NoConn"
  shows "sock_inv (s\<lparr>so_notifier := (so_notifier s)\<lparr>nt_action := q\<rparr>, so_writer := w, so_reader := (so_reader s)(p := r)\<rparr>)"
proof -
  let ?a = "\<lparr>act_Action = kind, act_Client = p\<rparr>"
  have q: "length (nt_action (so_notifier s)) < action_cap" "q = nt_action (so_notifier s) @ [?a]"
    using assms(2) by (simp_all add: send_Some)
  have a: "action_ok (so_heap s) ?a" using assms(1,3,4) by (auto simp: action_ok_def sock_inv_def)
  have "settled x ((so_notifier s)\<lparr>nt_action := q\<rparr>) \<longleftrightarrow> settle x ?a (settled x (so_notifier s))" for x
    by (rule settled_send) (simp_all add: q(2))
  moreover have "settle x ?a b = (if x = p then r = Reading else b)" for x b
    using assms(3) by (auto simp: settle_def)
  ultimately have "settled x ((so_notifier s)\<lparr>nt_action := q\<rparr>) \<longleftrightarrow>
      ((so_reader s)(p := r)) x = Reading \<or> ((so_reader s)(p := r)) x = Leaving" for x
    using sock_invD(2) [OF assms(1), of x] assms(3) by auto
  moreover have "((so_reader s)(p := r)) x = NoConn \<longleftrightarrow> so_heap s x = None" for x
    using sock_invD(1) [OF assms(1)] assms(3,4) by auto
  moreover have "\<forall>b \<in> set q. action_ok (so_heap s) b" using assms(1) a q(2) by (simp add: sock_inv_def)
  moreover have "\<lparr>act_Action = ''deregister'', act_Client = x\<rparr> \<in> set q"
    if "((so_reader s)(p := r)) x = Gone" "so_heap s x = Some c" "ws_open c" for x c
    using that sock_invD(9) [OF assms(1), of x c] assms(3) q(2) by (auto split: if_splits)
  ultimately show ?thesis using assms(1) q by (simp add: sock_inv_def del: fun_upd_apply)
qed

text \<open>Wakeups and writes change a client and never reopen a connection.\<close>

lemma inv_client:
  assumes "sock_inv s" and "so_heap s p = Some c" and "client_ok c'" and "ws_open c' \<longrightarrow> ws_open c"
    and "so_poll s = Waking ps" and "set ps' \<subseteq> set ps"
  shows "sock_inv (s\<lparr>so_poll := Waking ps', so_heap := (so_heap s)(p \<mapsto> c'), so_writer := w\<rparr>)"
proof -
  let ?h = "(so_heap s)(p \<mapsto> c')"
  have d: "dom ?h = dom (so_heap s)" using assms(2) by auto
  then have "\<forall>a \<in> set (nt_action (so_notifier s)). action_ok ?h a"
    using assms(1) action_ok_mono [of "so_heap s"] by (simp add: sock_inv_def)
  moreover have "\<forall>c \<in> ran ?h. client_ok c" using assms by (auto simp: sock_inv_def ran_def)
  moreover have "?h x = None \<longleftrightarrow> so_heap s x = None" for x using assms(2) by simp
  moreover have "\<lparr>act_Action = ''deregister'', act_Client = x\<rparr> \<in> set (nt_action (so_notifier s))"
    if "so_reader s x = Gone" "?h x = Some b" "ws_open b" for x b
    using that assms(2,4) sock_invD(9) [OF assms(1), of x] by (cases "x = p") auto
  moreover have "set ps' \<subseteq> dom ?h" using sock_invD(4) [OF assms(1)] assms(5,6) d by auto
  ultimately show ?thesis using assms(1) d by (simp add: sock_inv_def del: dom_fun_upd fun_upd_apply)
qed

lemma inv_write:
  assumes "sock_inv s" and "so_heap s p = Some c" and "client_ok (fst r)" and "ws_open (fst r) \<longrightarrow> ws_open c"
  shows "sock_inv (write_result p r s)"
proof -
  obtain ps where ps: "so_poll s = Waking ps" using sock_invD(4) [OF assms(1)] by blast
  then have "s\<lparr>so_poll := Waking ps\<rparr> = s" by (cases s) simp
  then show ?thesis using inv_client [OF assms ps order_refl, of "(so_writer s)(p := snd r)"]
    by (simp add: write_result_def)
qed

lemma write_never_opens:
  "writePump_wakeup ok c = Some r \<Longrightarrow> ws_open (fst r) \<longrightarrow> ws_open c"
  "ws_open (fst (writePump_tick ok c)) \<longrightarrow> ws_open c"
  by (auto simp: writePump_wakeup_def writePump_tick_def split: list.splits if_splits)

text \<open>\<open>Poll\<close> takes an action: it never panics, and serves exactly the first one.\<close>

lemma Poll_action_ok:
  assumes "action_ok h a" and "dom clients \<subseteq> dom h" and "\<forall>c \<in> ran h. client_ok c" and "set order = dom clients"
  obtains clients' h' ps where "Poll_action order a (clients, h) = Inr (clients', h', ps)"
    and "dom h' = dom h" and "\<forall>c \<in> ran h'. client_ok c" and "dom clients' \<subseteq> dom h'"
    and "\<And>p. p \<in> dom clients' \<longleftrightarrow> settle p a (p \<in> dom clients)"
    and "ps = (if act_Action a = ''broadcast'' then order else [])"
    and "\<And>p c'. h' p = Some c' \<Longrightarrow> ws_open c' \<Longrightarrow> h p = Some c' \<and> \<not> (act_Action a = ''deregister'' \<and> act_Client a = p)"
    and "\<And>p. act_Action a = ''broadcast'' \<Longrightarrow> h' p = h p"
    and "\<And>p c. h p = Some c \<Longrightarrow> \<exists>c'. h' p = Some c' \<and> ws_wakeup c' = ws_wakeup c \<and> ws_sent c' = ws_sent c \<and> (ws_open c' \<longrightarrow> ws_open c)"
proof -
  consider "act_Action a = ''broadcast''" | "act_Action a = ''register''" "h (act_Client a) \<noteq> None"
    | c where "act_Action a = ''deregister''" "h (act_Client a) = Some c" "client_ok c"
    using assms(1,3) by (auto simp: action_ok_def ranI)
  then show thesis
  proof cases
    case 1
    then show thesis using assms by (intro that [of clients h order]) (auto simp: Poll_action_def settle_frame)
  next
    case 2
    then show thesis using assms(2,3)
      by (intro that [of "clients(act_Client a \<mapsto> True)" h "[]"]) (auto simp: Poll_action_def settle_def)
  next
    case 3
    let ?h = "h(act_Client a \<mapsto> c\<lparr>ws_open := False\<rparr>)"
    have "\<forall>x \<in> ran ?h. client_ok x"
      using assms(3) 3(3) by (auto simp: ran_def client_ok_def)
    then show thesis using assms(2) 3
      by (intro that [of "clients(act_Client a := None)" ?h "[]"])
        (auto simp: Poll_action_def SockClient_Close_def settle_def split: if_splits)
  qed
qed

lemma Poll_take_ok:
  assumes "sock_inv s" and "so_poll s = Waking []" and "nt_action (so_notifier s) = a # rest"
    and "set order = dom (nt_clients (so_notifier s))"
  obtains clients' h' ps where
    "Poll_take order s = Some (s\<lparr>so_notifier := \<lparr>nt_clients = clients', nt_action = rest\<rparr>, so_poll := Waking ps, so_heap := h'\<rparr>)"
    and "sock_inv (s\<lparr>so_notifier := \<lparr>nt_clients = clients', nt_action = rest\<rparr>, so_poll := Waking ps, so_heap := h'\<rparr>)"
    and "\<And>p. p \<in> dom clients' \<longleftrightarrow> settle p a (p \<in> dom (nt_clients (so_notifier s)))"
    and "ps = (if act_Action a = ''broadcast'' then order else [])"
    and "dom h' = dom (so_heap s)"
    and "\<And>p c. so_heap s p = Some c \<Longrightarrow>
      \<exists>c'. h' p = Some c' \<and> ws_wakeup c' = ws_wakeup c \<and> ws_sent c' = ws_sent c \<and> (ws_open c' \<longrightarrow> ws_open c)"
proof -
  let ?n = "so_notifier s"
  have i: "action_ok (so_heap s) a" "dom (nt_clients ?n) \<subseteq> dom (so_heap s)" "\<forall>c \<in> ran (so_heap s). client_ok c"
    using assms(1,3) by (simp_all add: sock_inv_def)
  obtain clients' h' ps where r: "Poll_action order a (nt_clients ?n, so_heap s) = Inr (clients', h', ps)"
    "dom h' = dom (so_heap s)" "\<forall>c \<in> ran h'. client_ok c" "dom clients' \<subseteq> dom h'"
    and settle: "\<And>p. p \<in> dom clients' \<longleftrightarrow> settle p a (p \<in> dom (nt_clients ?n))"
    and ps: "ps = (if act_Action a = ''broadcast'' then order else [])"
    and shut: "\<And>p c'. h' p = Some c' \<Longrightarrow> ws_open c' \<Longrightarrow>
      so_heap s p = Some c' \<and> \<not> (act_Action a = ''deregister'' \<and> act_Client a = p)"
    and same: "\<And>p c. so_heap s p = Some c \<Longrightarrow>
      \<exists>c'. h' p = Some c' \<and> ws_wakeup c' = ws_wakeup c \<and> ws_sent c' = ws_sent c \<and> (ws_open c' \<longrightarrow> ws_open c)"
    by (rule Poll_action_ok [OF i assms(4)]) blast
  let ?s = "s\<lparr>so_notifier := \<lparr>nt_clients = clients', nt_action = rest\<rparr>, so_poll := Waking ps, so_heap := h'\<rparr>"
  have step: "Poll_take order s = Some ?s" using assms(2,3) r(1) by (simp add: Poll_take_def)
  have none: "h' p = None \<longleftrightarrow> so_heap s p = None" for p using r(2) by blast
  have "settled p (so_notifier ?s) = settled p ?n" for p
    using assms(3) settle [of p] by (simp add: settled_def)
  moreover have "action_ok h' b = action_ok (so_heap s) b" for b by (simp add: action_ok_def none)
  moreover have "set ps \<subseteq> dom h'" using ps assms(4) i(2) r(2) by (auto simp del: domIff)
  moreover have "\<lparr>act_Action = ''deregister'', act_Client = p\<rparr> \<in> set rest"
    if "so_reader s p = Gone" "h' p = Some c" "ws_open c" for p c
    using shut [OF that(2,3)] sock_invD(9) [OF assms(1) that(1) _ that(3)] assms(3) by auto
  ultimately have "sock_inv ?s" using assms(1,3) r none by (simp add: sock_inv_def)
  then show thesis by (rule that [OF step _ settle ps r(2) same])
qed

lemma Poll_wake_ok:
  assumes "sock_inv s" and "so_poll s = Waking (p # ps)"
  obtains c where "so_heap s p = Some c"
    and "Poll_wake s = Some (s\<lparr>so_poll := Waking ps, so_heap := (so_heap s)(p \<mapsto> wake c)\<rparr>)"
    and "sock_inv (s\<lparr>so_poll := Waking ps, so_heap := (so_heap s)(p \<mapsto> wake c)\<rparr>)"
proof -
  obtain c where c: "so_heap s p = Some c" using sock_invD(4) [OF assms(1)] assms(2) by auto
  have ok: "client_ok c" by (rule sock_invD(3) [OF assms(1) c])
  then have "Wakeup p (so_heap s) = Inr ((so_heap s)(p \<mapsto> wake c))" using c by (simp add: Wakeup_def client_ok_def)
  then have "Poll_wake s = Some (s\<lparr>so_poll := Waking ps, so_heap := (so_heap s)(p \<mapsto> wake c)\<rparr>)"
    using assms(2) by (simp add: Poll_wake_def)
  moreover have "sock_inv (s\<lparr>so_poll := Waking ps, so_heap := (so_heap s)(p \<mapsto> wake c), so_writer := so_writer s\<rparr>)"
    by (rule inv_client [OF assms(1) c client_ok_wake [OF ok] _ assms(2)]) (auto simp: wake_def)
  ultimately show thesis using c by (intro that) simp_all
qed

lemma takeE:
  assumes "sock_step Took s s'"
  obtains order a rest where "set order = dom (nt_clients (so_notifier s))" and "distinct order"
    and "so_poll s = Waking []" and "nt_action (so_notifier s) = a # rest" and "Poll_take order s = Some s'"
proof -
  obtain order where "distinct order" "set order = dom (nt_clients (so_notifier s))" "Poll_take order s = Some s'"
    using assms by (rule took_stepE)
  then show thesis using that
    by (auto simp: Poll_take_def split: poll_at.splits list.splits)
qed

lemma wakeE:
  assumes "sock_step Woke s s'"
  obtains p ps where "so_poll s = Waking (p # ps)" and "Poll_wake s = Some s'"
  using assms by (rule woke_stepE) (auto simp: Poll_wake_def split: poll_at.splits list.splits)

lemma inv_took: "sock_step Took s s' \<Longrightarrow> sock_inv s \<Longrightarrow> sock_inv s'"
  by (elim takeE) (metis Poll_take_ok option.inject)

lemma inv_woke: "sock_step Woke s s' \<Longrightarrow> sock_inv s \<Longrightarrow> sock_inv s'"
  by (elim wakeE) (metis Poll_wake_ok option.inject)

lemma inv_step: "sock_step e s s' \<Longrightarrow> sock_inv s \<Longrightarrow> sock_inv s'"
proof (induction rule: sock_step.induct)
  case (register s p s')
  then show ?case using inv_send [where r = Reading] by (auto simp: Handle_register_def Notifier_Register_def)
next
  case (deregister s p s')
  then show ?case
    using inv_send [where r = Gone and w = "so_writer s" and s = s] by (auto simp: readPump_deferred_def Deregister_def)
next
  case (wakeup s p c ok r)
  have "client_ok c" by (rule sock_invD(3) [OF wakeup.prems wakeup.hyps(2)])
  then show ?case
    using inv_write [OF wakeup.prems wakeup.hyps(2)] client_ok_write(1) write_never_opens(1) wakeup.hyps(4) by blast
next
  case (tick s p c ok)
  have "client_ok c" by (rule sock_invD(3) [OF tick.prems tick.hyps(2)])
  then show ?case using inv_write [OF tick.prems tick.hyps(2)] client_ok_write(2) write_never_opens(2) by blast
next
  case (read_error s p)
  then have "so_heap s p \<noteq> None" using sock_invD(1) [of s p] by simp
  then show ?case using read_error by (auto simp: sock_inv_def)
next
  case (take order s s')
  then show ?case using inv_took sock_step.take by blast
next
  case (wake s s')
  then show ?case using inv_woke sock_step.wake by blast
qed (simp_all add: inv_broadcast inv_upgrade)

lemma inv_run: "sock_run s es t \<Longrightarrow> sock_inv s \<Longrightarrow> sock_inv t"
  by (induction rule: sock_run.induct) (auto intro: inv_step)

section \<open>Serving the queue\<close>

text \<open>Other steps only append to the queue and leave what \<open>Poll\<close> is doing and the registered clients alone.\<close>

lemma other_step_queue:
  assumes "sock_step Other s s'"
  shows "nt_clients (so_notifier s') = nt_clients (so_notifier s) \<and> so_poll s' = so_poll s \<and>
         (\<exists>xs. nt_action (so_notifier s') = nt_action (so_notifier s) @ xs)"
  using assms
  by (cases rule: other_stepE)
    (auto simp: Broadcast_def offer_def Handle_upgraded_def Handle_register_def Notifier_Register_def
      readPump_deferred_def Deregister_def send_Some write_result_def)

lemma woke_step_queue:
  assumes "sock_step Woke s s'" and "sock_inv s"
  obtains p ps c where "so_poll s = Waking (p # ps)" and "so_heap s p = Some c"
    and "s' = s\<lparr>so_poll := Waking ps, so_heap := (so_heap s)(p \<mapsto> wake c)\<rparr>"
proof -
  obtain p ps where w: "so_poll s = Waking (p # ps)" "Poll_wake s = Some s'" using assms(1) by (rule wakeE)
  show thesis by (rule Poll_wake_ok [OF assms(2) w(1)]) (use w that in simp)
qed

lemma took_step_queue:
  assumes "sock_step Took s s'" and "sock_inv s"
  obtains a rest order where "so_poll s = Waking []" and "nt_action (so_notifier s) = a # rest"
    and "nt_action (so_notifier s') = rest"
    and "\<And>p. p \<in> dom (nt_clients (so_notifier s')) \<longleftrightarrow> settle p a (p \<in> dom (nt_clients (so_notifier s)))"
    and "distinct order" and "set order = dom (nt_clients (so_notifier s))"
    and "so_poll s' = Waking (if act_Action a = ''broadcast'' then order else [])"
    and "dom (so_heap s') = dom (so_heap s)"
    and "\<And>p c. so_heap s p = Some c \<Longrightarrow>
      \<exists>c'. so_heap s' p = Some c' \<and> ws_wakeup c' = ws_wakeup c \<and> ws_sent c' = ws_sent c \<and> (ws_open c' \<longrightarrow> ws_open c)"
proof -
  obtain order a rest where o: "set order = dom (nt_clients (so_notifier s))" "distinct order" "so_poll s = Waking []"
    "nt_action (so_notifier s) = a # rest" "Poll_take order s = Some s'" using assms(1) by (rule takeE)
  obtain clients' h' ps where r:
    "Poll_take order s = Some (s\<lparr>so_notifier := \<lparr>nt_clients = clients', nt_action = rest\<rparr>, so_poll := Waking ps, so_heap := h'\<rparr>)"
    "\<And>p. p \<in> dom clients' \<longleftrightarrow> settle p a (p \<in> dom (nt_clients (so_notifier s)))"
    "ps = (if act_Action a = ''broadcast'' then order else [])" "dom h' = dom (so_heap s)"
    "\<And>p c. so_heap s p = Some c \<Longrightarrow>
      \<exists>c'. h' p = Some c' \<and> ws_wakeup c' = ws_wakeup c \<and> ws_sent c' = ws_sent c \<and> (ws_open c' \<longrightarrow> ws_open c)"
    by (rule Poll_take_ok [OF assms(2) o(3,4,1)]) blast
  have s': "s' = s\<lparr>so_notifier := \<lparr>nt_clients = clients', nt_action = rest\<rparr>, so_poll := Waking ps, so_heap := h'\<rparr>"
    using r(1) o(5) by simp
  show thesis by (rule that [OF o(3,4) _ _ o(2,1)]) (use s' r(2-5) in \<open>simp_all del: domIff\<close>)
qed

text \<open>After \<open>Poll\<close> took \<open>k\<close> actions, the first \<open>k\<close> have been served, in order, and nothing else.\<close>

lemma run_queue:
  assumes "sock_run s es t" and "sock_inv s" and "count_list es Took \<le> length (nt_action (so_notifier s))"
  shows "(\<exists>xs. nt_action (so_notifier t) = drop (count_list es Took) (nt_action (so_notifier s)) @ xs) \<and>
    (\<forall>p. p \<in> dom (nt_clients (so_notifier t)) \<longleftrightarrow>
       fold (settle p) (take (count_list es Took) (nt_action (so_notifier s))) (p \<in> dom (nt_clients (so_notifier s))))"
  using assms
proof (induction rule: sock_run.induct)
  case (more s es t e u)
  let ?q = "nt_action (so_notifier s)" and ?k = "count_list es Took"
  have inv: "sock_inv t" using inv_run [OF more.hyps(1) more.prems(1)] .
  obtain xs where xs: "nt_action (so_notifier t) = drop ?k ?q @ xs"
    and cl: "\<And>p. p \<in> dom (nt_clients (so_notifier t)) \<longleftrightarrow> fold (settle p) (take ?k ?q) (p \<in> dom (nt_clients (so_notifier s)))"
    using more.IH more.prems by (auto simp del: domIff)
  show ?case
  proof (cases e)
    case Took
    then have k: "?k < length ?q" using more.prems(2) by simp
    then have d: "drop ?k ?q = ?q ! ?k # drop (Suc ?k) ?q" by (simp add: Cons_nth_drop_Suc)
    have "sock_step Took t u" using more.hyps(2) Took by simp
    then obtain a rest where a: "nt_action (so_notifier t) = a # rest" "nt_action (so_notifier u) = rest"
      and dom: "\<And>p. p \<in> dom (nt_clients (so_notifier u)) \<longleftrightarrow> settle p a (p \<in> dom (nt_clients (so_notifier t)))"
      by (rule took_step_queue [OF _ inv]) blast
    have "a = ?q ! ?k" "rest = drop (Suc ?k) ?q @ xs" using a(1) xs d by simp_all
    then show ?thesis using a(2) dom cl k Took by (simp add: take_Suc_conv_app_nth del: domIff)
  next
    case Woke
    then have "sock_step Woke t u" using more.hyps(2) by simp
    then have "so_notifier u = so_notifier t" by (rule woke_step_queue [OF _ inv]) simp
    then show ?thesis using xs cl Woke by (simp del: domIff)
  next
    case Other
    then have "sock_step Other t u" using more.hyps(2) by simp
    from other_step_queue [OF this] obtain ys where "nt_clients (so_notifier u) = nt_clients (so_notifier t)"
      "nt_action (so_notifier u) = nt_action (so_notifier t) @ ys" by blast
    then show ?thesis using xs cl Other by (simp del: domIff)
  qed
qed simp

section \<open>A pending wakeup\<close>

text \<open>
  A client only ever gets more messages, never reopens, and loses a pending wakeup only to a
  message or to its end.
\<close>

abbreviation wakeups_sent :: "SockClient \<Rightarrow> nat" where
  "wakeups_sent c \<equiv> count_list (ws_sent c) (Text ''wakeup'')"

definition woken :: "nat \<Rightarrow> SockClient \<Rightarrow> bool" where
  "woken k c \<longleftrightarrow> ws_wakeup c \<noteq> [] \<or> k < wakeups_sent c \<or> \<not> ws_open c"

definition later :: "SockClient \<Rightarrow> SockClient \<Rightarrow> bool" where
  "later c c' \<longleftrightarrow> wakeups_sent c \<le> wakeups_sent c' \<and> (\<forall>k. k \<le> wakeups_sent c \<longrightarrow> woken k c \<longrightarrow> woken k c')"

lemma later_refl: "later c c"
  by (simp add: later_def)

lemma later_wake: "later c (wake c)" "woken k (wake c)"
  using wakeups.put_nonempty [of c] by (simp_all add: later_def woken_def) (simp add: wake_def)

lemma later_write:
  "writePump_wakeup ok c = Some r \<Longrightarrow> later c (fst r)"
  "later c (fst (writePump_tick ok c))"
  by (auto simp: later_def woken_def writePump_wakeup_def writePump_tick_def split: list.splits if_splits)

lemma other_step_client:
  assumes "sock_step Other s s'" and "sock_inv s" and "so_heap s p = Some c"
  shows "\<exists>c'. so_heap s' p = Some c' \<and> later c c'"
  using assms(1)
proof (cases rule: sock_step.cases)
  case (upgrade q)
  then have "p \<noteq> q" using sock_invD(1) [OF assms(2), of q] assms(3) by auto
  then show ?thesis using upgrade assms(3) later_refl by (simp add: Handle_upgraded_def)
next
  case (wakeup q c' ok r)
  then show ?thesis using assms(3) later_write(1) later_refl by (cases "q = p") (auto simp: write_result_def)
next
  case (tick q c' ok)
  then show ?thesis using assms(3) later_write(2) later_refl by (cases "q = p") (auto simp: write_result_def)
qed (use assms(3) later_refl in \<open>auto simp: Handle_register_def Notifier_Register_def readPump_deferred_def Deregister_def\<close>)

lemma woken_later: "woken k c \<Longrightarrow> k \<le> wakeups_sent c \<Longrightarrow> later c c' \<Longrightarrow> woken k c'"
  by (simp add: later_def)

lemma later_sent: "later c c' \<Longrightarrow> k \<le> wakeups_sent c \<Longrightarrow> k \<le> wakeups_sent c'"
  by (simp add: later_def)

text \<open>
  One step after a broadcast that is the action number \<open>n\<close> of the queue: \<open>j\<close> actions have been taken so far.
\<close>

definition serving :: "nat \<Rightarrow> nat \<Rightarrow> client_ptr \<Rightarrow> nat \<Rightarrow> Sockets \<Rightarrow> bool" where
  "serving n k p j t \<longleftrightarrow>
     (\<exists>c. so_heap t p = Some c \<and> k \<le> wakeups_sent c \<and>
        (n < j \<longrightarrow> woken k c \<or> (j = Suc n \<and> (\<exists>ps. so_poll t = Waking ps \<and> p \<in> set ps))))"

lemma serving_step:
  assumes "serving n k p j t" and "sock_inv t" and "sock_step e t u"
    and "j = n \<Longrightarrow> act_Action (hd (nt_action (so_notifier t))) = ''broadcast'' \<and> p \<in> dom (nt_clients (so_notifier t))"
  shows "serving n k p (if e = Took then Suc j else j) u"
proof -
  obtain c where c: "so_heap t p = Some c" "k \<le> wakeups_sent c"
    and w: "n < j \<Longrightarrow> woken k c \<or> (j = Suc n \<and> (\<exists>ps. so_poll t = Waking ps \<and> p \<in> set ps))"
    using assms(1) by (auto simp: serving_def)
  show ?thesis
  proof (cases e)
    case Other
    then have s: "sock_step Other t u" using assms(3) by simp
    obtain c' where "so_heap u p = Some c'" "later c c'" using other_step_client [OF s assms(2) c(1)] by blast
    moreover have "so_poll u = so_poll t" using other_step_queue [OF s] by simp
    ultimately show ?thesis using Other w c(2) woken_later later_sent by (auto simp: serving_def)
  next
    case Woke
    then have s: "sock_step Woke t u" using assms(3) by simp
    obtain q ps d where q: "so_poll t = Waking (q # ps)" "so_heap t q = Some d"
      "u = t\<lparr>so_poll := Waking ps, so_heap := (so_heap t)(q \<mapsto> wake d)\<rparr>" using s by (rule woke_step_queue [OF _ assms(2)])
    show ?thesis
    proof (cases "q = p")
      case True
      then have "so_heap u p = Some (wake c)" using q c(1) by simp
      then show ?thesis using later_sent [OF later_wake(1) c(2)] later_wake(2) Woke by (simp add: serving_def)
    next
      case False
      then show ?thesis using q c w Woke by (auto simp: serving_def)
    qed
  next
    case Took
    then have s: "sock_step Took t u" using assms(3) by simp
    obtain a rest order where a: "so_poll t = Waking []" "nt_action (so_notifier t) = a # rest"
      "set order = dom (nt_clients (so_notifier t))"
      "so_poll u = Waking (if act_Action a = ''broadcast'' then order else [])"
      and h: "\<And>p c. so_heap t p = Some c \<Longrightarrow>
        \<exists>c'. so_heap u p = Some c' \<and> ws_wakeup c' = ws_wakeup c \<and> ws_sent c' = ws_sent c \<and> (ws_open c' \<longrightarrow> ws_open c)"
      using s by (rule took_step_queue [OF _ assms(2)]) blast
    obtain c' where c': "so_heap u p = Some c'" "wakeups_sent c' = wakeups_sent c" "woken k c \<longrightarrow> woken k c'"
      using h [OF c(1)] by (auto simp: woken_def)
    have "n < Suc j \<Longrightarrow> woken k c' \<or> (j = n \<and> (\<exists>ps. so_poll u = Waking ps \<and> p \<in> set ps))"
      using w a c'(3) assms(4) by (cases "j = n") auto
    then show ?thesis using Took c' c(2) by (auto simp: serving_def)
  qed
qed

lemma serving_run:
  assumes "sock_run s es t" and "sock_inv s" and "nt_action (so_notifier s) = q @ [broadcast_action]"
    and "fold (settle p) q (p \<in> dom (nt_clients (so_notifier s)))" and "so_heap s p = Some c"
  shows "serving (length q) (wakeups_sent c) p (count_list es Took) t"
  using assms
proof (induction rule: sock_run.induct)
  case (start s)
  then show ?case by (simp add: serving_def)
next
  case (more s es t e u)
  have "act_Action (hd (nt_action (so_notifier t))) = ''broadcast'' \<and> p \<in> dom (nt_clients (so_notifier t))"
    if "count_list es Took = length q"
  proof -
    have "(\<exists>xs. nt_action (so_notifier t) = [broadcast_action] @ xs) \<and> p \<in> dom (nt_clients (so_notifier t))"
      using run_queue [OF more.hyps(1) more.prems(1)] that more.prems(2,3) by (simp del: domIff)
    then show ?thesis by auto
  qed
  from serving_step [OF more.IH [OF more.prems] inv_run [OF more.hyps(1) more.prems(1)] more.hyps(2) this]
  show ?case by (auto split: if_splits)
qed

section \<open>Progress of \<open>Poll\<close>\<close>

definition to_wake :: "Sockets \<Rightarrow> client_ptr list" where
  "to_wake s = (case so_poll s of Waking ps \<Rightarrow> ps | Panicked _ \<Rightarrow> [])"

definition poll_work :: "Sockets \<Rightarrow> nat" where
  "poll_work s = length (nt_action (so_notifier s)) * Suc (card (dom (so_heap s))) + length (to_wake s)"

lemma poll_enabled:
  assumes "sock_inv s" and "so_poll s \<noteq> Waking [] \<or> nt_action (so_notifier s) \<noteq> []"
  shows "\<exists>e s'. e \<noteq> Other \<and> sock_step e s s'"
proof -
  obtain ps where ps: "so_poll s = Waking ps" using sock_invD(4) [OF assms(1)] by blast
  show ?thesis
  proof (cases ps)
    case Nil
    then obtain a rest where q: "nt_action (so_notifier s) = a # rest"
      using assms(2) ps by (cases "nt_action (so_notifier s)") simp_all
    have "finite (dom (nt_clients (so_notifier s)))"
      by (rule finite_subset [OF sock_invD(5,6) [OF assms(1)]])
    then obtain order where o: "distinct order" "set order = dom (nt_clients (so_notifier s))"
      using finite_distinct_list by metis
    have "so_poll s = Waking []" using ps Nil by simp
    then have "\<exists>s'. Poll_take order s = Some s'" by (rule Poll_take_ok [OF assms(1) _ q o(2)]) blast
    then show ?thesis using sock_step.take [OF o] by blast
  next
    case (Cons p ps')
    then have "so_poll s = Waking (p # ps')" using ps by simp
    then have "\<exists>s'. Poll_wake s = Some s'" by (rule Poll_wake_ok [OF assms(1)]) blast
    then show ?thesis using sock_step.wake by blast
  qed
qed

lemma poll_work_decreases:
  assumes "sock_inv s" and "sock_step e s s'" and "e \<noteq> Other"
  shows "poll_work s' < poll_work s"
proof (cases e)
  case Took
  then have "sock_step Took s s'" using assms(2) by simp
  then obtain a rest order where a: "so_poll s = Waking []" "nt_action (so_notifier s) = a # rest" "nt_action (so_notifier s') = rest"
    "distinct order" "set order = dom (nt_clients (so_notifier s))"
    "so_poll s' = Waking (if act_Action a = ''broadcast'' then order else [])" "dom (so_heap s') = dom (so_heap s)"
    by (rule took_step_queue [OF _ assms(1)]) blast
  have "length order = card (dom (nt_clients (so_notifier s)))" using distinct_card [OF a(4)] a(5) by simp
  also have "\<dots> \<le> card (dom (so_heap s))" by (rule card_mono [OF sock_invD(6,5) [OF assms(1)]])
  finally show ?thesis using a by (simp add: poll_work_def to_wake_def)
next
  case Woke
  then have "sock_step Woke s s'" using assms(2) by simp
  then obtain p ps c where w: "so_poll s = Waking (p # ps)" "so_heap s p = Some c"
    "s' = s\<lparr>so_poll := Waking ps, so_heap := (so_heap s)(p \<mapsto> wake c)\<rparr>" by (rule woke_step_queue [OF _ assms(1)])
  have "dom ((so_heap s)(p \<mapsto> wake c)) = dom (so_heap s)" using w(2) by auto
  then show ?thesis using w(1,3) by (simp add: poll_work_def to_wake_def del: dom_fun_upd)
qed (use assms(3) in simp)

lemma poll_run_bounded:
  assumes "sock_run s es t" and "sock_inv s" and "Other \<notin> set es"
  shows "length es + poll_work t \<le> poll_work s"
  using assms
proof (induction rule: sock_run.induct)
  case (more s es t e u)
  have "poll_work u < poll_work t"
    by (rule poll_work_decreases [OF inv_run [OF more.hyps(1) more.prems(1)] more.hyps(2)]) (use more.prems(2) in auto)
  then show ?case using more.IH more.prems by simp
qed simp

section \<open>An example\<close>

text \<open>One browser has connected and \<open>Poll\<close> has registered it; then a broadcast is queued, and served.\<close>

definition ex_polled :: Sockets where
  "ex_polled = \<lparr>so_notifier = \<lparr>nt_clients = [1 \<mapsto> True], nt_action = []\<rparr>, so_poll = Waking [], so_heap = [1 \<mapsto> new_client],
     so_reader = (\<lambda>p. NoConn)(1 := Reading), so_writer = (\<lambda>p. False)(1 := True)\<rparr>"

definition ex_cast :: Sockets where
  "ex_cast = ex_polled\<lparr>so_notifier := Broadcast (so_notifier ex_polled)\<rparr>"

definition ex_woken :: Sockets where
  "ex_woken = ex_polled\<lparr>so_heap := [1 \<mapsto> wake new_client]\<rparr>"

lemma ex_polled_now:
  "nt_action (so_notifier ex_polled) = []" "nt_clients (so_notifier ex_polled) = [1 \<mapsto> True]" "so_reader ex_polled 1 = Reading"
  by (simp_all add: ex_polled_def)

lemma ex_polled_run: "sock_run sock_init [Other, Other, Took] ex_polled"
proof -
  let ?s1 = "Handle_upgraded 1 sock_init" and ?a = "\<lparr>act_Action = ''register'', act_Client = 1\<rparr>"
  let ?s2 = "ex_polled\<lparr>so_notifier := \<lparr>nt_clients = Map.empty, nt_action = [?a]\<rparr>\<rparr>"
  have "sock_step Other sock_init ?s1" by (rule sock_step.upgrade) (simp_all add: sock_init_def)
  then have 1: "sock_run sock_init [Other] ?s1" using sock_run.more [OF sock_run.start] by fastforce
  have "Handle_register 1 ?s1 = Some ?s2"
    by (simp add: Handle_register_def Notifier_Register_def send_def action_cap_def Handle_upgraded_def sock_init_def
        NewNotifier_def ex_polled_def)
  then have "sock_step Other ?s1 ?s2" by (rule sock_step.register [rotated]) (simp add: Handle_upgraded_def)
  then have 2: "sock_run sock_init [Other, Other] ?s2" using sock_run.more [OF 1] by fastforce
  have "Poll_take [] ?s2 = Some ex_polled" by (simp add: Poll_take_def Poll_action_def ex_polled_def)
  then have "sock_step Took ?s2 ex_polled" by (rule sock_step.take [rotated 2]) simp_all
  then show ?thesis using sock_run.more [OF 2] by fastforce
qed

lemma ex_cast_run: "sock_run sock_init [Other, Other, Took, Other] ex_cast"
  using sock_run.more [OF ex_polled_run sock_step.broadcast] by (simp add: ex_cast_def)

lemma ex_cast_queue: "nt_action (so_notifier ex_cast) = [broadcast_action]" "so_poll ex_cast = Waking []"
  "dom (so_heap ex_cast) = {1}"
  by (simp_all add: ex_cast_def ex_polled_def Broadcast_def offer_def action_cap_def)

lemma ex_woken_run: "sock_run ex_cast [Took, Woke] ex_woken"
proof -
  let ?s = "ex_polled\<lparr>so_poll := Waking [1]\<rparr>"
  have "Poll_take [1] ex_cast = Some ?s"
    by (simp add: Poll_take_def Poll_action_def ex_cast_def ex_polled_def Broadcast_def offer_def action_cap_def)
  then have "sock_step Took ex_cast ?s"
    by (rule sock_step.take [rotated 2]) (simp_all add: ex_cast_def ex_polled_def Broadcast_def)
  then have 1: "sock_run ex_cast [Took] ?s" using sock_run.more [OF sock_run.start] by fastforce
  have "Poll_wake ?s = Some ex_woken"
    by (simp add: Poll_wake_def Wakeup_def ex_polled_def ex_woken_def new_client_def)
  then show ?thesis using sock_run.more [OF 1 sock_step.wake] by fastforce
qed

section \<open>Properties\<close>

text \<open>
  C27. A broadcast reaches every registered browser. Let a broadcast find room in the queue. Once
  \<open>Poll\<close> has taken it from the queue and has left its loop over the clients, then, however the goroutines
  interleaved, every client whose \<open>Register\<close> had completed and whose \<open>Deregister\<close> had not when the broadcast was
  made has a wakeup pending, or has been sent a \<open>wakeup\<close> message since, or its
  connection has been closed. A connection that \<open>Handle\<close> has not registered yet is not among them.
\<close>

theorem broadcast_reaches_clients:
  assumes "sock_run sock_init es s" and "length (nt_action (so_notifier s)) < action_cap"
    and "so_reader s p = Reading \<or> so_reader s p = Leaving"
    and "sock_run (s\<lparr>so_notifier := Broadcast (so_notifier s)\<rparr>) es' t"
    and "length (nt_action (so_notifier s)) < count_list es' Took"
    and "so_poll t = Waking [] \<or> Suc (length (nt_action (so_notifier s))) < count_list es' Took"
  shows "\<exists>c c'. so_heap s p = Some c \<and> so_heap t p = Some c' \<and>
    (ws_wakeup c' \<noteq> [] \<or>
     count_list (ws_sent c) (Text ''wakeup'') < count_list (ws_sent c') (Text ''wakeup'') \<or>
     \<not> ws_open c')"
proof -
  let ?q = "nt_action (so_notifier s)" and ?s = "s\<lparr>so_notifier := Broadcast (so_notifier s)\<rparr>"
  have inv: "sock_inv s" using inv_run [OF assms(1) inv_init] .
  obtain c where c: "so_heap s p = Some c" using sock_invD(1) [OF inv, of p] assms(3) by auto
  have q: "nt_action (so_notifier ?s) = ?q @ [broadcast_action]" using actions.put_room [OF assms(2)] by simp
  have "nt_clients (so_notifier ?s) = nt_clients (so_notifier s)" by (simp add: Broadcast_def)
  then have "fold (settle p) ?q (p \<in> dom (nt_clients (so_notifier ?s)))"
    using sock_invD(2) [OF inv, of p] assms(3) by (simp add: settled_def del: domIff)
  from serving_run [OF assms(4) inv_broadcast [OF inv] q this] c
  have "serving (length ?q) (wakeups_sent c) p (count_list es' Took) t" by simp
  then obtain c' where "so_heap t p = Some c'" "woken (wakeups_sent c) c'"
    using assms(5,6) by (auto simp: serving_def)
  then show ?thesis using c by (auto simp: woken_def)
qed

theorem broadcast_reaches_clients_witness:
  "sock_run ex_cast [Took, Woke] ex_woken \<and>
    (\<exists>c c'. so_heap ex_polled 1 = Some c \<and> so_heap ex_woken 1 = Some c' \<and>
      (ws_wakeup c' \<noteq> [] \<or>
       count_list (ws_sent c) (Text ''wakeup'') < count_list (ws_sent c') (Text ''wakeup'') \<or> \<not> ws_open c')) \<and>
    so_heap ex_woken 1 = Some (wake new_client) \<and> ws_open (wake new_client) \<and> ws_sent (wake new_client) = []"
proof (intro conjI)
  show "sock_run ex_cast [Took, Woke] ex_woken" by (rule ex_woken_run)
  show "\<exists>c c'. so_heap ex_polled 1 = Some c \<and> so_heap ex_woken 1 = Some c' \<and>
      (ws_wakeup c' \<noteq> [] \<or>
       count_list (ws_sent c) (Text ''wakeup'') < count_list (ws_sent c') (Text ''wakeup'') \<or> \<not> ws_open c')"
    by (rule broadcast_reaches_clients [OF ex_polled_run _ _ ex_woken_run [unfolded ex_cast_def]])
      (simp_all add: ex_polled_def ex_woken_def action_cap_def)
qed (simp_all add: ex_woken_def wake_def new_client_def)

text \<open>
  C28. The map of clients is exact. For a client with no action left in the queue, whatever the
  interleaving: it is registered exactly if its \<open>Register\<close> call has completed and its \<open>Deregister\<close> call, which
  \<open>readPump\<close> makes when it ends, has not. So nobody is forgotten, and after the end of \<open>readPump\<close> the client is
  gone from the map and its connection has been closed. A connection inside \<open>Handle\<close> is open and
  not yet registered, and one that the writer closed stays registered until its reader ends.
\<close>

theorem registered_clients_exact:
  assumes "sock_run sock_init es s" and "\<forall>a \<in> set (nt_action (so_notifier s)). act_Client a \<noteq> p"
  shows "(p \<in> dom (nt_clients (so_notifier s)) \<longleftrightarrow> so_reader s p = Reading \<or> so_reader s p = Leaving) \<and>
    (so_reader s p = Gone \<longrightarrow>
       p \<notin> dom (nt_clients (so_notifier s)) \<and> (\<exists>c. so_heap s p = Some c \<and> \<not> ws_open c))"
proof -
  have inv: "sock_inv s" using inv_run [OF assms(1) inv_init] .
  have "fold (settle p) as b = b" if "\<forall>a \<in> set as. act_Client a \<noteq> p" for as b
    using that by (induction as) (simp_all add: settle_def)
  then have reg: "p \<in> dom (nt_clients (so_notifier s)) \<longleftrightarrow> so_reader s p = Reading \<or> so_reader s p = Leaving"
    using sock_invD(2) [OF inv, of p] assms(2) by (simp add: settled_def del: domIff)
  have "\<exists>c. so_heap s p = Some c \<and> \<not> ws_open c" if gone: "so_reader s p = Gone"
  proof -
    obtain c where c: "so_heap s p = Some c" using sock_invD(1) [OF inv, of p] gone by auto
    have "\<not> ws_open c" using sock_invD(9) [OF inv gone c] assms(2) by fastforce
    then show ?thesis using c by blast
  qed
  then show ?thesis using reg by (simp del: domIff)
qed

theorem registered_clients_exact_witness:
  "1 \<in> dom (nt_clients (so_notifier ex_polled)) \<and> 2 \<notin> dom (nt_clients (so_notifier ex_polled))"
  using registered_clients_exact [OF ex_polled_run, of 1] registered_clients_exact [OF ex_polled_run, of 2]
  by (simp add: ex_polled_def)

text \<open>
  C29. \<open>Poll\<close> never stops serving. In every reachable state at most 64 actions are queued, \<open>Poll\<close> has not
  panicked, and while there is an action to take or a client to wake it can make a step. Whatever it
  does when it runs alone, in whatever order it visits the clients, it makes at most as many steps as the
  bound says and can only come to rest with an empty queue, without having panicked: so a
  blocked \<open>Register\<close> or \<open>Deregister\<close> finds room.
\<close>

theorem poll_drains_queue:
  assumes "sock_run sock_init es s"
  shows "length (nt_action (so_notifier s)) \<le> 64 \<and> (\<forall>e. so_poll s \<noteq> Panicked e) \<and>
    (so_poll s \<noteq> Waking [] \<or> nt_action (so_notifier s) \<noteq> [] \<longrightarrow> (\<exists>e s'. e \<noteq> Other \<and> sock_step e s s')) \<and>
    (\<forall>es' t. sock_run s es' t \<and> Other \<notin> set es' \<longrightarrow>
      length es' \<le> length (nt_action (so_notifier s)) * Suc (card (dom (so_heap s))) + length (to_wake s) \<and>
      (\<forall>e. so_poll t \<noteq> Panicked e) \<and>
      ((\<forall>e u. e \<noteq> Other \<longrightarrow> \<not> sock_step e t u) \<longrightarrow> nt_action (so_notifier t) = [] \<and> so_poll t = Waking []))"
proof (intro conjI)
  have inv: "sock_inv s" using inv_run [OF assms inv_init] .
  show "length (nt_action (so_notifier s)) \<le> 64" using sock_invD(7) [OF inv] by (simp add: action_cap_def)
  show "\<forall>e. so_poll s \<noteq> Panicked e" using sock_invD(4) [OF inv] by auto
  show "so_poll s \<noteq> Waking [] \<or> nt_action (so_notifier s) \<noteq> [] \<longrightarrow> (\<exists>e s'. e \<noteq> Other \<and> sock_step e s s')"
    using poll_enabled [OF inv] by blast
  show "\<forall>es' t. sock_run s es' t \<and> Other \<notin> set es' \<longrightarrow>
      length es' \<le> length (nt_action (so_notifier s)) * Suc (card (dom (so_heap s))) + length (to_wake s) \<and>
      (\<forall>e. so_poll t \<noteq> Panicked e) \<and>
      ((\<forall>e u. e \<noteq> Other \<longrightarrow> \<not> sock_step e t u) \<longrightarrow> nt_action (so_notifier t) = [] \<and> so_poll t = Waking [])"
  proof (intro allI impI, elim conjE, intro conjI)
    fix es' t assume run: "sock_run s es' t" "Other \<notin> set es'"
    have invt: "sock_inv t" by (rule inv_run [OF run(1) inv])
    show "length es' \<le> length (nt_action (so_notifier s)) * Suc (card (dom (so_heap s))) + length (to_wake s)"
      using poll_run_bounded [OF run(1) inv run(2)] by (simp add: poll_work_def)
    show "\<forall>e. so_poll t \<noteq> Panicked e" using sock_invD(4) [OF invt] by auto
    show "(\<forall>e u. e \<noteq> Other \<longrightarrow> \<not> sock_step e t u) \<longrightarrow> nt_action (so_notifier t) = [] \<and> so_poll t = Waking []"
      using poll_enabled [OF invt] by blast
  qed
qed

theorem poll_drains_queue_witness:
  "nt_action (so_notifier ex_cast) = [broadcast_action] \<and> (\<exists>e s'. e \<noteq> Other \<and> sock_step e ex_cast s') \<and>
    sock_run ex_cast [Took, Woke] ex_woken \<and>
    length [Took, Woke] \<le> length (nt_action (so_notifier ex_cast)) * Suc (card (dom (so_heap ex_cast))) + length (to_wake ex_cast) \<and>
    (\<nexists>e u. e \<noteq> Other \<and> sock_step e ex_woken u) \<and> nt_action (so_notifier ex_woken) = [] \<and> so_poll ex_woken = Waking []"
proof -
  note ok = poll_drains_queue [OF ex_cast_run]
  have "so_poll ex_cast \<noteq> Waking [] \<or> nt_action (so_notifier ex_cast) \<noteq> []" using ex_cast_queue(1) by simp
  then have step: "\<exists>e s'. e \<noteq> Other \<and> sock_step e ex_cast s'" using ok by blast
  have rest: "\<not> (e \<noteq> Other \<and> sock_step e ex_woken u)" for e u
    by (cases e) (auto elim!: takeE wakeE simp: ex_woken_def ex_polled_def)
  have "sock_run ex_cast [Took, Woke] ex_woken \<and> Other \<notin> set [Took, Woke]" using ex_woken_run by simp
  with ok have "length [Took, Woke] \<le> length (nt_action (so_notifier ex_cast)) * Suc (card (dom (so_heap ex_cast))) + length (to_wake ex_cast)"
    "(\<forall>e u. e \<noteq> Other \<longrightarrow> \<not> sock_step e ex_woken u) \<longrightarrow> nt_action (so_notifier ex_woken) = [] \<and> so_poll ex_woken = Waking []"
    by blast+
  then show ?thesis using ex_cast_queue(1) step ex_woken_run rest by blast
qed

end
