(* ===== verification/Lifecycle.thy ===== *)
theory Lifecycle
  imports AdminRoutes
begin

text \<open>
  Start and stop of the services: \<open>RunInterruptible\<close> of \<open>pkg/core/utilities.go\<close> with the \<open>Serve\<close> methods of the
  admin server, the relay and the proxy. A service is described by what its \<open>Serve\<close> waits for: \<open>serve_exit\<close> is what it
  returns now, \<open>None\<close> while it blocks. \<open>sup_step\<close> interleaves them with the interrupt signal. The time
  \<open>http.Server.Shutdown\<close> needs for open requests is not modelled. A \<open>Relay\<close> whose circuit service cannot be created panics
  before it serves.
\<close>

section \<open>Serve\<close>

text \<open>An HTTP listener: up, or \<open>ListenAndServe\<close> has returned an error other than \<open>ErrServerClosed\<close>.\<close>

datatype listener = Up | Down goerr

datatype service =
    AdminService listener
  | RelayService
  | ProxyService listener "goerr option"   \<comment> \<open>with the error of its \<open>Shutdown\<close>\<close>

text \<open>\<open>Server.Serve\<close>: the context or the listener, whichever comes first.\<close>

definition Server_Serve :: "bool \<Rightarrow> listener \<Rightarrow> goerr option option" where
  "Server_Serve done l =
     (case l of
        Down e \<Rightarrow> Some (Some e)
      | Up \<Rightarrow> if done then Some None else None)"

definition Server_Close :: "('db \<Rightarrow> goerr option) \<Rightarrow> 'db Server \<Rightarrow> goerr option \<times> 'db Server" where
  "Server_Close db_Close s = (let (err, kv) = Store_Close db_Close (srv_kv s) in (err, s\<lparr>srv_kv := kv\<rparr>))"

definition Relay_Serve :: "bool \<Rightarrow> goerr option option" where
  "Relay_Serve done = (if done then Some None else None)"

text \<open>\<open>Relay.Shutdown\<close> sends on the channel \<open>done\<close>; it returns when another goroutine receives from it, which \<open>Relay.Serve\<close> never does.\<close>

definition Relay_Shutdown :: "bool \<Rightarrow> goerr option option" where
  "Relay_Shutdown receiver = (if receiver then Some None else None)"

text \<open>\<open>Proxy.Serve\<close> waits for the context only; its listener goroutine writes the log lines \<open>proxy_listener_log\<close>.\<close>

definition Proxy_Serve :: "bool \<Rightarrow> listener \<Rightarrow> goerr option \<Rightarrow> goerr option option" where
  "Proxy_Serve done l shutdown = (if done then Some shutdown else None)"

definition proxy_listener_log :: "goerr \<Rightarrow> goerr option \<Rightarrow> string list" where
  "proxy_listener_log ErrServerClosed err =
     (case err of
        Some e \<Rightarrow> if e = ErrServerClosed then [''proxy Service Failed: '' @ Error_string e] else []
      | None \<Rightarrow> [])
     @ [''Proxy Service Exited'']"

definition serve_exit :: "bool \<Rightarrow> service \<Rightarrow> goerr option option" where
  "serve_exit done svc =
     (case svc of
        AdminService l \<Rightarrow> Server_Serve done l
      | RelayService \<Rightarrow> Relay_Serve done
      | ProxyService l shutdown \<Rightarrow> Proxy_Serve done l shutdown)"

text \<open>\<open>Listen\<close> serves without a context that ends; \<open>adminDBPath\<close> reads the environment.\<close>

definition Server_Listen :: "listener \<Rightarrow> goerr option option" where
  "Server_Listen l = Server_Serve False l"

definition GetAllowList :: "'db Server \<Rightarrow> AllowList" where
  "GetAllowList s = srv_acl s"

definition adminDBPath :: "string \<Rightarrow> string" where
  "adminDBPath env = (let p = TrimSpace env in if p \<noteq> [] then p else ''admin.jkv'')"

text \<open>\<open>Server.Wait\<close>: attempt \<open>k\<close> gives a status or fails; \<open>expired k\<close> says whether the context ended before the next.\<close>

partial_function (option) Wait :: "(nat \<Rightarrow> int result) \<Rightarrow> (nat \<Rightarrow> bool) \<Rightarrow> string \<Rightarrow> nat \<Rightarrow> goerr option option" where
  "Wait attempt expired address k =
     (if (case attempt k of Inr status \<Rightarrow> status < 500 | Inl e \<Rightarrow> False) then Some None
      else if expired k then Some (Some (GoErr (''server at http://localhost'' @ address @ '' not ready'')))
      else Wait attempt expired address (Suc k))"

section \<open>RunInterruptible\<close>

datatype service_state = Running | Exited "goerr option"

record Sup =
  su_cancelled :: bool
  su_services :: "(service \<times> service_state) list"

definition RunInterruptible :: "service list \<Rightarrow> Sup" where
  "RunInterruptible svcs = \<lparr>su_cancelled = False, su_services = map (\<lambda>s. (s, Running)) svcs\<rparr>"

text \<open>\<open>wg.Wait\<close> returns when every service has; the result is nil whatever they returned.\<close>

definition returned :: "Sup \<Rightarrow> bool" where
  "returned s \<longleftrightarrow> (\<forall>(svc, st) \<in> set (su_services s). st \<noteq> Running)"

definition listener_fails :: "goerr \<Rightarrow> service \<Rightarrow> service" where
  "listener_fails e svc =
     (case svc of AdminService l \<Rightarrow> AdminService (Down e) | ProxyService l sh \<Rightarrow> ProxyService (Down e) sh | RelayService \<Rightarrow> RelayService)"

inductive sup_step :: "Sup \<Rightarrow> Sup \<Rightarrow> bool" where
  interrupt: "sup_step s (s\<lparr>su_cancelled := True\<rparr>)"
| listener: "i < length (su_services s) \<Longrightarrow> su_services s ! i = (svc, Running) \<Longrightarrow>
    sup_step s (s\<lparr>su_services := (su_services s)[i := (listener_fails e svc, Running)]\<rparr>)"
| exit: "i < length (su_services s) \<Longrightarrow> su_services s ! i = (svc, Running) \<Longrightarrow> serve_exit (su_cancelled s) svc = Some r \<Longrightarrow>
    sup_step s (s\<lparr>su_cancelled := True, su_services := (su_services s)[i := (svc, Exited r)]\<rparr>)"

text \<open>\<open>RunInterruptibleContext\<close> runs under a context of its caller, which no service that returns cancels.\<close>

inductive ctx_step :: "Sup \<Rightarrow> Sup \<Rightarrow> bool" where
  cancel: "ctx_step s (s\<lparr>su_cancelled := True\<rparr>)"
| ctx_listener: "i < length (su_services s) \<Longrightarrow> su_services s ! i = (svc, Running) \<Longrightarrow>
    ctx_step s (s\<lparr>su_services := (su_services s)[i := (listener_fails e svc, Running)]\<rparr>)"
| ctx_exit: "i < length (su_services s) \<Longrightarrow> su_services s ! i = (svc, Running) \<Longrightarrow> serve_exit (su_cancelled s) svc = Some r \<Longrightarrow>
    ctx_step s (s\<lparr>su_services := (su_services s)[i := (svc, Exited r)]\<rparr>)"

inductive_cases sup_stepE: "sup_step s t"
inductive_cases ctx_stepE: "ctx_step s t"

abbreviation running :: "Sup \<Rightarrow> nat" where
  "running s \<equiv> length (filter (\<lambda>(svc, st). st = Running) (su_services s))"

section \<open>Lemmas\<close>

text \<open>
  The interface \<open>core.Service\<close>: \<open>Serve\<close> returns once its context is cancelled, and an error that ends it
  while the context is alive stays its result when the context is cancelled later.
\<close>

locale interruptible =
  fixes serve :: "bool \<Rightarrow> 'svc \<Rightarrow> goerr option option"
  assumes stops: "serve True svc \<noteq> None"
    and stable: "serve False svc = Some r \<Longrightarrow> serve True svc = Some r"
begin

lemma exits_when_cancelled: "\<exists>r. serve True svc = Some r"
  using stops [of svc] by blast

lemma blocked_only_alive: "serve c svc = None \<Longrightarrow> \<not> c"
  using stops [of svc] by (cases c) auto

lemma exit_persists: "serve c svc = Some r \<Longrightarrow> (c \<longrightarrow> d) \<Longrightarrow> serve d svc = Some r"
  using stable by (cases c; cases d) auto

end

interpretation services: interruptible serve_exit
  by unfold_locales
    (auto simp: serve_exit_def Server_Serve_def Relay_Serve_def Proxy_Serve_def split: service.splits listener.splits)

lemma running_update:
  assumes "i < length xs" and "xs ! i = (svc, Running)"
  shows "Suc (length (filter (\<lambda>(svc, st). st = Running) (xs[i := (svc, Exited r)]))) =
         length (filter (\<lambda>(svc, st). st = Running) xs)"
  using assms
proof (induction xs arbitrary: i)
  case (Cons x xs)
  then show ?case by (cases i) auto
qed simp

lemma returned_running: "returned s \<longleftrightarrow> running s = 0"
  by (auto simp: returned_def filter_empty_conv)

lemma stop_step:
  assumes "su_cancelled s" and "\<not> returned s"
  shows "\<exists>s'. sup_step s s' \<and> su_cancelled s' \<and> Suc (running s') = running s"
proof -
  obtain i svc where i: "i < length (su_services s)" "su_services s ! i = (svc, Running)"
    using assms(2) by (fastforce simp: returned_def in_set_conv_nth)
  obtain r where "serve_exit (su_cancelled s) svc = Some r" using services.exits_when_cancelled assms(1) by auto
  from sup_step.exit [OF i this] show ?thesis using running_update [OF i] by (intro exI conjI) (assumption, simp_all)
qed

lemma stop_all:
  assumes "su_cancelled s" and "running s = n"
  shows "\<exists>t. (sup_step ^^ n) s t \<and> returned t"
  using assms
proof (induction n arbitrary: s)
  case 0
  then show ?case by (auto simp: returned_running)
next
  case (Suc n)
  then have "\<not> returned s" by (simp add: returned_running)
  then obtain s' where s': "sup_step s s'" "su_cancelled s'" "running s' = n" using stop_step [of s] Suc.prems by auto
  obtain t where "(sup_step ^^ n) s' t" "returned t" using Suc.IH [OF s'(2,3)] by blast
  with s'(1) show ?case by (meson relpowp_Suc_I2)
qed

definition exit_cancels :: "Sup \<Rightarrow> bool" where
  "exit_cancels s \<longleftrightarrow> (\<forall>(svc, st) \<in> set (su_services s). st \<noteq> Running \<longrightarrow> su_cancelled s)"

lemma exit_cancels_step: "sup_step s s' \<Longrightarrow> exit_cancels s \<Longrightarrow> exit_cancels s'"
proof (induction rule: sup_step.induct)
  case (listener i s svc e)
  then show ?case using set_update_subset_insert [of "su_services s" i] by (fastforce simp: exit_cancels_def)
qed (auto simp: exit_cancels_def)

lemma cancelled_stays: "sup_step s t \<Longrightarrow> su_cancelled s \<Longrightarrow> su_cancelled t"
  by (erule sup_stepE) auto

lemma ctx_cancelled_only_outside:
  assumes "ctx_step s t" and "\<not> su_cancelled s" and "su_cancelled t"
  shows "su_services t = su_services s"
  using assms by (elim ctx_stepE) auto

lemma exit_cancels_run: "sup_step\<^sup>*\<^sup>* s t \<Longrightarrow> exit_cancels s \<Longrightarrow> exit_cancels t"
  by (induction rule: rtranclp_induct) (auto intro: exit_cancels_step)

lemma exit_cancels_start: "exit_cancels (RunInterruptible svcs)"
  by (auto simp: exit_cancels_def RunInterruptible_def)

text \<open>
  Under \<open>RunInterruptibleContext\<close> a relay stays up whatever happens to the other services, until the caller
  cancels; so the call does not return when another service has failed.
\<close>

definition relay_runs :: "nat \<Rightarrow> Sup \<Rightarrow> bool" where
  "relay_runs k s \<longleftrightarrow> k < length (su_services s) \<and> (su_cancelled s \<or> su_services s ! k = (RelayService, Running))"

lemma relay_runs_step: "ctx_step s t \<Longrightarrow> relay_runs k s \<Longrightarrow> relay_runs k t"
proof (induction rule: ctx_step.induct)
  case (ctx_listener i s svc e)
  then show ?case by (cases "k = i") (auto simp: relay_runs_def listener_fails_def)
next
  case (ctx_exit i s svc r)
  then show ?case by (cases "k = i") (auto simp: relay_runs_def serve_exit_def Relay_Serve_def split: if_splits)
qed (simp add: relay_runs_def)

lemma relay_keeps_running:
  assumes "ctx_step\<^sup>*\<^sup>* (RunInterruptible svcs) t" and "RelayService \<in> set svcs" and "\<not> su_cancelled t"
  shows "\<not> returned t"
proof -
  obtain k where k: "k < length svcs" "svcs ! k = RelayService" using assms(2) by (metis in_set_conv_nth)
  then have "relay_runs k (RunInterruptible svcs)" by (simp add: relay_runs_def RunInterruptible_def)
  with assms(1) have "relay_runs k t" by (induction rule: rtranclp_induct) (auto intro: relay_runs_step)
  then have "(RelayService, Running) \<in> set (su_services t)" using assms(3) unfolding relay_runs_def by (metis nth_mem)
  then show ?thesis by (auto simp: returned_def)
qed

section \<open>Properties\<close>

text \<open>
  One service stops all. In whatever state the services are, as soon as one of them has returned the
  context is cancelled, and then each of the others can return: after as many steps as there are
  services running, \<open>RunInterruptible\<close> returns. The same holds once an interrupt arrived.
\<close>

theorem one_exit_stops_all:
  assumes "sup_step\<^sup>*\<^sup>* (RunInterruptible svcs) s" and "(svc, Exited r) \<in> set (su_services s) \<or> su_cancelled s"
  shows "su_cancelled s \<and> (\<exists>t. (sup_step ^^ running s) s t \<and> returned t)"
proof -
  have "exit_cancels s" using exit_cancels_run [OF assms(1) exit_cancels_start] .
  then have "su_cancelled s" using assms(2) by (auto simp: exit_cancels_def)
  then show ?thesis using stop_all [OF _ refl] by blast
qed

theorem one_exit_stops_all_witness:
  "\<exists>s t. sup_step\<^sup>*\<^sup>* (RunInterruptible [AdminService Up, RelayService]) s \<and> su_cancelled s \<and>
     (sup_step ^^ running s) s t \<and> returned t"
proof -
  let ?s = "(RunInterruptible [AdminService Up, RelayService])\<lparr>su_cancelled := True\<rparr>"
  have r: "sup_step\<^sup>*\<^sup>* (RunInterruptible [AdminService Up, RelayService]) ?s" by (rule r_into_rtranclp) (rule sup_step.interrupt)
  have "su_cancelled ?s" by simp
  with one_exit_stops_all [OF r] show ?thesis using r by blast
qed

text \<open>
  A proxy whose listener failed goes on as if nothing had happened: its \<open>Serve\<close> returns only when something else
  cancels the context, and the error is not logged. The admin server returns the error.
\<close>

theorem proxy_listen_failure_ignored:
  "serve_exit False (ProxyService (Down e) sh) = None \<and>
   proxy_listener_log closed (Some e) = (if e = closed then [''proxy Service Failed: '' @ Error_string e, ''Proxy Service Exited''] else [''Proxy Service Exited'']) \<and>
   serve_exit False (AdminService (Down e)) = Some (Some e)"
  by (simp add: serve_exit_def Proxy_Serve_def Server_Serve_def proxy_listener_log_def)

end
