(* ===== verification/AdminCli.thy ===== *)
theory AdminCli
  imports ClientServer
begin

text \<open>
  The administration tool: \<open>cmd/admincli\<close>. The package \<open>cli\<close> has parsed the command line into the record \<open>cli\<close>; an action
  returns its error and the lines it prints. Tables are printed as rows of cells, before \<open>tabwriter\<close>
  aligns them; \<open>fmt_time\<close> is \<open>Format\<close> with RFC 3339. The lifetime of an invite is given in whole
  seconds, as \<open>uint64(lifetime.Seconds())\<close> yields it for such a duration.
\<close>

record cli =
  cli_addr :: string
  cli_token :: string
  cli_mesh :: string
  cli_name :: string
  cli_id :: string
  cli_once :: bool
  cli_lifetime :: uint64
  cli_args :: "string list"

definition requireToken :: "cli \<Rightarrow> goerr option" where
  "requireToken cmd =
     (if TrimSpace (cli_token cmd) = [] then Some (GoErr ''--token is required (or set SPEAKEASY_ADMIN_TOKEN)'') else None)"

definition newAPI :: "'s net_http \<Rightarrow> cli \<Rightarrow> 's Client" where
  "newAPI http cmd = NewClient http (TrimRight (cli_addr cmd) (CHR ''/'')) (cli_token cmd)"

definition requireArg :: "cli \<Rightarrow> string \<Rightarrow> string result" where
  "requireArg cmd name =
     (let v = TrimSpace (case cli_args cmd of [] \<Rightarrow> [] | a # _ \<Rightarrow> a) in
      if v = [] then Inl (GoErr (name @ '' is required'')) else Inr v)"

section \<open>Actions\<close>

type_synonym 's cli_action = "'s \<Rightarrow> (goerr option \<times> string list list) \<times> 's"

definition adminInvite :: "wire \<Rightarrow> 's net_http \<Rightarrow> cli \<Rightarrow> 's cli_action" where
  "adminInvite W http cmd s =
     (let (r, s') = CreateInvite W (newAPI http cmd)
            \<lparr>ci_Name = cli_name cmd, ci_LifetimeSec = cli_lifetime cmd, ci_OneTime = cli_once cmd, ci_MeshId = cli_mesh cmd\<rparr> s in
      (case r of
         Inl e \<Rightarrow> ((Some e, []), s')
       | Inr resp \<Rightarrow> ((None, [[''invite id:   '', cr_InviteId resp], [''invite link: '', cr_InviteLink resp]]), s')))"

definition adminDeleteInvite :: "'s net_http \<Rightarrow> cli \<Rightarrow> 's cli_action" where
  "adminDeleteInvite http cmd s =
     (case requireArg cmd ''invite id'' of
        Inl e \<Rightarrow> ((Some e, []), s)
      | Inr i \<Rightarrow>
          (let (r, s') = DeleteInvite (newAPI http cmd) i s in
           (case r of Inl e \<Rightarrow> ((Some e, []), s') | Inr u \<Rightarrow> ((None, [[''deleted invite '', i]]), s'))))"

definition adminKick :: "'s net_http \<Rightarrow> cli \<Rightarrow> 's cli_action" where
  "adminKick http cmd s =
     (case requireArg cmd ''peer id'' of
        Inl e \<Rightarrow> ((Some e, []), s)
      | Inr i \<Rightarrow>
          (let (r, s') = KickPeer (newAPI http cmd) i s in
           (case r of Inl e \<Rightarrow> ((Some e, []), s') | Inr u \<Rightarrow> ((None, [[''kicked '', i]]), s'))))"

definition listMeshes :: "string list list" where
  "listMeshes = [''ID'', ''DESCRIPTION''] # map (\<lambda>m. [md_ID m, md_Description m]) MeshList"

definition redeemInvite :: "wire \<Rightarrow> 's net_http \<Rightarrow> (string \<Rightarrow> URL result) \<Rightarrow> cli \<Rightarrow> 's cli_action" where
  "redeemInvite W http url_Parse cmd s =
     (case requireArg cmd ''invite url'' of
        Inl e \<Rightarrow> ((Some e, []), s)
      | Inr link \<Rightarrow>
          (let (r, s') = RedeemInvite W http url_Parse link (NewPeerNode (cli_id cmd) (cli_name cmd)) s in
           (case r of
              Inl e \<Rightarrow> ((Some e, []), s')
            | Inr resp \<Rightarrow> ((None, [[''mesh id:     '', ri_MeshId resp], [''mesh secret: '', ri_MeshSecret resp],
                                 [''server:      '', ri_MeshServer resp]]), s'))))"

definition nodeList :: "wire \<Rightarrow> 's net_http \<Rightarrow> (gotime \<Rightarrow> string) \<Rightarrow> cli \<Rightarrow> 's cli_action" where
  "nodeList W http fmt_time cmd s =
     (let (r, s') = GetPeers_call W (newAPI http cmd) s in
      (case r of
         Inl e \<Rightarrow> ((Some e, []), s')
       | Inr nodes \<Rightarrow>
           ((None, [''NAME'', ''ID'', ''UPDATED''] #
              map (\<lambda>n. [pn_Name n, pn_ID n, if pn_LastUpdate n \<noteq> zero_time then fmt_time (pn_LastUpdate n) else []]) nodes), s')))"

text \<open>The body of \<open>nodeAuthorize\<close> is commented out.\<close>

definition nodeAuthorize :: "cli \<Rightarrow> 's cli_action" where
  "nodeAuthorize cmd s = ((None, []), s)"

definition nodeRegister :: "wire \<Rightarrow> 's net_http \<Rightarrow> cli \<Rightarrow> 's cli_action" where
  "nodeRegister W http cmd s =
     (let (r, s') = MeshClient_Register W (newAPI http cmd) (cli_name cmd) (cli_id cmd) s in
      (case r of
         Inl e \<Rightarrow> ((Some e, []), s')
       | Inr reg \<Rightarrow> ((None, [[''registered '', cli_name cmd, '' ('', cli_id cmd, '')'']]), s')))"

definition nodeUnregister :: "'s net_http \<Rightarrow> cli \<Rightarrow> 's cli_action" where
  "nodeUnregister http cmd s =
     (case requireArg cmd ''peer id'' of
        Inl e \<Rightarrow> ((Some e, []), s)
      | Inr i \<Rightarrow>
          (let (r, s') = Unregister (newAPI http cmd) i s in
           (case r of Inl e \<Rightarrow> ((Some e, []), s') | Inr u \<Rightarrow> ((None, [[''unregistered '', i]]), s'))))"

definition nodeRelay :: "wire \<Rightarrow> 's net_http \<Rightarrow> (gotime \<Rightarrow> string) \<Rightarrow> cli \<Rightarrow> 's cli_action" where
  "nodeRelay W http fmt_time cmd s =
     (let (r, s') = GetRelay W (newAPI http cmd) s in
      (case r of
         Inl e \<Rightarrow> ((Some e, []), s')
       | Inr (addrs, updated, logical) \<Rightarrow>
           ((None, (if updated \<noteq> zero_time then [[''updated: '', fmt_time updated]] else [])
                   @ [[''logical: '', itoa (uint logical)]] @ map (\<lambda>a. [a]) addrs), s')))"

section \<open>Commands\<close>

text \<open>The command tree of \<open>newCommand\<close>: names and aliases; the groups node and admin, and meshes, first check the token.\<close>

datatype cli_command =
    NodeList | NodeAuthorize | NodeRegister | NodeUnregister | NodeRelay
  | AdminInvite | AdminDeleteInvite | AdminKick | Redeem | Meshes

definition cli_lookup :: "string list \<Rightarrow> cli_command option" where
  "cli_lookup path =
     map_of
       ([([''node'', n], NodeList). n \<leftarrow> [''list'', ''ls'', ''peers'']] @ [([''node'', n], NodeAuthorize). n \<leftarrow> [''authorize'', ''auth'']]
        @ [([''node'', ''register''], NodeRegister)] @ [([''node'', n], NodeUnregister). n \<leftarrow> [''unregister'', ''rm'']]
        @ [([''node'', n], NodeRelay). n \<leftarrow> [''relay'', ''address'']]
        @ [([''admin'', ''invite''], AdminInvite), ([''admin'', ''delete-invite''], AdminDeleteInvite), ([''admin'', ''kick''], AdminKick),
           ([''redeem''], Redeem), ([''meshes''], Meshes)]) path"

definition run_action ::
  "wire \<Rightarrow> 's net_http \<Rightarrow> (string \<Rightarrow> URL result) \<Rightarrow> (gotime \<Rightarrow> string) \<Rightarrow> cli_command \<Rightarrow> cli \<Rightarrow> 's cli_action" where
  "run_action W http url_Parse fmt_time c cmd s =
     (case c of
        NodeList \<Rightarrow> nodeList W http fmt_time cmd s
      | NodeAuthorize \<Rightarrow> nodeAuthorize cmd s
      | NodeRegister \<Rightarrow> nodeRegister W http cmd s
      | NodeUnregister \<Rightarrow> nodeUnregister http cmd s
      | NodeRelay \<Rightarrow> nodeRelay W http fmt_time cmd s
      | AdminInvite \<Rightarrow> adminInvite W http cmd s
      | AdminDeleteInvite \<Rightarrow> adminDeleteInvite http cmd s
      | AdminKick \<Rightarrow> adminKick http cmd s
      | Redeem \<Rightarrow> redeemInvite W http url_Parse cmd s
      | Meshes \<Rightarrow> ((None, listMeshes), s))"

definition run_cli ::
  "wire \<Rightarrow> 's net_http \<Rightarrow> (string \<Rightarrow> URL result) \<Rightarrow> (gotime \<Rightarrow> string) \<Rightarrow> cli_command \<Rightarrow> cli \<Rightarrow> 's cli_action" where
  "run_cli W http url_Parse fmt_time c cmd s =
     (case (if c = Redeem then None else requireToken cmd) of
        Some e \<Rightarrow> ((Some e, []), s)
      | None \<Rightarrow> run_action W http url_Parse fmt_time c cmd s)"

section \<open>Lemmas\<close>

text \<open>Without a token only \<open>redeem\<close> sends anything.\<close>

lemma no_token_no_call:
  assumes "TrimSpace (cli_token cmd) = []" and "c \<noteq> Redeem"
  shows "\<exists>e. run_cli W http url_Parse fmt_time c cmd s = ((Some e, []), s)"
  using assms by (simp add: run_cli_def requireToken_def)

text \<open>
  \<open>admincli admin kick\<close> against the admin server, with a token of the administrator: exactly one request,
  \<open>adminDeleteNode\<close> for the peer; the tool reports success if and only if the handler did not fail.
\<close>

theorem kick_reports_truth:
  assumes "http = admin_http W D inp (TrimRight (cli_addr cmd) (CHR ''/''))" and "cli_token cmd \<noteq> []"
    and "DoAuth (srv_auth s) (in_auth_now (inp k)) (''Bearer '' @ cli_token cmd) = (Some \<lparr>prop_User = u, prop_Group = ''admin''\<rparr>, StatusOK)"
    and "requireArg cmd ''peer id'' = Inr i" and "url_safe i"
    and "adminDeleteNode D (inp k) \<lparr>rpc_user = Some \<lparr>prop_User = u, prop_Group = ''admin''\<rparr>, rpc_id = i, rpc_body = None :: unit option\<rparr> s = (r, s')"
    and "\<forall>c m. r = Inl (ApiErr c m) \<longrightarrow> c \<noteq> StatusOK"
  shows "snd (adminKick http cmd (k, s)) = (Suc k, s') \<and>
    (fst (fst (adminKick http cmd (k, s))) = None \<longleftrightarrow> (\<exists>v. r = Inr v))"
proof -
  let ?c = "newAPI http cmd"
  have rt: "cl_rt ?c = admin_http W D inp (cl_Address ?c)" using assms(1) by (simp add: newAPI_def NewClient_def)
  have tok: "cl_token ?c = cli_token cmd" by (simp add: newAPI_def NewClient_def)
  have routed: "routes D (inp k) (call_request W (cl_token ?c) ''DELETE'' (v1 [''admin'', ''nodes'', i]) None) s = (reply_or_error r, s')"
    using assms(2,3,6) tok url_safe_segment [OF assms(5)]
    by (simp add: routes_def call_request_def method_is_def id_under_def authenticated_def asAdmin_def rpc_Group_def)
  have call: "KickPeer ?c i (k, s) = (case call_result W Inr (reply_or_error r) of Inl e \<Rightarrow> Inl e | Inr _ \<Rightarrow> Inr (), (Suc k, s'))"
    unfolding KickPeer_def DeleteNode_def
    using Delete_admin [OF rt, of "''api/v1/admin/nodes/'' @ i" k s] Split_under(3) [OF assms(5)] routed by simp
  have "(\<exists>v. call_result W Inr (reply_or_error r) = Inr v) \<longleftrightarrow> (\<exists>v. r = Inr v)"
  proof (cases r)
    case (Inl e)
    then show ?thesis using assms(7) by (cases e) (simp_all add: call_result_def reply_or_error_def write_response_def)
  next
    case (Inr v)
    then have "v = ReplyDeleted i"
      using assms(6) by (auto simp: adminDeleteNode_def Let_def split_beta prod_eq_iff split: sum.splits if_splits)
    then show ?thesis using Inr by (simp add: call_result_def reply_or_error_def write_response_def encode_reply_def)
  qed
  then show ?thesis
    using call assms(4) by (cases "call_result W Inr (reply_or_error r)") (auto simp: adminKick_def)
qed

end
