(* ===== verification/Logging.thy ===== *)
theory Logging
  imports Prelude
begin

text \<open>
  \<open>pkg/log\<close>: the level filter and the layout of a line. A printer returns the text it writes; the time is already formatted.
  A level is a set of bits of a \<open>uint32\<close>.
\<close>

unbundle bit_operations_syntax

type_synonym uint32 = "32 word"

definition LogError :: uint32 where "LogError = 1"
definition LogWarn :: uint32 where "LogWarn = 2"
definition LogEvent :: uint32 where "LogEvent = 4"
definition LogInfo :: uint32 where "LogInfo = 8"
definition LogHighlight :: uint32 where "LogHighlight = 16"
definition LogPrint :: uint32 where "LogPrint = 32"
definition LogDebug :: uint32 where "LogDebug = 64"

lemmas level_defs = LogError_def LogWarn_def LogEvent_def LogInfo_def LogHighlight_def LogPrint_def LogDebug_def

definition LogNormal :: uint32 where
  "LogNormal = LogError OR LogWarn OR LogEvent OR LogInfo OR LogHighlight OR LogPrint"

definition LogAll :: uint32 where
  "LogAll = LogError OR LogWarn OR LogEvent OR LogInfo OR LogHighlight OR LogPrint OR LogDebug"

definition color :: "string \<Rightarrow> string" where
  "color code = [CHR 0x1B] @ ''['' @ code @ ''m''"

definition colorMap :: "uint32 \<Rightarrow> string option" where
  "colorMap = map_of [(LogError, color ''31''), (LogWarn, color ''33''), (LogEvent, color ''36''), (LogInfo, color ''0''),
     (LogHighlight, color ''32''), (LogPrint, color ''2;37''), (LogDebug, color ''2;37'')]"

definition levelMap :: "uint32 \<Rightarrow> string option" where
  "levelMap = map_of [(LogError, ''ERROR''), (LogWarn, ''WARN''), (LogEvent, ''EVENT''), (LogInfo, ''INFO''),
     (LogHighlight, ''HILI''), (LogPrint, ''PRINT''), (LogDebug, ''DEBUG'')]"

text \<open>The verb \<open>%-n.ns\<close>: cut to \<open>n\<close> and padded on the right. Component names are ASCII.\<close>

definition pad :: "nat \<Rightarrow> string \<Rightarrow> string" where
  "pad n s = take n s @ replicate (n - length s) (CHR '' '')"

definition end_line :: "string \<Rightarrow> string" where
  "end_line msg = (if suffix [CHR 0x0A] msg then [] else [CHR 0x0A])"

type_synonym printer = "string \<Rightarrow> uint32 \<Rightarrow> string \<Rightarrow> string \<Rightarrow> string"

definition ColorPrinterClassic :: printer where
  "ColorPrinterClassic now level component msg =
     (let c = (case colorMap level of None \<Rightarrow> color ''31'' | Some c \<Rightarrow> c) in
      now @ '' | '' @ c @ msg @ color ''0'' @ end_line msg)"

definition ColorPrinter :: printer where
  "ColorPrinter now level component msg =
     (let c = (case colorMap level of None \<Rightarrow> color ''31'' | Some c \<Rightarrow> c) in
      now @ '' | '' @ c @ pad 7 component @ color ''0'' @ '' | '' @ c @ msg @ color ''0'' @ end_line msg)"

definition BasicPrinter :: printer where
  "BasicPrinter now level component msg =
     (let l = (case levelMap level of None \<Rightarrow> ''----'' | Some l \<Rightarrow> l) in
      now @ '' | '' @ pad 5 l @ '' | '' @ pad 5 component @ '' | '' @ msg @ end_line msg)"

record Log =
  lg_fmtTime :: string
  lg_level :: uint32
  lg_component :: string
  lg_printer :: printer

definition DefaultTimeFormat :: string where "DefaultTimeFormat = ''2006-01-02 15:04:05''"

definition Default :: Log where
  "Default = \<lparr>lg_fmtTime = DefaultTimeFormat, lg_level = LogAll, lg_component = ''ALL'', lg_printer = ColorPrinter\<rparr>"

definition emit :: "Log \<Rightarrow> string \<Rightarrow> uint32 \<Rightarrow> string \<Rightarrow> string" where
  "emit l now level msg = (if lg_level l AND level = level then lg_printer l now level (lg_component l) msg else [])"

text \<open>
  The methods of a \<open>Log\<close>, on the formatted message: what reaches the output, and whether the program goes on.
  The functions of the package call those of \<open>Default\<close>.
\<close>

datatype log_method = Printf | Panicf | Fatalf | Infof | Eventf | Warnf | Debugf | Highlightf | Errorf

datatype log_end = Continues | Panics string | Exits int

definition Log_call :: "log_method \<Rightarrow> Log \<Rightarrow> string \<Rightarrow> string \<Rightarrow> string \<times> log_end" where
  "Log_call m l now msg =
     (case m of
        Printf \<Rightarrow> (emit l now LogPrint msg, Continues)
      | Panicf \<Rightarrow> ([], Panics msg)
      | Fatalf \<Rightarrow> (emit l now LogError msg, Exits 1)
      | Infof \<Rightarrow> (emit l now LogInfo msg, Continues)
      | Eventf \<Rightarrow> (emit l now LogEvent msg, Continues)
      | Warnf \<Rightarrow> (emit l now LogWarn msg, Continues)
      | Debugf \<Rightarrow> (emit l now LogDebug msg, Continues)
      | Highlightf \<Rightarrow> (emit l now LogHighlight msg, Continues)
      | Errorf \<Rightarrow> (emit l now LogError msg, Continues))"

definition Default_call :: "log_method \<Rightarrow> string \<Rightarrow> string \<Rightarrow> string \<times> log_end" where
  "Default_call m now msg = Log_call m Default now msg"

text \<open>\<open>ColorPrint\<close> writes whatever the level, with the color in the column of the name (\<open>%4s\<close> pads on the left), and \<open>ColorPrintf\<close>.\<close>

definition pad_left :: "nat \<Rightarrow> string \<Rightarrow> string" where
  "pad_left n s = replicate (n - length s) (CHR '' '') @ s"

definition ColorPrint :: "Log \<Rightarrow> string \<Rightarrow> string \<Rightarrow> string \<Rightarrow> string" where
  "ColorPrint l now c msg = now @ '' | '' @ pad_left 4 c @ '' | '' @ lg_component l @ msg @ color ''0''"

definition ColorPrintf :: "string \<Rightarrow> string \<Rightarrow> string" where
  "ColorPrintf c msg = c @ msg @ color ''0''"

definition SetLevel :: "uint32 \<Rightarrow> Log \<Rightarrow> Log" where "SetLevel level l = l\<lparr>lg_level := level\<rparr>"

definition SetTimeFormat :: "string \<Rightarrow> Log \<Rightarrow> Log" where "SetTimeFormat f l = l\<lparr>lg_fmtTime := f\<rparr>"

definition SetPrinter :: "printer \<Rightarrow> Log \<Rightarrow> Log" where "SetPrinter p l = l\<lparr>lg_printer := p\<rparr>"

definition SetName :: "string \<Rightarrow> Log \<Rightarrow> Log" where "SetName n l = l\<lparr>lg_component := n\<rparr>"

definition Log_WithName :: "string \<Rightarrow> Log \<Rightarrow> Log" where "Log_WithName n l = l\<lparr>lg_component := n\<rparr>"

definition Log_New :: "string \<Rightarrow> Log" where
  "Log_New n = \<lparr>lg_fmtTime = lg_fmtTime Default, lg_level = LogNormal, lg_component = n, lg_printer = lg_printer Default\<rparr>"

section \<open>Lemmas\<close>

text \<open>A message is printed exactly when every bit of its level is set in the log's level.\<close>

lemma emit_iff:
  assumes "\<And>now level c msg. lg_printer l now level c msg \<noteq> []"
  shows "emit l now level msg \<noteq> [] \<longleftrightarrow> (\<forall>n. bit level n \<longrightarrow> bit (lg_level l) n)"
proof -
  have "lg_level l AND level = level \<longleftrightarrow> (\<forall>n. bit level n \<longrightarrow> bit (lg_level l) n)"
  proof
    assume "lg_level l AND level = level"
    then have "bit (lg_level l AND level) n = bit level n" for n by simp
    then show "\<forall>n. bit level n \<longrightarrow> bit (lg_level l) n" by (simp add: bit_and_iff) blast
  next
    assume "\<forall>n. bit level n \<longrightarrow> bit (lg_level l) n"
    then show "lg_level l AND level = level" by (auto intro!: bit_eqI simp: bit_and_iff)
  qed
  then show ?thesis using assms by (simp add: emit_def)
qed

lemma levels_apart:
  "distinct [LogError, LogWarn, LogEvent, LogInfo, LogHighlight, LogPrint, LogDebug]"
  "LogAll = LogNormal OR LogDebug" "LogNormal AND LogDebug = 0"
  by (simp_all add: level_defs LogNormal_def LogAll_def)

text \<open>A fresh log prints everything but debug messages; the default one and the logs derived from it print those too.\<close>

lemma debug_hidden: "emit (Log_New n) now LogDebug msg = []"
  by (simp add: emit_def Log_New_def LogNormal_def level_defs)

lemma printers_write:
  "ColorPrinterClassic now level c msg \<noteq> []" "ColorPrinter now level c msg \<noteq> []" "BasicPrinter now level c msg \<noteq> []"
  by (simp_all add: ColorPrinterClassic_def ColorPrinter_def BasicPrinter_def Let_def)

text \<open>A log with one of the printers of the package prints through a method exactly when its level asks for it; only \<open>Panicf\<close> and \<open>Fatalf\<close> end the program, whatever the level.\<close>

lemma log_call_ends:
  "snd (Log_call m l now msg) = Continues \<longleftrightarrow> m \<noteq> Panicf \<and> m \<noteq> Fatalf"
  by (cases m) (simp_all add: Log_call_def)

lemma errors_always_shown:
  "fst (Log_call Errorf (Log_New n) now msg) = ColorPrinter now LogError n msg"
  by (simp add: Log_call_def emit_def Log_New_def LogNormal_def level_defs Default_def)

lemma default_prints_debug: "emit (Log_WithName n Default) now LogDebug msg = ColorPrinter now LogDebug n msg"
  by (simp add: emit_def Log_WithName_def Default_def LogAll_def level_defs)

end
