(* ===== verification/TestMesh.thy ===== *)
theory TestMesh
  imports StreamWriter MapOrder ProxyNode
begin

text \<open>
  The stand-in for the network in the repository's tests: \<open>testable/orchestrator.go\<close>, \<open>mesh.go\<close>, \<open>doer.go\<close> and
  \<open>response_writer.go\<close>. A \<open>*MeshNode\<close> is a number into \<open>mo_heap\<close>. A handler makes calls on its response writer and
  changes a state \<open>'w\<close> that stands for all the proxies under test; calling a nil handler or using a nil node is
  a \<open>GoPanic\<close>. What the tests print is left out.
\<close>

section \<open>The response writer\<close>

type_synonym testResponseWriter = streamResponseWriter

definition NewTestResponseWriter :: testResponseWriter where
  "NewTestResponseWriter = \<lparr>sw_s = [], sw_hdr = None, sw_status = 0, sw_wroteHdr = False\<rparr>"

definition Test_Header :: "(Header \<Rightarrow> Header) \<Rightarrow> testResponseWriter \<Rightarrow> testResponseWriter" where
  "Test_Header change w = w\<lparr>sw_hdr := Some (change (case sw_hdr w of None \<Rightarrow> [] | Some h \<Rightarrow> h))\<rparr>"

definition Test_WriteHeader :: "int \<Rightarrow> testResponseWriter \<Rightarrow> testResponseWriter" where
  "Test_WriteHeader code w =
     (if sw_wroteHdr w then w
      else w\<lparr>sw_wroteHdr := True, sw_status := code,
             sw_s := sw_s w @ ''HTTP/1.1 '' @ itoa code @ '' '' @ StatusText code @ CRLF
                     @ (case sw_hdr w of None \<Rightarrow> [] | Some h \<Rightarrow> Header_Write h) @ CRLF\<rparr>)"

definition Test_Write :: "string \<Rightarrow> testResponseWriter \<Rightarrow> testResponseWriter" where
  "Test_Write p w =
     (let w' = (if \<not> sw_wroteHdr w then Test_WriteHeader StatusOK w else w) in w'\<lparr>sw_s := sw_s w' @ p\<rparr>)"

fun call_test_writer :: "writer_call \<Rightarrow> testResponseWriter \<Rightarrow> testResponseWriter" where
  "call_test_writer (SetHeader k v) w = Test_Header (Header_Set k v) w"
| "call_test_writer (AddHeader k v) w = Test_Header (Header_Add k v) w"
| "call_test_writer (CallWriteHeader code) w = Test_WriteHeader code w"
| "call_test_writer (CallWrite p) w = Test_Write p w"

section \<open>Nodes and the orchestrator\<close>

record ('r, 'w) MeshNode =
  tn_node :: Node
  tn_httpHandler :: "('r \<Rightarrow> 'w \<Rightarrow> writer_call list \<times> 'w) option"
  tn_updateHandler :: "(Node \<Rightarrow> bool \<Rightarrow> 'w \<Rightarrow> goerr option \<times> 'w) option"

record ('r, 'w) MeshOrchestrator =
  mo_nodes :: "(string \<times> nat) list"
  mo_heap :: "nat \<Rightarrow> ('r, 'w) MeshNode"

definition NewMeshOrchestrator :: "(nat \<Rightarrow> ('r, 'w) MeshNode) \<Rightarrow> ('r, 'w) MeshOrchestrator" where
  "NewMeshOrchestrator heap = \<lparr>mo_nodes = [], mo_heap = heap\<rparr>"

definition NewTestableMesh :: "Node \<Rightarrow> ('r, 'w) MeshNode" where
  "NewTestableMesh node = \<lparr>tn_node = node, tn_httpHandler = None, tn_updateHandler = None\<rparr>"

definition NewMeshNode :: "string \<Rightarrow> string \<Rightarrow> ('r, 'w) MeshNode" where
  "NewMeshNode i name = \<lparr>tn_node = NewPeerNode i name, tn_httpHandler = None, tn_updateHandler = None\<rparr>"

definition MeshNode_Node :: "nat \<Rightarrow> ('r, 'w) MeshOrchestrator \<Rightarrow> Node" where
  "MeshNode_Node p t = tn_node (mo_heap t p)"

definition WithHandlerFunc ::
  "('r \<Rightarrow> 'w \<Rightarrow> writer_call list \<times> 'w) \<Rightarrow> nat \<Rightarrow> ('r, 'w) MeshOrchestrator \<Rightarrow> ('r, 'w) MeshOrchestrator" where
  "WithHandlerFunc h p t = t\<lparr>mo_heap := (mo_heap t)(p := (mo_heap t p)\<lparr>tn_httpHandler := Some h\<rparr>)\<rparr>"

definition WithUpdateHandlerFunc ::
  "(Node \<Rightarrow> bool \<Rightarrow> 'w \<Rightarrow> goerr option \<times> 'w) \<Rightarrow> nat \<Rightarrow> ('r, 'w) MeshOrchestrator \<Rightarrow> ('r, 'w) MeshOrchestrator" where
  "WithUpdateHandlerFunc h p t = t\<lparr>mo_heap := (mo_heap t)(p := (mo_heap t p)\<lparr>tn_updateHandler := Some h\<rparr>)\<rparr>"

text \<open>\<open>onNodeConnected\<close> and \<open>onNodeDisconnected\<close> drop the handler's error.\<close>

definition on_node_event :: "bool \<Rightarrow> ('r, 'w) MeshNode \<Rightarrow> Node \<Rightarrow> 'w \<Rightarrow> 'w result" where
  "on_node_event removed un node w =
     (case tn_updateHandler un of
        None \<Rightarrow> Inl (GoPanic ''nil update handler'')
      | Some h \<Rightarrow> Inr (snd (h node removed w)))"

fun notify_nodes ::
  "(nat \<Rightarrow> ('r, 'w) MeshNode) \<Rightarrow> bool \<Rightarrow> Node \<Rightarrow> (string \<times> nat) list \<Rightarrow> 'w \<Rightarrow> 'w result" where
  "notify_nodes heap removed node [] w = Inr w"
| "notify_nodes heap removed node ((i, p) # rest) w =
     (case on_node_event removed (heap p) node w of
        Inl e \<Rightarrow> Inl e
      | Inr w' \<Rightarrow> notify_nodes heap removed node rest w')"

definition Orchestrator_Connect ::
  "((string \<times> nat) list \<Rightarrow> (string \<times> nat) list) \<Rightarrow> nat \<Rightarrow> ('r, 'w) MeshOrchestrator \<Rightarrow> 'w \<Rightarrow> 'w result \<times> ('r, 'w) MeshOrchestrator" where
  "Orchestrator_Connect ord mn t w =
     (let node = tn_node (mo_heap t mn);
          t' = t\<lparr>mo_nodes := AList.update (pn_ID node) mn (mo_nodes t)\<rparr>
      in (notify_nodes (mo_heap t) False node (ord (mo_nodes t')) w, t'))"

definition Orchestrator_Disconnect ::
  "((string \<times> nat) list \<Rightarrow> (string \<times> nat) list) \<Rightarrow> nat \<Rightarrow> ('r, 'w) MeshOrchestrator \<Rightarrow> 'w \<Rightarrow> 'w result \<times> ('r, 'w) MeshOrchestrator" where
  "Orchestrator_Disconnect ord mn t w =
     (let node = tn_node (mo_heap t mn);
          t' = t\<lparr>mo_nodes := AList.delete (pn_ID node) (mo_nodes t)\<rparr>
      in (notify_nodes (mo_heap t) True node (ord (mo_nodes t)) w, t'))"

text \<open>The doer's answer is the text on its writer, which \<open>http.ReadResponse\<close> parses.\<close>

record ('r, 'w) Doer =
  do_dest :: Node
  do_Handler :: "('r \<Rightarrow> 'w \<Rightarrow> writer_call list \<times> 'w) option"

definition Doer_Do :: "(string \<Rightarrow> 'a result) \<Rightarrow> ('r, 'w) Doer \<Rightarrow> 'r \<Rightarrow> 'w \<Rightarrow> 'a result \<times> 'w" where
  "Doer_Do ReadResponse td req w =
     (case do_Handler td of
        None \<Rightarrow> (Inl (GoErr ''dial failure''), w)
      | Some h \<Rightarrow> (let (calls, w') = h req w in
                   (ReadResponse (sw_s (fold call_test_writer calls NewTestResponseWriter)), w')))"

definition Orchestrator_ClientForPeer :: "('r, 'w) MeshOrchestrator \<Rightarrow> Node \<Rightarrow> ('r, 'w) Doer result" where
  "Orchestrator_ClientForPeer t dest =
     (case map_of (mo_nodes t) (pn_ID dest) of
        None \<Rightarrow> Inl (GoPanic ''nil node'')
      | Some p \<Rightarrow> Inr \<lparr>do_dest = tn_node (mo_heap t p), do_Handler = tn_httpHandler (mo_heap t p)\<rparr>)"

definition Orchestrator_ProxyToNode ::
  "('r, 'w) MeshOrchestrator \<Rightarrow> Node \<Rightarrow> 'r \<Rightarrow> 'w \<Rightarrow> (writer_call list \<times> 'w) result" where
  "Orchestrator_ProxyToNode t dest r w =
     (case map_of (mo_nodes t) (pn_ID dest) of
        None \<Rightarrow> Inr ([CallWriteHeader StatusServiceUnavailable, CallWrite (''dial failure'' @ [CHR 0x0A])], w)
      | Some p \<Rightarrow>
          (case tn_httpHandler (mo_heap t p) of
             None \<Rightarrow> Inl (GoPanic ''nil handler'')
           | Some h \<Rightarrow> Inr (h r w)))"

definition Orchestrator_GetPeerMap ::
  "((string \<times> nat) list \<Rightarrow> (string \<times> nat) list) \<Rightarrow> ('r, 'w) MeshOrchestrator \<Rightarrow> (string \<times> Node) list" where
  "Orchestrator_GetPeerMap ord t =
     fold (\<lambda>(i, p). AList.update (pn_ID (tn_node (mo_heap t p))) (tn_node (mo_heap t p))) (ord (mo_nodes t)) []"

definition Orchestrator_GetPeerMeshInfo :: "('r, 'w) MeshOrchestrator \<Rightarrow> Node \<Rightarrow> MeshInfo" where
  "Orchestrator_GetPeerMeshInfo t peer =
     (case map_of (mo_nodes t) (pn_ID peer) of
        None \<Rightarrow> \<lparr>mi_AdvertisedAddresses = [], mi_Connections = []\<rparr>
      | Some p \<Rightarrow> \<lparr>mi_AdvertisedAddresses = [pn_ID (tn_node (mo_heap t p))], mi_Connections = []\<rparr>)"

text \<open>The methods of a node are those of its orchestrator, but a node has no mesh information.\<close>

definition MeshNode_GetPeerMeshInfo :: "Node \<Rightarrow> MeshInfo option" where
  "MeshNode_GetPeerMeshInfo node = None"

section \<open>Lemmas\<close>

text \<open>A node of the tests is a mesh for a proxy, like the service of \<open>pkg/mesh\<close>.\<close>

interpretation test_provider: mesh_provider "MeshNode_Node p" "\<lambda>h. WithHandlerFunc h p" "\<lambda>u. WithUpdateHandlerFunc u p"
  "\<lambda>t. tn_httpHandler (mo_heap t p)" "\<lambda>t. tn_updateHandler (mo_heap t p)" for p
  by unfold_locales (simp_all add: MeshNode_Node_def WithHandlerFunc_def WithUpdateHandlerFunc_def)

text \<open>The test writer is the stream's writer, so what is proved of one holds of the other.\<close>

lemma test_writer_same: "call_test_writer c w = call_writer c w"
  by (cases c)
    (simp_all add: Test_Header_def Writer_Header_def Test_WriteHeader_def WriteHeader_def Test_Write_def Writer_Write_def Let_def)

lemma doer_reads_reply:
  assumes "do_Handler td = Some h" and "h req w = (calls, w')" and "reply_of [] calls = Some r"
  shows "Doer_Do ReadResponse td req w = (ReadResponse (response_text r), w')"
proof -
  have "fold call_test_writer calls = fold call_writer calls" by (intro ext fold_cong) (simp_all add: test_writer_same)
  then show ?thesis
    using assms writer_response [of calls] by (simp add: Doer_Do_def NewTestResponseWriter_def new_writer_def)
qed

text \<open>
  Who is told what. With handlers that write down their reports, each connected node is told of a newcomer, the newcomer of itself, and
  nobody of those who were there before.
\<close>

definition recording :: "(nat \<Rightarrow> ('r, nat \<Rightarrow> (Node \<times> bool) list) MeshNode) \<Rightarrow> bool" where
  "recording heap \<longleftrightarrow> (\<forall>p. tn_updateHandler (heap p) = Some (\<lambda>n b w. (None, w(p := w p @ [(n, b)]))))"

lemma notify_recorded:
  assumes "recording heap" and "distinct (map snd xs)"
  shows "notify_nodes heap b n xs w = Inr (\<lambda>p. if p \<in> snd ` set xs then w p @ [(n, b)] else w p)"
  using assms(2)
proof (induction xs arbitrary: w)
  case (Cons x xs)
  obtain i p where x: "x = (i, p)" by fastforce
  have "on_node_event b (heap p) n w = Inr (w(p := w p @ [(n, b)]))" using assms(1) by (simp add: recording_def on_node_event_def)
  then show ?case using Cons x by (auto simp: fun_eq_iff image_iff)
qed simp

fun connect_all ::
  "((string \<times> nat) list \<Rightarrow> (string \<times> nat) list) \<Rightarrow> nat list \<Rightarrow> ('r, 'w) MeshOrchestrator \<Rightarrow> 'w \<Rightarrow> 'w result \<times> ('r, 'w) MeshOrchestrator" where
  "connect_all ord [] t w = (Inr w, t)"
| "connect_all ord (p # ps) t w =
     (case Orchestrator_Connect ord p t w of (Inl e, t') \<Rightarrow> (Inl e, t') | (Inr w', t') \<Rightarrow> connect_all ord ps t' w')"

abbreviation node_id :: "(nat \<Rightarrow> ('r, 'w) MeshNode) \<Rightarrow> nat \<Rightarrow> string" where
  "node_id heap p \<equiv> pn_ID (tn_node (heap p))"

lemma connect_recorded:
  assumes "recording (mo_heap t)" and "is_iter ord" and "distinct (map snd (mo_nodes t))" and "q \<notin> snd ` set (mo_nodes t)"
    and "node_id (mo_heap t) q \<notin> fst ` set (mo_nodes t)"
  shows "Orchestrator_Connect ord q t w =
    (Inr (\<lambda>p. if p = q \<or> p \<in> snd ` set (mo_nodes t) then w p @ [(tn_node (mo_heap t q), False)] else w p),
     t\<lparr>mo_nodes := mo_nodes t @ [(node_id (mo_heap t) q, q)]\<rparr>)"
proof -
  let ?xs = "mo_nodes t @ [(node_id (mo_heap t) q, q)]"
  have upd: "AList.update k v xs = xs @ [(k, v)]" if "k \<notin> fst ` set xs" for k v and xs :: "(string \<times> nat) list"
    using that by (induction xs) auto
  have "mset (map snd (ord ?xs)) = mset (map snd ?xs)" using assms(2) by (simp only: mset_map is_iter_def)
  then have "distinct (map snd (ord ?xs)) \<longleftrightarrow> distinct (map snd ?xs)" by (rule mset_eq_imp_distinct_iff)
  then have "distinct (map snd (ord ?xs))" using assms(3,4) by simp
  moreover have "set (ord ?xs) = set ?xs" by (rule is_iter_set [OF assms(2)])
  ultimately show ?thesis
    using notify_recorded [OF assms(1), of "ord ?xs" False "tn_node (mo_heap t q)" w] upd [OF assms(5)]
    by (auto simp: Orchestrator_Connect_def Let_def fun_eq_iff)
qed

lemma connect_all_recorded:
  assumes "recording heap" and "is_iter ord" and "mo_heap t = heap" and "distinct (map snd (mo_nodes t) @ ps)"
    and "\<forall>(i, p) \<in> set (mo_nodes t). i = node_id heap p" and "inj (node_id heap)"
  shows "\<exists>t' w'. connect_all ord ps t w = (Inr w', t') \<and>
    (\<forall>p. w' p = w p @ map (\<lambda>q. (tn_node (heap q), False))
       (if p \<in> snd ` set (mo_nodes t) then ps else dropWhile (\<lambda>q. q \<noteq> p) ps))"
  using assms(3-5)
proof (induction ps arbitrary: t w)
  case (Cons q ps)
  let ?t = "t\<lparr>mo_nodes := mo_nodes t @ [(node_id heap q, q)]\<rparr>"
  let ?w = "\<lambda>p. if p = q \<or> p \<in> snd ` set (mo_nodes t) then w p @ [(tn_node (heap q), False)] else w p"
  have q: "q \<notin> snd ` set (mo_nodes t)" "distinct (map snd (mo_nodes t))" using Cons.prems(2) by auto
  have "node_id heap q \<notin> fst ` set (mo_nodes t)"
  proof
    assume "node_id heap q \<in> fst ` set (mo_nodes t)"
    then obtain p where "(node_id heap q, p) \<in> set (mo_nodes t)" by auto
    moreover from this have "p = q" using Cons.prems(3) assms(6) by (auto dest: injD)
    ultimately show False using q(1) by force
  qed
  then have step: "Orchestrator_Connect ord q t w = (Inr ?w, ?t)"
    using connect_recorded [of t ord q w, unfolded Cons.prems(1)] assms(1,2) q by simp
  from Cons.IH [of ?t ?w] Cons.prems obtain t' w' where r: "connect_all ord ps ?t ?w = (Inr w', t')"
    "\<forall>p. w' p = ?w p @ map (\<lambda>q. (tn_node (heap q), False)) (if p \<in> snd ` set (mo_nodes ?t) then ps else dropWhile (\<lambda>q. q \<noteq> p) ps)"
    by auto
  then show ?case using step by (auto simp: image_iff)
qed simp

text \<open>
  Nodes that connect one after the other: a node is told of itself and of those after it, never of those
  before it. The discovery of \<open>pkg/mesh\<close>, for which the stand-in is used, reports all members.
\<close>

lemma late_joiner_misses_earlier:
  assumes "recording heap" and "is_iter ord" and "distinct ps" and "inj (node_id heap)" and "k < length ps"
  shows "\<exists>t w. connect_all ord ps (NewMeshOrchestrator heap) (\<lambda>p. []) = (Inr w, t) \<and>
    w (ps ! k) = map (\<lambda>q. (tn_node (heap q), False)) (drop k ps)"
proof -
  have "dropWhile (\<lambda>q. q \<noteq> ps ! k) ps = drop k ps" using assms(3,5)
  proof (induction ps arbitrary: k)
    case (Cons a ps)
    then show ?case by (cases k) auto
  qed simp
  moreover obtain t' w' where "connect_all ord ps (NewMeshOrchestrator heap) (\<lambda>p. []) = (Inr w', t')"
    "\<forall>p. w' p = map (\<lambda>q. (tn_node (heap q), False)) (dropWhile (\<lambda>q. q \<noteq> p) ps)"
    using connect_all_recorded [OF assms(1,2), of "NewMeshOrchestrator heap" ps "\<lambda>p. []"] assms(3,4)
    by (auto simp: NewMeshOrchestrator_def)
  ultimately show ?thesis by auto
qed

end
