(* ===== verification/Spec2Isabelle.thy ===== *)
theory Spec2Isabelle
  imports Joining MeshFetch TypedReplies Exports AdminRecords Notifier Lifecycle AdminCli Logging UiHelpers TestMesh
begin

text \<open>
  \<^bold>\<open>The program.\<close> Modelmesh (module \<open>speakeasy\<close>) joins computers that run language models into one mesh. Its parts:

  \<^item> The \<^emph>\<open>admin server\<close> (\<open>pkg/admin\<close>) decides who is a member. An administrator creates invites; a node redeems one
    for a secret, logs in with it, is admitted to the allow list and registers. Every change of the
    membership advances a logical clock. A relay (\<open>pkg/mesh/relay.go\<close>) lets admitted peers connect, through the
    connection gate (\<open>gatekeeper.go\<close>) that consults the allow list.
  \<^item> A \<^emph>\<open>node\<close> runs the \<^emph>\<open>proxy\<close> (\<open>pkg/proxy\<close>): it serves local clients and peers, keeps the table of models
    (\<open>modeldex\<close>) and forwards a request to a local provider or over a libp2p stream to a peer.
  \<^item> The \<^emph>\<open>mesh service\<close> (\<open>pkg/mesh/service.go\<close>) of a node logs in at the admin server, opens and serves streams, and runs
    \<^emph>\<open>discovery\<close> (\<open>discovery.go\<close>), which polls the server and reports peers that came or went to the proxy.
  \<^item> \<^emph>\<open>Clients\<close> (\<open>api\<close>, \<open>pkg/jsonclient\<close>) carry the calls over HTTP; the programs in \<open>cmd\<close> put the parts together from a
    configuration (\<open>pkg/core/config.go\<close>); browsers are told of changes through a web socket (\<open>pkg/proxy/socket\<close>).

  \<^bold>\<open>The theories.\<close> A struct is a record with the source's field names behind a prefix, a method a function from the state
  to its result and the new state, an error a value \<open>Inl\<close>; a Go map is a HOL map or, where the order of a
  \<open>range\<close> loop matters, an association list with an arbitrary permutation \<open>ord\<close>.

  \<^item> \<open>Prelude\<close>, \<open>MapOrder\<close>, \<open>NetHttp\<close>: the parts of Go's library the program uses and the shared lemmas.
  \<^item> \<open>JsonKV\<close> (\<open>pkg/jsonkv\<close>), \<open>TokenAuth\<close> (\<open>pkg/admin/auth\<close>), \<open>MagicLink\<close> (\<open>pkg/admin/magiclink\<close>), \<open>AllowList\<close> (\<open>pkg/admin/allow.go\<close>,
    \<open>pkg/mesh/gatekeeper.go\<close>), \<open>ApiTypes\<close>: what the admin server is built from, each with its contract: the locales
    \<open>kv_contract\<close>, \<open>auth_provider\<close> and \<open>gate_provider\<close>, interpreted on the code's definitions.
  \<^item> \<open>AdminServer\<close> (\<open>api_node.go\<close>, \<open>rpc.go\<close>), \<open>AdminInvites\<close> (\<open>api_admin.go\<close>), \<open>AdminRoutes\<close> (\<open>server.go\<close>, \<open>handlers.go\<close>): the server as a function
    \<open>routes\<close> from requests to replies, and \<open>reach\<close>, the states a started server gets to. \<open>AdminExample\<close> is a
    concrete environment for the witnesses. \<open>AdminMembership\<close>, \<open>AdminSecurity\<close>, \<open>AdminLogin\<close>, \<open>AdminRecords\<close>: registered nodes are
    admitted, the clock shows every change, the server refines an abstract membership machine, who may call
    what, the life of invites, secrets and sessions, and the stored records.
  \<^item> \<open>ModelRouter\<close> (\<open>modeldex\<close>) with \<open>RouterLemmas\<close> and \<open>RouterProperties\<close>: the model table with its shared peer maps on an explicit
    heap, refined to a finite map. \<open>ProxyNode\<close> (\<open>pkg/proxy\<close>) with \<open>ProxyProperties\<close>, \<open>ProxyService\<close> and \<open>UiHelpers\<close>: all handlers, where a
    request ends up, and the contract \<open>peer_sink\<close> of the update handler; \<open>Exports\<close>: a node exports only models of its own providers, whatever peers announce.
  \<^item> \<open>Discovery\<close> and \<open>DiscoveryRounds\<close> (\<open>pkg/mesh/discovery.go\<close>): the loop, what a round reports, and that the peers
    known follow the server's list for any \<open>peer_sink\<close>. \<open>PeerLoop\<close> lets the loop make its calls over HTTP: a started node, and one
    that lost its registration, is registered and learns the members.
  \<^item> \<open>JsonPaths\<close>, \<open>JsonClient\<close> (\<open>pkg/jsonclient\<close>), \<open>ApiClient\<close> (\<open>api\<close>): requests and path templates; \<open>ClientServer\<close> connects the
    clients to \<open>routes\<close>, so that a call of a client is a transition of the server, and \<open>TypedReplies\<close> shows that each
    method of the clients decodes the struct its endpoint sends.
  \<^item> \<open>MeshHelpers\<close>, \<open>StreamWriter\<close>, \<open>MeshService\<close> (\<open>pkg/mesh\<close>): both ends of a stream, the response on it, relays, keys, local
    discovery and the constructor of the service. The interface \<open>core.MeshServiceProvider\<close> is the locale \<open>mesh_provider\<close> (in \<open>ApiTypes\<close>), interpreted on the
    service and on the node of the tests. \<open>MeshFetch\<close> puts two nodes at the ends of a stream: one asks for the models the other exports.
  \<^item> \<open>Config\<close> (\<open>config.go\<close>, \<open>pkg/autoip\<close>), \<open>Commands\<close> (\<open>cmd/mesh\<close>), \<open>AdminCli\<close> (\<open>cmd/admincli\<close>), \<open>Joining\<close> (from an invite to a running node),
    \<open>Lifecycle\<close> (\<open>RunInterruptible\<close> and the \<open>Serve\<close> methods; the interface \<open>core.Service\<close> is the locale \<open>interruptible\<close>), \<open>Logging\<close> (\<open>pkg/log\<close>).
  \<^item> \<open>Notifier\<close> (\<open>pkg/proxy/socket\<close>): goroutines and channels as a step relation in which \<open>Poll\<close> wakes one client per step and a panic would be a step; both channels
    that never block their sender are interpretations of the locale \<open>mailbox\<close>.
  \<^item> \<open>TestMesh\<close> (\<open>testable\<close>): the network of the repository's tests, compared with the real writer and the real discovery.

  This theory adds what spans the whole: a round of discovery at a node against the state of the server.

  \<^bold>\<open>Concurrency.\<close> Handlers run under a lock or in database transactions are steps; where the code
  releases the lock between a check and an update (registration, redemption) the handler is also given in two parts, and the
  effect of another request in between is a theorem. The socket and the supervision of services
  are step relations over all interleavings.

  \<^bold>\<open>Bounds and fuel.\<close> The logical clock is a 64-bit word; theorems that need it not to wrap assume
  fewer than \<open>2 ^ 64\<close> requests since the start. Durations wrap as signed 64-bit integers. No function takes
  fuel: loops are structural or have a measure, and the loops that may run forever
  (\<open>WaitForAddress\<close>, \<open>Wait\<close>, the registration loop) are option-valued, \<open>None\<close> meaning that they do not return.

  \<^bold>\<open>Parameters.\<close> Badger, bcrypt, AES-GCM, SHA-256, the JSON and YAML codecs, libp2p, the Ollama client, the retry
  package, the file system and the clock are arguments; what the theorems need of them is a named hypothesis
  (\<open>badger_ok\<close>, \<open>gcm_ok\<close>, \<open>codec_faithful\<close>, \<open>available\<close>, \<open>respects_limits\<close>, \<open>reads_blocks\<close>), and a witness applies each theorem to concrete
  functions that satisfy it.

  \<^bold>\<open>Not modelled.\<close> Sockets and TLS, the bytes of the reverse proxy, the embedded web files (\<open>web/fs.go\<close>), the deadlines of the
  web socket, the text of forms and help. Ids in URL paths are taken to need no escaping where a client and the server
  meet, and paths to need no cleaning by \<open>http.ServeMux\<close>. \<open>pkg/mesh/stream_conn.go\<close> delegates every byte call to libp2p and only its addresses
  are modelled. \<open>strings.ToLower\<close> and \<open>EqualFold\<close> change ASCII letters only. \<open>available\<close> takes every write to the database to succeed, and \<open>reach\<close>
  handles one request after the other. A \<open>NewServer\<close> that cannot open its allow list fails, where the code goes on with a nil list. The listener of libp2p events (\<open>listenForMeshEvents\<close>) only logs. \<open>hybrid\<close> mode is commented out in the source.
\<close>

section \<open>Later states of the admin server\<close>

inductive later :: "('db, 'd) deps \<Rightarrow> 'db Server \<Rightarrow> nat \<Rightarrow> 'db Server \<Rightarrow> bool" for D s where
  now: "later D s 0 s"
| serve: "later D s k t \<Longrightarrow> later D s (Suc k) (snd (routes D inp rq t))"

text \<open>The clock never runs backwards, and equal times show equal memberships.\<close>

lemma later_clock:
  assumes "later D s k t" and "reach D n s" and "n + k < 2 ^ 64"
  shows "reach D (n + k) t \<and> srv_logicalTime s \<le> srv_logicalTime t \<and>
    (srv_logicalTime t = srv_logicalTime s \<longrightarrow> view t = view s)"
  using assms
proof (induction rule: later.induct)
  case (serve k t inp rq)
  let ?t = "snd (routes D inp rq t)"
  have ih: "reach D (n + k) t" "srv_logicalTime s \<le> srv_logicalTime t" "srv_logicalTime t = srv_logicalTime s \<longrightarrow> view t = view s"
    using serve by auto
  have inv: "clock_inv (n + k) (mem_abs t)" using reach_clock [OF ih(1)] serve.prems(2) by simp
  have room: "Suc (n + k) < 2 ^ 64" using serve.prems(2) by simp
  have step: "(view ?t = view t \<longleftrightarrow> srv_logicalTime ?t = srv_logicalTime t) \<and>
      (view ?t \<noteq> view t \<longrightarrow> srv_logicalTime ?t = srv_logicalTime t + 1)"
    using step_clock [OF routes_mem_step inv room] by (simp add: mem_abs_def)
  have grow: "srv_logicalTime t < srv_logicalTime t + 1"
    using inv AdminMembership.tick(2) [OF _ room] by (simp add: mem_abs_def)
  show ?case
  proof (cases "view ?t = view t")
    case True
    then show ?thesis using ih step reach.request [OF ih(1), of inp rq] by simp
  next
    case False
    then have "srv_logicalTime s < srv_logicalTime ?t" using step grow ih(2) by simp
    then show ?thesis using reach.request [OF ih(1), of inp rq] by auto
  qed
qed simp

section \<open>The listing a node receives\<close>

lemma registered_id:
  assumes "reach D n s" and "srv_nodes s i = Some ref"
  shows "pn_ID (ref_Node ref) = i" and "Has (srv_acl s) i"
proof -
  have "view s i = Some (ref_Node ref)" using assms(2) by (simp add: view_def)
  then show "pn_ID (ref_Node ref) = i" "Has (srv_acl s) i"
    using reach_members [OF assms(1)] by (auto simp: mem_abs_def Has_def)
qed

lemma listed_view:
  assumes "reach D n s" and "fst (apiNodeList inp ctx s) = Inr (ReplyNodes ns)" and "visits_all inp s"
  shows "map_of (listing ns) = view s"
  using listing_view [OF assms(2,3) registered_id(1) [OF assms(1)]] .

lemma listed_registered:
  assumes "fst (apiNodeList inp ctx s) = Inr (ReplyNodes ns)" and "reach D n s" and "i \<in> pn_ID ` set ns"
  shows "srv_nodes s i \<noteq> None"
proof -
  obtain j ref where "srv_nodes s j = Some ref" "pn_ID (ref_Node ref) = i"
    using assms(1,3) by (auto simp: apiNodeList_def)
  then show ?thesis using registered_id [OF assms(2)] by auto
qed

section \<open>An example\<close>

text \<open>The one node registered in \<open>ex_joined\<close>, as it is listed, and the round of a node that receives the list.\<close>

definition ex_member_node :: Node where
  "ex_member_node = (ex_node ''n1'')\<lparr>pn_LogicalTime := 1, pn_LastUpdate := 1000000000000\<rparr>"

lemma ex_joined_dom: "dom (srv_nodes ex_joined) = {''n1''}"
proof -
  let ?s = "snd (routes ex_deps ex_inputs (ex_authorize ''n1'') ex_server)"
  have "later ex_deps ex_server (Suc 0) ?s" by (intro later.intros)
  moreover have "srv_logicalTime ?s = srv_logicalTime ex_server" by code_simp
  ultimately have "view ?s = view ex_server" using later_clock [OF _ ex_start] by simp
  then have empty: "view ?s = Map.empty" by (simp add: view_def fun_eq_iff ex_server_def ex_server_key_def)
  have "mem_step (mem_abs ?s) (mem_abs ex_joined)"
    unfolding ex_joined_def ex_join_def by (rule routes_mem_step)
  then have "\<exists>i. dom (view ex_joined) \<subseteq> {i}"
    unfolding mem_abs_def empty by (auto elim!: mem_stepE)
  moreover have "view ex_joined ''n1'' \<noteq> None" using ex_joined_node by (auto simp: view_def)
  ultimately have "dom (view ex_joined) = {''n1''}" by (auto simp del: not_None_eq)
  then show ?thesis by (simp add: view_def dom_def)
qed

lemma ex_joined_listing:
  "fst (apiNodeList ex_inputs ctx ex_joined) = Inr (ReplyNodes [ex_member_node])"
  "visits_all ex_inputs ex_joined" "srv_logicalTime ex_joined = 1"
proof -
  have "map_option ref_Node (srv_nodes ex_joined ''n1'') = Some ex_member_node"
    using ex_joined_node by (simp add: ex_member_node_def)
  then show "fst (apiNodeList ex_inputs ctx ex_joined) = Inr (ReplyNodes [ex_member_node])"
    by (auto simp: apiNodeList_def ex_inputs_def)
  show "visits_all ex_inputs ex_joined" using ex_joined_dom by (auto simp: visits_all_def ex_inputs_def)
  show "srv_logicalTime ex_joined = 1" by code_simp
qed

lemma ex_px_links: "linked (px_router ex_px) i \<Longrightarrow> i = ''me''"
proof -
  have "\<forall>(k, r) \<in> set (rt_MeshModels ex_router). list_all (\<lambda>(i, n). i = ''me'') (peers_of (rt_heap ex_router) r)" by code_simp
  then show "linked (px_router ex_px) i \<Longrightarrow> i = ''me''"
    by (fastforce simp: linked_def GetModelRoute_def ex_px_def list_all_iff dest!: map_of_SomeD)
qed

lemma ex_member_reports:
  "reports (\<lambda>xs. xs) ''me'' (ds_peers (ex_disc [])) (listing [ex_member_node]) = [(ex_node ''n1'', False)]"
  by (simp add: reports_def diffNodes_def listing_def ex_disc_def ex_member_node_def ex_node_def NewPeerNode_def)

section \<open>Properties across the parts\<close>

text \<open>
  C1. Traffic goes to members only. A node starts with no peers, and runs any number of discovery rounds
  against any answers. After a round in which it received the list of a reachable admin server,
  every request of a local client that its proxy forwards to a peer goes to a node that was
  registered and on the allow list when the list was made, or to the node itself. (At the start
  the table names no peer but the node itself, which the scan of the providers enters.)
\<close>

theorem traffic_to_members_only:
  assumes "reach D n s" and "fst (apiNodeList inpS ctx s) = Inr (ReplyNodes ns)"
    and "is_iter ord" and "proxy_inv (E, p)" and "\<forall>i. linked (px_router p) i \<longrightarrow> i = selfID" and "ds_peers d = []"
    and "rounds ord selfID (Some proxy_update) inps (d, (E, p)) = Inr (d1, st)"
    and "answered inp t ns" and "ds_last d1 \<noteq> t"
  shows "\<exists>d2 st2. poll ord selfID (Some proxy_update) inp (d1, st) = Inr (d2, st2) \<and>
    (\<forall>E2 r peer body. fst (fst (ServeHTTP E2 r (snd st2))) = ForwardPeer peer body \<longrightarrow>
       pn_ID peer = selfID \<or> (srv_nodes s (pn_ID peer) \<noteq> None \<and> Has (srv_acl s) (pn_ID peer)))"
proof -
  let ?link = "\<lambda>s. linked (px_router (snd s))"
  have "listening proxy_inv ?link selfID d (E, p)" using assms(4-6) keyed_Nil by (simp add: listening_def)
  then have "listening proxy_inv ?link selfID d1 st" by (rule proxy.rounds_listening [OF assms(3) _ assms(7)])
  from proxy.poll_listening [OF assms(3) this, of inp] obtain d2 st2 where
    p: "poll ord selfID (Some proxy_update) inp (d1, st) = Inr (d2, st2)" "listening proxy_inv ?link selfID d2 st2"
      "\<forall>i. ?link st2 i \<longrightarrow> i = selfID \<or> i \<in> pn_ID ` set ns"
    using assms(8,9) by blast
  have "pn_ID peer = selfID \<or> (srv_nodes s (pn_ID peer) \<noteq> None \<and> Has (srv_acl s) (pn_ID peer))"
    if "fst (fst (ServeHTTP E2 r (snd st2))) = ForwardPeer peer body" for E2 r peer body
  proof -
    have lk: "?link st2 (pn_ID peer)"
      using forward_linked [OF ServeHTTP_forward [OF that]] p(2) by (simp add: listening_def proxy_inv_def)
    then have "pn_ID peer = selfID \<or> srv_nodes s (pn_ID peer) \<noteq> None" using p(3) listed_registered [OF assms(2,1)] by blast
    then show ?thesis using registered_id(2) [OF assms(1)] by blast
  qed
  with p(1) show ?thesis by blast
qed

theorem traffic_to_members_only_witness:
  "\<exists>d2 st2. poll (\<lambda>xs. xs) ''me'' (Some proxy_update) (ex_poll 1 [ex_member_node])
      (ex_disc [], (ex_px_env ''me'' ex_models, ex_px)) = Inr (d2, st2) \<and>
    fst (fst (ServeHTTP (ex_px_env ''me'' ex_models) (ex_chat ''/v1/chat/completions'') (snd st2))) =
      ForwardPeer (ex_node ''n1'') ''llama'' \<and> srv_nodes ex_joined ''n1'' \<noteq> None"
proof -
  let ?E = "ex_px_env ''me'' ex_models" and ?r = "ex_chat ''/v1/chat/completions''"
  have "ds_peers (ex_disc []) = []" by (simp add: ex_disc_def listing_def)
  from traffic_to_members_only [OF ex_joined_reach ex_joined_listing(1) is_iter_id ex_px_inv _ this rounds.simps(1)
      ex_poll_answered [of 1] ex_last, of "''me''" "''me''" ex_models] ex_px_links
  obtain d2 st2 where p: "poll (\<lambda>xs. xs) ''me'' (Some proxy_update) (ex_poll 1 [ex_member_node]) (ex_disc [], (?E, ex_px)) = Inr (d2, st2)"
    and to: "\<And>E2 r peer body. fst (fst (ServeHTTP E2 r (snd st2))) = ForwardPeer peer body \<Longrightarrow>
      pn_ID peer = ''me'' \<or> srv_nodes ex_joined (pn_ID peer) \<noteq> None"
    by blast
  have "st2 = snd (proxy_update (ex_node ''n1'') False (?E, ex_px))"
    using poll_round(5) [OF is_iter_id ex_disc_keyed ex_poll_answered ex_last p] by (simp add: ex_member_reports)
  then have st2: "snd st2 = snd (OnPeerUpdate ?E (ex_node ''n1'') False ex_px)" by (simp add: proxy_update_def split_beta)
  have "GetModelRoute (px_router ex_px) (pn_ID (ex_node ''n1'')) = None" "pn_ID (ex_node ''n1'') \<notin> wm_Name ` set ex_models"
    "''llama'' \<in> wm_Name ` set ex_models" by code_simp+
  then have "proxyModelRequest ?E (snd st2) ?r False = ForwardPeer (ex_node ''n1'') ''llama''"
    unfolding st2
    using announced_route [where b = False, OF ex_px_inv ex_env_iter(1) ex_env_models _ _ _ ex_chat_body] by simp
  then have f: "fst (fst (ServeHTTP ?E ?r (snd st2))) = ForwardPeer (ex_node ''n1'') ''llama''"
    by (subst ServeHTTP_model) (simp_all add: model_path_def ex_chat_def)
  then show ?thesis using p to [OF f] by (auto simp: ex_node_def)
qed

text \<open>
  C2. A skipped round misses nothing. A node was told the time \<open>t\<close> when the server was in state \<open>s1\<close>,
  fetched the list when the server had moved on to \<open>s2\<close>, and its round went well. When the server
  later, in state \<open>s3\<close>, answers the same time again, the loop skips the comparison; the peers it
  remembers are then exactly the nodes registered in \<open>s3\<close>.
\<close>

theorem skipped_round_misses_nothing:
  assumes "reach D n s1" and "later D s1 k s2" and "later D s2 m s3" and "n + k + m < 2 ^ 64"
    and "fst (apiNodeList inpS ctx s2) = Inr (ReplyNodes ns)" and "visits_all inpS s2"
    and "is_iter ord" and "keyed (ds_peers d)" and "answered inp (srv_logicalTime s1) ns"
    and "ds_last d \<noteq> srv_logicalTime s1" and "poll ord selfID (Some f) inp (d, st) = Inr (d1, st1)"
    and "ds_last d1 = srv_logicalTime s1"
    and "pi_refresh inp' = Inr v" and "rr_LogicalTime v = srv_logicalTime s3" and "srv_logicalTime s3 = ds_last d1"
  shows "poll ord selfID (Some f) inp' (d1, st1) =
      Inr (d1\<lparr>ds_reg := (ds_reg d1)\<lparr>rg_token := rr_Token v\<rparr>\<rparr>, st1) \<and> map_of (ds_peers d1) = view s3"
proof -
  have c2: "reach D (n + k) s2 \<and> srv_logicalTime s1 \<le> srv_logicalTime s2"
    using later_clock [OF assms(2,1)] assms(4) by simp
  then have "srv_logicalTime s2 \<le> srv_logicalTime s3" "srv_logicalTime s3 = srv_logicalTime s2 \<longrightarrow> view s3 = view s2"
    using later_clock [OF assms(3), of "n + k"] assms(4) by simp_all
  then have same: "view s3 = view s2" using c2 assms(12,15) by simp
  have "ds_peers d1 = listing ns"
    using poll_round(4) [OF assms(7-11)] assms(10,12) by simp
  then have "map_of (ds_peers d1) = view s3"
    using listed_view [OF conjunct1 [OF c2] assms(5,6)] same by simp
  then show ?thesis using assms(13-15) by (simp add: poll_def Registration_Refresh_def)
qed

theorem skipped_round_misses_nothing_witness:
  "\<exists>d1. poll (\<lambda>xs. xs) ''me'' (Some (\<lambda>n b s. (None, s + (1::nat)))) (ex_poll 1 [ex_member_node]) (ex_disc [], 0) = Inr (d1, 1) \<and>
     map_of (ds_peers d1) = view (snd (routes ex_deps ex_inputs (ex_authorize ''n2'') ex_joined))"
proof -
  let ?s3 = "snd (routes ex_deps ex_inputs (ex_authorize ''n2'') ex_joined)"
  let ?f = "\<lambda>n b s. (None, s + (1::nat))" and ?in = "ex_poll 1 [ex_member_node]"
  obtain d1 where p: "poll (\<lambda>xs. xs) ''me'' (Some ?f) ?in (ex_disc [], 0) = Inr (d1, 1)" and l: "ds_last d1 = 1"
    by (auto simp: poll_def ex_poll_def ex_disc_def Registration_Refresh_def GetPeerMap_def sync_def diffNodes_def
        report_removed_def report_updated_def ex_member_node_def ex_node_def listing_def NewPeerNode_def Let_def)
  have "srv_logicalTime ?s3 = 1" by code_simp
  moreover have "later ex_deps ex_joined (Suc 0) ?s3" by (intro later.intros)
  moreover have "pi_refresh (ex_poll 1 []) = Inr (case pi_refresh (ex_poll 1 []) of Inr v \<Rightarrow> v)"
    "rr_LogicalTime (case pi_refresh (ex_poll 1 []) of Inr v \<Rightarrow> v) = 1" by (simp_all add: ex_poll_def Let_def)
  ultimately show ?thesis
    using skipped_round_misses_nothing [OF ex_joined_reach later.now _ _ ex_joined_listing(1,2) is_iter_id ex_disc_keyed _ _ p,
        of "Suc 0" ?s3 "ex_poll 1 []" "case pi_refresh (ex_poll 1 []) of Inr v \<Rightarrow> v"]
      ex_poll_answered [of 1 "[ex_member_node]"] ex_last [of "[]"] ex_joined_listing(3) l p by auto
qed

end
